(* ===== verification/Prelude.thy ===== *)
theory Prelude
  imports Main "HOL-Library.Word" "HOL-Library.Char_ord" "HOL-Library.List_Lexorder"
begin

text \<open>
  What every component of the development shares: machine integers, the two error monads the
  model is written in (pure results \<open>'e + 'a\<close>, and operations on a state that keeps its
  changes when they fail), the part of Rust's \<open>str\<close> API the gateway uses, and generic lemmas
  on byte strings and on key orders.

  A Rust \<open>String\<close> is its UTF-8 bytes, so a \<^typ>\<open>string\<close> (a list of 8-bit
  \<^typ>\<open>char\<close>s) is exactly its content: \<open>length\<close> is \<open>len()\<close> and the
  lexicographic order of \<open>List_Lexorder\<close> is Rust's (and redb's) byte order.
\<close>

section \<open>Collections of facts and type names\<close>

named_theorems op_simps \<open>unfolding of the error monads\<close>
named_theorems refine_simps \<open>facts that carry the refinement proofs\<close>

type_synonym u8 = "8 word"
type_synonym u16 = "16 word"
type_synonym u32 = "32 word"
type_synonym u64 = "64 word"
type_synonym bytes = "u8 list"

text \<open>An operation on a state: the result, and the state it leaves, on failure too.\<close>

type_synonym ('s, 'e, 'a) op = "'s \<Rightarrow> ('e + 'a) \<times> 's"

section \<open>Results: the \<open>?\<close> operator on pure values\<close>

fun bindR :: "'e + 'a \<Rightarrow> ('a \<Rightarrow> 'e + 'b) \<Rightarrow> 'e + 'b" where
  "bindR (Inl e) f = Inl e"
| "bindR (Inr x) f = f x"

fun map_err :: "('e \<Rightarrow> 'f) \<Rightarrow> 'e + 'a \<Rightarrow> 'f + 'a" where
  "map_err g (Inl e) = Inl (g e)"
| "map_err g (Inr x) = Inr x"

fun mapR :: "('a \<Rightarrow> 'b) \<Rightarrow> 'e + 'a \<Rightarrow> 'e + 'b" where
  "mapR g (Inl e) = Inl e"
| "mapR g (Inr x) = Inr (g x)"

fun ok_or :: "'a option \<Rightarrow> 'e \<Rightarrow> 'e + 'a" where
  "ok_or None e = Inl e"
| "ok_or (Some x) e = Inr x"

definition ensure :: "bool \<Rightarrow> 'e \<Rightarrow> 'e + unit" where
  "ensure b e = (if b then Inr () else Inl e)"

definition is_ok :: "'e + 'a \<Rightarrow> bool" where
  "is_ok r = (case r of Inl _ \<Rightarrow> False | Inr _ \<Rightarrow> True)"

lemma bindR_eq_Inr: "bindR m f = Inr y \<longleftrightarrow> (\<exists>x. m = Inr x \<and> f x = Inr y)"
  by (cases m) auto

lemma bindR_eq_Inl: "bindR m f = Inl e \<longleftrightarrow> m = Inl e \<or> (\<exists>x. m = Inr x \<and> f x = Inl e)"
  by (cases m) auto

lemma mapR_eq_Inr: "mapR g m = Inr y \<longleftrightarrow> (\<exists>x. m = Inr x \<and> y = g x)"
  by (cases m) auto

lemma mapR_eq_Inl: "mapR g m = Inl e \<longleftrightarrow> m = Inl e"
  by (cases m) auto

lemma map_err_eq_Inr: "map_err g m = Inr y \<longleftrightarrow> m = Inr y"
  by (cases m) auto

lemma map_err_eq_Inl: "map_err g m = Inl e \<longleftrightarrow> (\<exists>e'. m = Inl e' \<and> e = g e')"
  by (cases m) auto

lemma ok_or_eq_Inr: "ok_or x e = Inr y \<longleftrightarrow> x = Some y"
  by (cases x) auto

lemma ok_or_eq_Inl: "ok_or x e = Inl e' \<longleftrightarrow> x = None \<and> e' = e"
  by (cases x) auto

lemma ensure_eq_Inr: "ensure b e = Inr u \<longleftrightarrow> b"
  by (simp add: ensure_def)

lemma ensure_eq_Inl: "ensure b e = Inl e' \<longleftrightarrow> \<not> b \<and> e' = e"
  by (auto simp: ensure_def)

lemma Inr_eq_map_err: "Inr y = map_err g m \<longleftrightarrow> m = Inr y"
  by (cases m) auto

lemma Inl_eq_map_err: "Inl e = map_err g m \<longleftrightarrow> (\<exists>e'. m = Inl e' \<and> e = g e')"
  by (cases m) auto

lemma is_ok_simps [simp]: "\<not> is_ok (Inl e)" "is_ok (Inr x)"
  by (simp_all add: is_ok_def)

lemmas result_iffs =
  bindR_eq_Inr bindR_eq_Inl mapR_eq_Inr mapR_eq_Inl map_err_eq_Inr map_err_eq_Inl
  ok_or_eq_Inr ok_or_eq_Inl ensure_eq_Inr ensure_eq_Inl Inr_eq_map_err Inl_eq_map_err

section \<open>Operations on a state\<close>

definition retE :: "'a \<Rightarrow> ('s, 'e, 'a) op" where
  "retE x = (\<lambda>s. (Inr x, s))"

definition failE :: "'e \<Rightarrow> ('s, 'e, 'a) op" where
  "failE e = (\<lambda>s. (Inl e, s))"

definition liftE :: "'e + 'a \<Rightarrow> ('s, 'e, 'a) op" where
  "liftE r = (\<lambda>s. (r, s))"

definition readE :: "('s \<Rightarrow> 'e + 'a) \<Rightarrow> ('s, 'e, 'a) op" where
  "readE f = (\<lambda>s. (f s, s))"

definition bindE :: "('s, 'e, 'a) op \<Rightarrow> ('a \<Rightarrow> ('s, 'e, 'b) op) \<Rightarrow> ('s, 'e, 'b) op" where
  "bindE m f = (\<lambda>s. case m s of (Inl e, s') \<Rightarrow> (Inl e, s') | (Inr x, s') \<Rightarrow> f x s')"

definition seqE :: "('s, 'e, 'a) op \<Rightarrow> ('s, 'e, 'b) op \<Rightarrow> ('s, 'e, 'b) op" where
  "seqE m n = bindE m (\<lambda>_. n)"

definition mapErrE :: "('e \<Rightarrow> 'f) \<Rightarrow> ('s, 'e, 'a) op \<Rightarrow> ('s, 'f, 'a) op" where
  "mapErrE g m = (\<lambda>s. case m s of (r, s') \<Rightarrow> (map_err g r, s'))"

definition mapE :: "('a \<Rightarrow> 'b) \<Rightarrow> ('s, 'e, 'a) op \<Rightarrow> ('s, 'e, 'b) op" where
  "mapE g m = (\<lambda>s. case m s of (r, s') \<Rightarrow> (mapR g r, s'))"

text \<open>\<open>let _ = m\<close> or a logged error: the result is dropped, the state change stays.\<close>

definition ignoreE :: "('s, 'e, 'a) op \<Rightarrow> ('s, 'f, unit) op" where
  "ignoreE m = (\<lambda>s. (Inr (), snd (m s)))"

lemma bindE_Inr:
  "bindE m f s = (Inr y, t) \<longleftrightarrow> (\<exists>x u. m s = (Inr x, u) \<and> f x u = (Inr y, t))"
  by (auto simp: bindE_def split: prod.splits sum.splits)

lemma bindE_Inl:
  "bindE m f s = (Inl e, t) \<longleftrightarrow>
     m s = (Inl e, t) \<or> (\<exists>x u. m s = (Inr x, u) \<and> f x u = (Inl e, t))"
  by (auto simp: bindE_def split: prod.splits sum.splits)

lemma seqE_Inr:
  "seqE m n s = (Inr y, t) \<longleftrightarrow> (\<exists>x u. m s = (Inr x, u) \<and> n u = (Inr y, t))"
  by (simp add: seqE_def bindE_Inr)

lemma seqE_Inl:
  "seqE m n s = (Inl e, t) \<longleftrightarrow>
     m s = (Inl e, t) \<or> (\<exists>x u. m s = (Inr x, u) \<and> n u = (Inl e, t))"
  by (simp add: seqE_def bindE_Inl)

lemma liftE_eq: "liftE r s = (r', t) \<longleftrightarrow> r = r' \<and> t = s"
  by (auto simp: liftE_def)

lemma readE_eq: "readE f s = (r', t) \<longleftrightarrow> f s = r' \<and> t = s"
  by (auto simp: readE_def)

lemma retE_eq: "retE x s = (r', t) \<longleftrightarrow> r' = Inr x \<and> t = s"
  by (auto simp: retE_def)

lemma failE_eq: "failE e s = (r', t) \<longleftrightarrow> r' = Inl e \<and> t = s"
  by (auto simp: failE_def)

lemma mapE_eq: "mapE g m s = (r, t) \<longleftrightarrow> (\<exists>q. m s = (q, t) \<and> r = mapR g q)"
  by (auto simp: mapE_def split: prod.splits)

lemma mapErrE_eq: "mapErrE g m s = (r, t) \<longleftrightarrow> (\<exists>q. m s = (q, t) \<and> r = map_err g q)"
  by (auto simp: mapErrE_def split: prod.splits)

lemma ignoreE_eq: "ignoreE m s = (r, t) \<longleftrightarrow> r = Inr () \<and> t = snd (m s)"
  by (auto simp: ignoreE_def)

lemmas op_iffs [op_simps] =
  bindE_Inr bindE_Inl seqE_Inr seqE_Inl liftE_eq readE_eq retE_eq failE_eq mapE_eq mapErrE_eq
  ignoreE_eq

lemmas op_defs =
  bindE_def seqE_def liftE_def readE_def retE_def failE_def mapE_def mapErrE_def ignoreE_def

text \<open>Running an operation whose first step is known.\<close>

lemma bindE_step_Inr: "m s = (Inr x, u) \<Longrightarrow> bindE m f s = f x u"
  by (simp add: bindE_def)

lemma bindE_step_Inl: "m s = (Inl e, u) \<Longrightarrow> bindE m f s = (Inl e, u)"
  by (simp add: bindE_def)

lemma bindE_readE:
  "bindE (readE g) f s = (case g s of Inl e \<Rightarrow> (Inl e, s) | Inr x \<Rightarrow> f x s)"
  by (simp add: bindE_def readE_def split: sum.splits)

lemma bindE_liftE:
  "bindE (liftE r) f s = (case r of Inl e \<Rightarrow> (Inl e, s) | Inr x \<Rightarrow> f x s)"
  by (simp add: bindE_def liftE_def split: sum.splits)

lemma seqE_liftE:
  "seqE (liftE r) n s = (case r of Inl e \<Rightarrow> (Inl e, s) | Inr x \<Rightarrow> n s)"
  by (simp add: seqE_def bindE_liftE)

lemma seqE_readE:
  "seqE (readE g) n s = (case g s of Inl e \<Rightarrow> (Inl e, s) | Inr x \<Rightarrow> n s)"
  by (simp add: seqE_def bindE_readE)

lemmas op_steps = bindE_readE bindE_liftE seqE_readE seqE_liftE

section \<open>Rust strings\<close>

definition starts_with :: "'a list \<Rightarrow> 'a list \<Rightarrow> bool" where
  "starts_with s p = (take (length p) s = p)"

definition strip_prefix :: "'a list \<Rightarrow> 'a list \<Rightarrow> 'a list option" where
  "strip_prefix s p = (if starts_with s p then Some (drop (length p) s) else None)"

lemma starts_with_iff: "starts_with s p \<longleftrightarrow> (\<exists>r. s = p @ r)"
  by (auto simp: starts_with_def) (metis append_take_drop_id)

lemma starts_with_append [simp]: "starts_with (p @ r) p"
  by (simp add: starts_with_def)

lemma strip_prefix_Some: "strip_prefix s p = Some r \<longleftrightarrow> s = p @ r"
  by (auto simp: strip_prefix_def starts_with_iff)

text \<open>The byte 0 separates the parts of a composite key.\<close>

definition nul :: char where
  "nul = char_of (0 :: nat)"

definition nul_free :: "string \<Rightarrow> bool" where
  "nul_free s = list_all (\<lambda>c. c \<noteq> nul) s"

lemma nul_free_iff: "nul_free s \<longleftrightarrow> nul \<notin> set s"
  by (auto simp: nul_free_def list_all_iff)

lemma split_at_first:
  assumes "c \<notin> set a" and "c \<notin> set b" and "a @ c # x = b @ c # y"
  shows "a = b \<and> x = y"
  using assms
proof (induction a arbitrary: b)
  case Nil
  then show ?case by (cases b) auto
next
  case (Cons h a)
  then show ?case by (cases b) auto
qed

lemma nul_key_inject:
  assumes "nul_free a" and "nul_free b"
  shows "a @ nul # x = b @ nul # y \<longleftrightarrow> a = b \<and> x = y"
  using assms split_at_first [of nul a b x y] by (auto simp: nul_free_iff)

text \<open>
  A composite key of null-free parts is never the key of parts that hold a null byte: it has
  exactly one separator.
\<close>

lemma nul_key_unique:
  assumes "nul_free a" and "nul_free x" and "b @ nul # y = a @ nul # x"
  shows "b = a \<and> y = x"
proof -
  have "nul \<notin> set b"
  proof
    assume "nul \<in> set b"
    then have "2 \<le> count_list (b @ nul # y) nul"
      by (simp add: count_list_append)
         (metis One_nat_def Suc_leI add_Suc_right bot_nat_0.not_eq_extremum count_list_0_iff le_add1 le_trans)
    moreover have "count_list (a @ nul # x) nul = 1"
      using assms(1,2) by (simp add: nul_free_iff count_list_0_iff)
    ultimately show False using assms(3) by simp
  qed
  then show ?thesis
    using assms split_at_first [of nul b a y x] by (simp add: nul_free_iff)
qed

subsection \<open>Fixed-width decimal numbers\<close>

text \<open>
  Rust's \<open>{:0w}\<close> for a number of at most \<open>w\<close> digits. The order of the texts is the order of
  the numbers, which is what makes a key scan a scan in time order.
\<close>

definition digit :: "nat \<Rightarrow> char" where
  "digit d = char_of (48 + d)"

fun pad_dec :: "nat \<Rightarrow> nat \<Rightarrow> string" where
  "pad_dec 0 n = []"
| "pad_dec (Suc w) n = pad_dec w (n div 10) @ [digit (n mod 10)]"

lemma length_pad_dec [simp]: "length (pad_dec w n) = w"
  by (induction w arbitrary: n) auto

lemma digit_less_iff: "d < 10 \<Longrightarrow> e < 10 \<Longrightarrow> digit d < digit e \<longleftrightarrow> d < e"
  by (simp add: digit_def less_char_def of_char_of)

lemma digit_eq_iff: "d < 10 \<Longrightarrow> e < 10 \<Longrightarrow> digit d = digit e \<longleftrightarrow> d = e"
  by (metis digit_less_iff less_irrefl linorder_less_linear)

lemma digit_not_nul: "d < 10 \<Longrightarrow> digit d \<noteq> nul"
proof -
  assume "d < 10"
  then have "of_char (digit d) = 48 + d"
    by (simp add: digit_def of_char_of)
  then show ?thesis by (auto simp: nul_def of_char_of)
qed

lemma pad_dec_nul_free: "nul_free (pad_dec w n)"
proof (induction w arbitrary: n)
  case 0
  then show ?case by (simp add: nul_free_iff)
next
  case (Suc w)
  then show ?case
    using digit_not_nul [of "n mod 10"] by (auto simp: nul_free_iff)
qed

lemma append1_less_iff:
  fixes xs ys :: "'a::linorder list"
  assumes "length xs = length ys"
  shows "xs @ [a] < ys @ [b] \<longleftrightarrow> xs < ys \<or> (xs = ys \<and> a < b)"
  using assms by (induction xs ys rule: list_induct2) auto

lemma same_length_less_append:
  fixes xs ys :: "'a::linorder list"
  assumes "length xs = length ys" and "xs \<noteq> ys"
  shows "xs @ us < ys @ vs \<longleftrightarrow> xs < ys"
  using assms by (induction xs ys rule: list_induct2) auto

lemma append_less_cancel:
  fixes xs :: "'a::linorder list"
  shows "xs @ us < xs @ vs \<longleftrightarrow> us < vs"
  by (induction xs) auto

lemma less_iff_div_mod:
  fixes m n :: nat
  shows "m < n \<longleftrightarrow> m div 10 < n div 10 \<or> (m div 10 = n div 10 \<and> m mod 10 < n mod 10)"
proof -
  have "m = 10 * (m div 10) + m mod 10" "m mod 10 < 10"
    "n = 10 * (n div 10) + n mod 10" "n mod 10 < 10"
    by simp_all
  then show ?thesis by linarith
qed

lemma pad_dec_less_iff:
  "m < 10 ^ w \<Longrightarrow> n < 10 ^ w \<Longrightarrow> pad_dec w m < pad_dec w n \<longleftrightarrow> m < n"
proof (induction w arbitrary: m n)
  case 0
  then show ?case by simp
next
  case (Suc w)
  then have lt: "pad_dec w (m div 10) < pad_dec w (n div 10) \<longleftrightarrow> m div 10 < n div 10"
    and gt: "pad_dec w (n div 10) < pad_dec w (m div 10) \<longleftrightarrow> n div 10 < m div 10"
    by (simp_all add: less_mult_imp_div_less)
  then have eq: "pad_dec w (m div 10) = pad_dec w (n div 10) \<longleftrightarrow> m div 10 = n div 10"
    by (metis linorder_less_linear less_irrefl)
  show ?case
    unfolding less_iff_div_mod [of m n]
    by (simp add: append1_less_iff digit_less_iff lt eq)
qed

lemma pad_dec_eq_iff:
  "m < 10 ^ w \<Longrightarrow> n < 10 ^ w \<Longrightarrow> pad_dec w m = pad_dec w n \<longleftrightarrow> m = n"
  by (metis pad_dec_less_iff linorder_less_linear less_irrefl)

section \<open>Counters\<close>

text \<open>A counter below a bound of its type does not wrap when it is incremented.\<close>

lemma unat_u32_Suc: "u < m \<Longrightarrow> unat (u + 1 :: u32) = Suc (unat u)"
proof -
  assume "u < m"
  then have "unat u < unat m" by (simp add: word_less_nat_alt)
  moreover have "unat m < 2 ^ 32" using unsigned_less [of m] by simp
  ultimately show ?thesis by (simp add: unat_word_ariths)
qed

end
