(* ===== verification/Models.thy ===== *)
theory Models
  imports Prelude
begin

text \<open>
  The gateway's data (\<open>src/tenant/models.rs\<close>): one record per struct, one datatype per enum,
  integers at their width. Record fields carry a short prefix because several structs share field
  names (\<open>org_id\<close>, \<open>app_id\<close>, \<open>created_at\<close>). The errors the code raises with
  \<open>bail!\<close>, \<open>anyhow!\<close> or \<open>?\<close> are the datatype \<open>err\<close>, one constructor for each message.
\<close>

unbundle bit_operations_syntax

section \<open>Errors\<close>

datatype err =
    Io string                     \<comment> \<open>an error of a library the code calls (redb, serde, reqwest)\<close>
  | FieldEmpty string
  | FieldTooLong string nat
  | FieldBadStart string
  | FieldBadChars string
  | FieldBadScheme string
  | OrgExists string
  | OrgNotFound string
  | FormationQuota string u32
  | FormationExists string string
  | FormationNotFound string string
  | GenesisNotFound string string
  | GenesisDecode string
  | TokenNotFound string string
  | TokenAlreadyRevoked string
  | TokenWrongFormation string
  | TokenRevoked string
  | TokenExpired string
  | TokenExhausted string u32
  | SinkQuota string u32
  | SinkNotFound string string
  | IdpNotFound string string
  | RuleNotFound string string
  | NoKeyProvider string
  | EnvelopeVersion u8
  | EnvelopeTruncated
  | DekLength nat
  | WrappedDekTooLong nat
  | WrappedDekTooShort nat
  | BadKek string
  | RoundtripFailed string
  | FeatureMissing string
  | ConfigMissing string
  | HttpStatus nat
  | Panic string                \<comment> \<open>an index or slice out of range\<close>

section \<open>Organizations, formations, tokens, sinks\<close>

record org_quotas =
  max_formations :: u32
  max_peers_per_formation :: u32
  max_documents_per_formation :: u32
  max_cdc_sinks :: u32
  max_enrollments_per_hour :: u32

definition default_max_enrollments_per_hour :: u32 where
  "default_max_enrollments_per_hour = 1000"

definition default_quotas :: org_quotas where
  "default_quotas =
     \<lparr>max_formations = 10, max_peers_per_formation = 100, max_documents_per_formation = 10000,
      max_cdc_sinks = 5, max_enrollments_per_hour = 1000\<rparr>"

record organization =
  org_org_id :: string
  org_display_name :: string
  org_quotas :: org_quotas
  org_created_at :: u64

datatype enrollment_policy = Open | Controlled | Strict

record formation_config =
  form_app_id :: string
  form_mesh_id :: string
  form_enrollment_policy :: enrollment_policy

record enrollment_token =
  tok_token_id :: string
  tok_org_id :: string
  tok_app_id :: string
  tok_label :: string
  tok_max_uses :: "u32 option"
  tok_uses :: u32
  tok_expires_at :: "u64 option"
  tok_created_at :: u64
  tok_revoked :: bool

datatype cdc_sink_type =
    Nats string       \<comment> \<open>subject prefix\<close>
  | Kafka string      \<comment> \<open>topic\<close>
  | Webhook string    \<comment> \<open>url\<close>

record cdc_sink_config =
  sink_sink_id :: string
  sink_org_id :: string
  sink_sink_type :: cdc_sink_type
  sink_enabled :: bool
  sink_created_at :: u64

section \<open>Identity federation\<close>

record idp_config =
  idp_idp_id :: string
  idp_org_id :: string
  idp_issuer_url :: string
  idp_client_id :: string
  idp_client_secret :: string
  idp_enabled :: bool
  idp_created_at :: u64

record idp_config_response =
  idpr_idp_id :: string
  idpr_org_id :: string
  idpr_issuer_url :: string
  idpr_client_id :: string
  idpr_enabled :: bool
  idpr_created_at :: u64

definition idp_response :: "idp_config \<Rightarrow> idp_config_response" where
  "idp_response idp =
     \<lparr>idpr_idp_id = idp_idp_id idp, idpr_org_id = idp_org_id idp,
      idpr_issuer_url = idp_issuer_url idp, idpr_client_id = idp_client_id idp,
      idpr_enabled = idp_enabled idp, idpr_created_at = idp_created_at idp\<rparr>"

datatype mesh_tier = Authority | Infrastructure | Endpoint

record policy_rule =
  rule_rule_id :: string
  rule_org_id :: string
  rule_claim_key :: string
  rule_claim_value :: string
  rule_tier :: mesh_tier
  rule_permissions :: u32
  rule_priority :: u32

text \<open>The tiers of the mesh's wire format (\<open>peat_mesh::security::MeshTier\<close>) the code names.\<close>

datatype wire_tier = Enterprise | Regional | Tactical

fun to_mesh_tier :: "mesh_tier \<Rightarrow> wire_tier" where
  "to_mesh_tier Authority = Enterprise"
| "to_mesh_tier Infrastructure = Regional"
| "to_mesh_tier Endpoint = Tactical"

datatype enrollment_decision =
    Approved mesh_tier u32
  | Denied string

record audit_entry =
  aud_audit_id :: string
  aud_org_id :: string
  aud_app_id :: string
  aud_idp_id :: string
  aud_subject :: string
  aud_decision :: enrollment_decision
  aud_timestamp_ms :: u64

section \<open>Permission bits\<close>

definition RELAY :: u32 where "RELAY = 0x01"
definition EMERGENCY :: u32 where "EMERGENCY = 0x02"
definition ENROLL :: u32 where "ENROLL = 0x04"
definition ADMIN :: u32 where "ADMIN = 0x08"

text \<open>
  The wire's permission bits are constants of \<open>peat_mesh::security::certificate::permissions\<close>,
  which is not part of this repository: a parameter. The comment of \<open>to_mesh\<close> states their
  values (\<open>ADMIN\<close> is 0x80, the others as in the gateway), which is the hypothesis
  \<open>wire_bits_documented\<close>.
\<close>

record wire_bits =
  mp_RELAY :: u8
  mp_EMERGENCY :: u8
  mp_ENROLL :: u8
  mp_ADMIN :: u8

definition wire_bits_documented :: "wire_bits \<Rightarrow> bool" where
  "wire_bits_documented mp \<longleftrightarrow>
     mp = \<lparr>mp_RELAY = 0x01, mp_EMERGENCY = 0x02, mp_ENROLL = 0x04, mp_ADMIN = 0x80\<rparr>"

definition to_mesh :: "wire_bits \<Rightarrow> u32 \<Rightarrow> u8" where
  "to_mesh mp perms =
     (let out0 = 0;
          out1 = (if perms AND RELAY \<noteq> 0 then out0 OR mp_RELAY mp else out0);
          out2 = (if perms AND EMERGENCY \<noteq> 0 then out1 OR mp_EMERGENCY mp else out1);
          out3 = (if perms AND ENROLL \<noteq> 0 then out2 OR mp_ENROLL mp else out2);
          out4 = (if perms AND ADMIN \<noteq> 0 then out3 OR mp_ADMIN mp else out3)
      in out4)"

section \<open>Change events and peers\<close>

text \<open>
  JSON documents (\<open>serde_json::Value\<close>). Numbers are opaque to the code, which only prints them
  or asks for their \<open>u64\<close> value; \<open>'n\<close> is their type.
\<close>

datatype 'n json =
    JNull
  | JBool bool
  | JNumber 'n
  | JString string
  | JArray "'n json list"
  | JObject "(string \<times> 'n json) list"

fun as_str :: "'n json \<Rightarrow> string option" where
  "as_str (JString s) = Some s"
| "as_str _ = None"

text \<open>\<open>Value::get\<close> with a string key: only an object has one.\<close>

fun json_get :: "'n json \<Rightarrow> string \<Rightarrow> 'n json option" where
  "json_get (JObject m) k = map_of m k"
| "json_get _ k = None"

record 'n cdc_event =
  ev_org_id :: string
  ev_app_id :: string
  ev_document_id :: string
  ev_change_hash :: string
  ev_actor_id :: string
  ev_timestamp_ms :: u64
  ev_patches :: "'n json"

datatype peer_status = Connected | Disconnected | Pending

record peer_info =
  peer_peer_id :: string
  peer_app_id :: string
  peer_status :: peer_status
  peer_last_seen :: u64

section \<open>Properties of the data\<close>

lemma idp_response_no_secret:
  "idp_response (idp\<lparr>idp_client_secret := x\<rparr>) = idp_response idp"
  by (simp add: idp_response_def)

lemma and_bit_nonzero_iff:
  "(x :: u32) AND 0x01 \<noteq> 0 \<longleftrightarrow> bit x 0" "x AND 0x02 \<noteq> 0 \<longleftrightarrow> bit x 1"
  "x AND 0x04 \<noteq> 0 \<longleftrightarrow> bit x 2" "x AND 0x08 \<noteq> 0 \<longleftrightarrow> bit x 3"
  using and_exp_eq_0_iff_not_bit [of x 0] and_exp_eq_0_iff_not_bit [of x 1]
    and_exp_eq_0_iff_not_bit [of x 2] and_exp_eq_0_iff_not_bit [of x 3]
  by simp_all

text \<open>
  The bits of a narrowed permission word, one by one: nothing but the four known permissions
  crosses to the wire, and each exactly when the gateway granted it.
\<close>

lemma bit_to_mesh:
  assumes "wire_bits_documented mp"
  shows "bit (to_mesh mp p) n \<longleftrightarrow>
    (n = 0 \<and> bit p 0) \<or> (n = 1 \<and> bit p 1) \<or> (n = 2 \<and> bit p 2) \<or> (n = 7 \<and> bit p 3)"
proof -
  let ?b = "\<lambda>c k. (if c then 2 ^ k else 0) :: u8"
  have "to_mesh mp p = ?b (bit p 0) 0 OR ?b (bit p 1) 1 OR ?b (bit p 2) 2 OR ?b (bit p 3) 7"
    using assms
    by (simp add: wire_bits_documented_def to_mesh_def Let_def RELAY_def EMERGENCY_def ENROLL_def
        ADMIN_def and_bit_nonzero_iff or.assoc)
  moreover have "bit (?b c k) n \<longleftrightarrow> c \<and> n = k" if "k < 8" for c k
    using that by (auto simp: bit_exp_iff)
  ultimately show ?thesis
    by (simp only: bit_or_iff) auto
qed

end
