(* ===== verification/Storage.thy ===== *)
theory Storage
  imports Models
begin

text \<open>
  The storage interface (\<open>src/storage/mod.rs\<close>). The trait \<open>StorageBackend\<close> is a record of
  its methods over an arbitrary state, so that a \<open>dyn StorageBackend\<close> is a value of it. What its
  clients rely on is the locale \<open>storage_contract\<close>: every method implements an operation on the
  abstract store (one finite map for each kind of record, keyed by organization and identifier), and
  a method that fails changes nothing.
\<close>

section \<open>The trait\<close>

record 's backend =
  be_create_org :: "organization \<Rightarrow> ('s, err, unit) op"
  be_get_org :: "string \<Rightarrow> 's \<Rightarrow> err + organization option"
  be_list_orgs :: "'s \<Rightarrow> err + organization list"
  be_update_org :: "organization \<Rightarrow> ('s, err, unit) op"
  be_delete_org :: "string \<Rightarrow> ('s, err, bool) op"
  be_create_formation :: "string \<Rightarrow> formation_config \<Rightarrow> ('s, err, unit) op"
  be_get_formation :: "string \<Rightarrow> string \<Rightarrow> 's \<Rightarrow> err + formation_config option"
  be_list_formations :: "string \<Rightarrow> 's \<Rightarrow> err + formation_config list"
  be_delete_formation :: "string \<Rightarrow> string \<Rightarrow> ('s, err, bool) op"
  be_create_token :: "enrollment_token \<Rightarrow> ('s, err, unit) op"
  be_get_token :: "string \<Rightarrow> string \<Rightarrow> 's \<Rightarrow> err + enrollment_token option"
  be_list_tokens :: "string \<Rightarrow> string \<Rightarrow> 's \<Rightarrow> err + enrollment_token list"
  be_update_token :: "enrollment_token \<Rightarrow> ('s, err, unit) op"
  be_delete_token :: "string \<Rightarrow> string \<Rightarrow> ('s, err, bool) op"
  be_create_sink :: "cdc_sink_config \<Rightarrow> ('s, err, unit) op"
  be_get_sink :: "string \<Rightarrow> string \<Rightarrow> 's \<Rightarrow> err + cdc_sink_config option"
  be_list_sinks :: "string \<Rightarrow> 's \<Rightarrow> err + cdc_sink_config list"
  be_update_sink :: "cdc_sink_config \<Rightarrow> ('s, err, unit) op"
  be_delete_sink :: "string \<Rightarrow> string \<Rightarrow> ('s, err, bool) op"
  be_create_idp :: "idp_config \<Rightarrow> ('s, err, unit) op"
  be_get_idp :: "string \<Rightarrow> string \<Rightarrow> 's \<Rightarrow> err + idp_config option"
  be_list_idps :: "string \<Rightarrow> 's \<Rightarrow> err + idp_config list"
  be_update_idp :: "idp_config \<Rightarrow> ('s, err, unit) op"
  be_delete_idp :: "string \<Rightarrow> string \<Rightarrow> ('s, err, bool) op"
  be_create_policy_rule :: "policy_rule \<Rightarrow> ('s, err, unit) op"
  be_list_policy_rules :: "string \<Rightarrow> 's \<Rightarrow> err + policy_rule list"
  be_delete_policy_rule :: "string \<Rightarrow> string \<Rightarrow> ('s, err, bool) op"
  be_append_audit :: "audit_entry \<Rightarrow> ('s, err, unit) op"
  be_list_audit :: "string \<Rightarrow> string option \<Rightarrow> nat \<Rightarrow> 's \<Rightarrow> err + audit_entry list"
  be_store_genesis :: "string \<Rightarrow> string \<Rightarrow> bytes \<Rightarrow> ('s, err, unit) op"
  be_get_genesis :: "string \<Rightarrow> string \<Rightarrow> 's \<Rightarrow> err + bytes option"
  be_delete_genesis :: "string \<Rightarrow> string \<Rightarrow> ('s, err, bool) op"
  be_get_cursor :: "string \<Rightarrow> string \<Rightarrow> string \<Rightarrow> 's \<Rightarrow> err + string option"
  be_set_cursor :: "string \<Rightarrow> string \<Rightarrow> string \<Rightarrow> string \<Rightarrow> ('s, err, unit) op"

section \<open>The abstract store\<close>

record abs_store =
  a_orgs :: "string \<rightharpoonup> organization"
  a_formations :: "string \<times> string \<rightharpoonup> formation_config"
  a_tokens :: "string \<times> string \<rightharpoonup> enrollment_token"
  a_sinks :: "string \<times> string \<rightharpoonup> cdc_sink_config"
  a_idps :: "string \<times> string \<rightharpoonup> idp_config"
  a_rules :: "string \<times> string \<rightharpoonup> policy_rule"
  a_audit :: "string \<times> u64 \<times> string \<rightharpoonup> audit_entry"
  a_genesis :: "string \<times> string \<rightharpoonup> bytes"
  a_cursors :: "string \<times> string \<times> string \<rightharpoonup> string"

text \<open>Every row is stored under the identifiers it carries, and those hold no null byte.\<close>

definition abs_wf :: "abs_store \<Rightarrow> bool" where
  "abs_wf a \<longleftrightarrow>
     (\<forall>k x. a_orgs a k = Some x \<longrightarrow> org_org_id x = k \<and> nul_free k) \<and>
     (\<forall>k c x. a_formations a (k, c) = Some x \<longrightarrow> form_app_id x = c \<and> nul_free k \<and> nul_free c) \<and>
     (\<forall>k c x. a_tokens a (k, c) = Some x \<longrightarrow>
        tok_org_id x = k \<and> tok_token_id x = c \<and> nul_free k \<and> nul_free c) \<and>
     (\<forall>k c x. a_sinks a (k, c) = Some x \<longrightarrow>
        sink_org_id x = k \<and> sink_sink_id x = c \<and> nul_free k \<and> nul_free c) \<and>
     (\<forall>k c x. a_idps a (k, c) = Some x \<longrightarrow>
        idp_org_id x = k \<and> idp_idp_id x = c \<and> nul_free k \<and> nul_free c) \<and>
     (\<forall>k c x. a_rules a (k, c) = Some x \<longrightarrow>
        rule_org_id x = k \<and> rule_rule_id x = c \<and> nul_free k \<and> nul_free c) \<and>
     (\<forall>k t i x. a_audit a (k, t, i) = Some x \<longrightarrow>
        aud_org_id x = k \<and> aud_timestamp_ms x = t \<and> aud_audit_id x = i \<and> nul_free k)"

text \<open>The rows of one organization in a map keyed by (organization, identifier).\<close>

definition rows_of :: "(string \<times> string \<rightharpoonup> 'v) \<Rightarrow> string \<Rightarrow> 'v set" where
  "rows_of m k = {x. \<exists>c. m (k, c) = Some x}"

definition lists_rows :: "(string \<times> string \<rightharpoonup> 'v) \<Rightarrow> string \<Rightarrow> 'v list \<Rightarrow> bool" where
  "lists_rows m k xs \<longleftrightarrow> distinct xs \<and> set xs = rows_of m k"

text \<open>Dropping some or all of the rows of one organization and no others.\<close>

definition drops_rows :: "string \<Rightarrow> (string \<times> 'k \<rightharpoonup> 'v) \<Rightarrow> (string \<times> 'k \<rightharpoonup> 'v) \<Rightarrow> bool" where
  "drops_rows k m m' \<longleftrightarrow>
     (\<forall>j c. j \<noteq> k \<longrightarrow> m' (j, c) = m (j, c)) \<and> (\<forall>c. m' (k, c) = None \<or> m' (k, c) = m (k, c))"

definition org_removed :: "string \<Rightarrow> abs_store \<Rightarrow> abs_store \<Rightarrow> bool" where
  "org_removed k a a' \<longleftrightarrow>
     a_orgs a' = (a_orgs a)(k := None) \<and>
     drops_rows k (a_formations a) (a_formations a') \<and>
     drops_rows k (a_tokens a) (a_tokens a') \<and>
     drops_rows k (a_sinks a) (a_sinks a') \<and>
     drops_rows k (a_idps a) (a_idps a') \<and>
     drops_rows k (a_rules a) (a_rules a') \<and>
     drops_rows k (a_audit a) (a_audit a') \<and>
     drops_rows k (a_genesis a) (a_genesis a') \<and>
     drops_rows k (a_cursors a) (a_cursors a')"

text \<open>The audit entries a listing is about, and what a listing of at most \<open>lim\<close> of them is.\<close>

definition audit_matches :: "abs_store \<Rightarrow> string \<Rightarrow> string option \<Rightarrow> audit_entry set" where
  "audit_matches a k app =
     {e. (\<exists>t i. a_audit a (k, t, i) = Some e) \<and> (app = None \<or> app = Some (aud_app_id e))}"

definition newest_first :: "audit_entry list \<Rightarrow> bool" where
  "newest_first es = sorted_wrt (\<lambda>x y. aud_timestamp_ms y \<le> aud_timestamp_ms x) es"

text \<open>A page of a listing: all entries when it is not full.\<close>

definition audit_page ::
  "abs_store \<Rightarrow> string \<Rightarrow> string option \<Rightarrow> nat \<Rightarrow> audit_entry list \<Rightarrow> bool" where
  "audit_page a k app lim es \<longleftrightarrow>
     distinct es \<and> set es \<subseteq> audit_matches a k app \<and> length es \<le> lim \<and>
     (length es < lim \<longrightarrow> set es = audit_matches a k app)"

text \<open>A page in order: the newest entries, newest first.\<close>

definition audit_listing ::
  "abs_store \<Rightarrow> string \<Rightarrow> string option \<Rightarrow> nat \<Rightarrow> audit_entry list \<Rightarrow> bool" where
  "audit_listing a k app lim es \<longleftrightarrow>
     distinct es \<and> set es \<subseteq> audit_matches a k app \<and> newest_first es \<and>
     length es \<le> lim \<and>
     (length es < lim \<longrightarrow> set es = audit_matches a k app) \<and>
     (\<forall>e \<in> audit_matches a k app - set es.
        \<forall>x \<in> set es. aud_timestamp_ms e \<le> aud_timestamp_ms x)"

section \<open>The codec\<close>

text \<open>
  Both backends keep records as serde's JSON, and key material and cursors as bytes and text. The codec
  is a parameter: a record of its functions into an arbitrary type \<open>'w\<close> of values at rest, with its
  round trips as the locale \<open>serde_codec\<close>.
\<close>

record 'w serde =
  ser_org :: "organization \<Rightarrow> err + 'w"
  de_org :: "'w \<Rightarrow> err + organization"
  ser_formation :: "formation_config \<Rightarrow> err + 'w"
  de_formation :: "'w \<Rightarrow> err + formation_config"
  ser_token :: "enrollment_token \<Rightarrow> err + 'w"
  de_token :: "'w \<Rightarrow> err + enrollment_token"
  ser_sink :: "cdc_sink_config \<Rightarrow> err + 'w"
  de_sink :: "'w \<Rightarrow> err + cdc_sink_config"
  ser_idp :: "idp_config \<Rightarrow> err + 'w"
  de_idp :: "'w \<Rightarrow> err + idp_config"
  ser_rule :: "policy_rule \<Rightarrow> err + 'w"
  de_rule :: "'w \<Rightarrow> err + policy_rule"
  ser_audit :: "audit_entry \<Rightarrow> err + 'w"
  de_audit :: "'w \<Rightarrow> err + audit_entry"
  val_bytes :: "bytes \<Rightarrow> 'w"
  bytes_val :: "'w \<Rightarrow> bytes"
  val_str :: "string \<Rightarrow> 'w"
  str_val :: "'w \<Rightarrow> string"

locale serde_codec =
  fixes S :: "'w serde"
  assumes org: "ser_org S x1 = Inr w \<Longrightarrow> de_org S w = Inr x1"
    and formation: "ser_formation S x2 = Inr w \<Longrightarrow> de_formation S w = Inr x2"
    and token: "ser_token S x3 = Inr w \<Longrightarrow> de_token S w = Inr x3"
    and sink: "ser_sink S x4 = Inr w \<Longrightarrow> de_sink S w = Inr x4"
    and idp: "ser_idp S x5 = Inr w \<Longrightarrow> de_idp S w = Inr x5"
    and rule: "ser_rule S x6 = Inr w \<Longrightarrow> de_rule S w = Inr x6"
    and audit: "ser_audit S x7 = Inr w \<Longrightarrow> de_audit S w = Inr x7"
    and raw: "bytes_val S (val_bytes S b) = b"
    and str: "str_val S (val_str S h) = h"

section \<open>The contract\<close>

text \<open>
  \<open>wr invar \<alpha> f R\<close>: the method \<open>f\<close> keeps the backend's invariant; when it fails the abstract
  store is unchanged, and when it succeeds \<open>R\<close> relates the stores before and after and the result.
  \<open>rd invar \<alpha> f Q\<close>: what the reading method \<open>f\<close> returns satisfies \<open>Q\<close>.
\<close>

definition wr ::
  "('s \<Rightarrow> bool) \<Rightarrow> ('s \<Rightarrow> 'a) \<Rightarrow> ('s, 'e, 'r) op \<Rightarrow> ('a \<Rightarrow> 'r \<Rightarrow> 'a \<Rightarrow> bool) \<Rightarrow> bool" where
  "wr invar \<alpha> f R \<longleftrightarrow>
     (\<forall>s r s'. invar s \<longrightarrow> f s = (r, s') \<longrightarrow>
        invar s' \<and> (case r of Inl e \<Rightarrow> \<alpha> s' = \<alpha> s | Inr x \<Rightarrow> R (\<alpha> s) x (\<alpha> s')))"

definition rd :: "('s \<Rightarrow> bool) \<Rightarrow> ('s \<Rightarrow> 'a) \<Rightarrow> ('s \<Rightarrow> 'e + 'r) \<Rightarrow> ('a \<Rightarrow> 'r \<Rightarrow> bool) \<Rightarrow> bool" where
  "rd invar \<alpha> f Q \<longleftrightarrow> (\<forall>s x. invar s \<longrightarrow> f s = Inr x \<longrightarrow> Q (\<alpha> s) x)"

lemma wrI:
  assumes "\<And>s x s'. invar s \<Longrightarrow> f s = (Inr x, s') \<Longrightarrow> invar s' \<and> R (\<alpha> s) x (\<alpha> s')"
    and "\<And>s e s'. invar s \<Longrightarrow> f s = (Inl e, s') \<Longrightarrow> invar s' \<and> \<alpha> s' = \<alpha> s"
  shows "wr invar \<alpha> f R"
  unfolding wr_def
proof (intro allI impI)
  fix s r s'
  assume *: "invar s" "f s = (r, s')"
  show "invar s' \<and> (case r of Inl e \<Rightarrow> \<alpha> s' = \<alpha> s | Inr x \<Rightarrow> R (\<alpha> s) x (\<alpha> s'))"
  proof (cases r)
    case (Inl e)
    with * assms(2) [of s e s'] show ?thesis by simp
  next
    case (Inr x)
    with * assms(1) [of s x s'] show ?thesis by simp
  qed
qed

lemma wr_ok: "wr invar \<alpha> f R \<Longrightarrow> invar s \<Longrightarrow> f s = (Inr x, s') \<Longrightarrow> invar s' \<and> R (\<alpha> s) x (\<alpha> s')"
  unfolding wr_def by (drule spec, drule spec, drule spec, drule mp, assumption, drule mp, assumption) simp

lemma wr_err: "wr invar \<alpha> f R \<Longrightarrow> invar s \<Longrightarrow> f s = (Inl e, s') \<Longrightarrow> invar s' \<and> \<alpha> s' = \<alpha> s"
  unfolding wr_def by (drule spec, drule spec, drule spec, drule mp, assumption, drule mp, assumption) simp

lemma rdD: "rd invar \<alpha> f Q \<Longrightarrow> invar s \<Longrightarrow> f s = Inr x \<Longrightarrow> Q (\<alpha> s) x"
  by (simp add: rd_def)

lemma wr_weaken: "wr invar \<alpha> f R \<Longrightarrow> (\<And>a x a'. R a x a' \<Longrightarrow> R' a x a') \<Longrightarrow> wr invar \<alpha> f R'"
  unfolding wr_def by (simp split: sum.splits) blast

locale storage_contract =
  fixes B :: "'s backend"
    and \<alpha> :: "'s \<Rightarrow> abs_store"
    and invar :: "'s \<Rightarrow> bool"
  assumes wf: "invar s \<Longrightarrow> abs_wf (\<alpha> s)"
    and create_org: "nul_free (org_org_id x) \<Longrightarrow>
      wr invar \<alpha> (be_create_org B x) (\<lambda>a _ a'. a' = a\<lparr>a_orgs := (a_orgs a)(org_org_id x \<mapsto> x)\<rparr>)"
    and get_org: "rd invar \<alpha> (be_get_org B k) (\<lambda>a r. r = a_orgs a k)"
    and list_orgs: "rd invar \<alpha> (be_list_orgs B)
      (\<lambda>a xs. distinct (map org_org_id xs) \<and> set xs = ran (a_orgs a))"
    and update_org: "nul_free (org_org_id x) \<Longrightarrow>
      wr invar \<alpha> (be_update_org B x)
        (\<lambda>a _ a'. a' = a\<lparr>a_orgs := (a_orgs a)(org_org_id x \<mapsto> x)\<rparr> \<or>
           (org_org_id x \<notin> dom (a_orgs a) \<and> a' = a))"
    and delete_org: "nul_free k \<Longrightarrow> wr invar \<alpha> (be_delete_org B k)
      (\<lambda>a b a'. b = (k \<in> dom (a_orgs a)) \<and> org_removed k a a')"
    and create_formation: "nul_free k \<Longrightarrow> nul_free (form_app_id f) \<Longrightarrow>
      wr invar \<alpha> (be_create_formation B k f)
        (\<lambda>a _ a'. a' = a\<lparr>a_formations := (a_formations a)((k, form_app_id f) \<mapsto> f)\<rparr>)"
    and get_formation: "rd invar \<alpha> (be_get_formation B k c) (\<lambda>a r. r = a_formations a (k, c))"
    and list_formations: "rd invar \<alpha> (be_list_formations B k) (\<lambda>a xs. lists_rows (a_formations a) k xs)"
    and delete_formation: "wr invar \<alpha> (be_delete_formation B k c)
      (\<lambda>a b a'. b = ((k, c) \<in> dom (a_formations a)) \<and>
         a' = a\<lparr>a_formations := (a_formations a)((k, c) := None)\<rparr>)"
    and create_token: "nul_free (tok_org_id t) \<Longrightarrow> nul_free (tok_token_id t) \<Longrightarrow>
      wr invar \<alpha> (be_create_token B t)
        (\<lambda>a _ a'. a' = a\<lparr>a_tokens := (a_tokens a)((tok_org_id t, tok_token_id t) \<mapsto> t)\<rparr>)"
    and get_token: "rd invar \<alpha> (be_get_token B k c) (\<lambda>a r. r = a_tokens a (k, c))"
    and list_tokens: "rd invar \<alpha> (be_list_tokens B k c)
      (\<lambda>a xs. distinct xs \<and> set xs = {t \<in> rows_of (a_tokens a) k. tok_app_id t = c})"
    and update_token: "nul_free (tok_org_id t) \<Longrightarrow> nul_free (tok_token_id t) \<Longrightarrow>
      wr invar \<alpha> (be_update_token B t)
        (\<lambda>a _ a'. a' = a\<lparr>a_tokens := (a_tokens a)((tok_org_id t, tok_token_id t) \<mapsto> t)\<rparr> \<or>
           ((tok_org_id t, tok_token_id t) \<notin> dom (a_tokens a) \<and> a' = a))"
    and delete_token: "wr invar \<alpha> (be_delete_token B k c)
      (\<lambda>a b a'. b = ((k, c) \<in> dom (a_tokens a)) \<and>
         a' = a\<lparr>a_tokens := (a_tokens a)((k, c) := None)\<rparr>)"
    and create_sink: "nul_free (sink_org_id n) \<Longrightarrow> nul_free (sink_sink_id n) \<Longrightarrow>
      wr invar \<alpha> (be_create_sink B n)
        (\<lambda>a _ a'. a' = a\<lparr>a_sinks := (a_sinks a)((sink_org_id n, sink_sink_id n) \<mapsto> n)\<rparr>)"
    and get_sink: "rd invar \<alpha> (be_get_sink B k c) (\<lambda>a r. r = a_sinks a (k, c))"
    and list_sinks: "rd invar \<alpha> (be_list_sinks B k) (\<lambda>a xs. lists_rows (a_sinks a) k xs)"
    and update_sink: "nul_free (sink_org_id n) \<Longrightarrow> nul_free (sink_sink_id n) \<Longrightarrow>
      wr invar \<alpha> (be_update_sink B n)
        (\<lambda>a _ a'. a' = a\<lparr>a_sinks := (a_sinks a)((sink_org_id n, sink_sink_id n) \<mapsto> n)\<rparr> \<or>
           ((sink_org_id n, sink_sink_id n) \<notin> dom (a_sinks a) \<and> a' = a))"
    and delete_sink: "wr invar \<alpha> (be_delete_sink B k c)
      (\<lambda>a b a'. b = ((k, c) \<in> dom (a_sinks a)) \<and>
         a' = a\<lparr>a_sinks := (a_sinks a)((k, c) := None)\<rparr>)"
    and create_idp: "nul_free (idp_org_id i) \<Longrightarrow> nul_free (idp_idp_id i) \<Longrightarrow>
      wr invar \<alpha> (be_create_idp B i)
        (\<lambda>a _ a'. a' = a\<lparr>a_idps := (a_idps a)((idp_org_id i, idp_idp_id i) \<mapsto> i)\<rparr>)"
    and get_idp: "rd invar \<alpha> (be_get_idp B k c) (\<lambda>a r. r = a_idps a (k, c))"
    and list_idps: "rd invar \<alpha> (be_list_idps B k) (\<lambda>a xs. lists_rows (a_idps a) k xs)"
    and update_idp: "nul_free (idp_org_id i) \<Longrightarrow> nul_free (idp_idp_id i) \<Longrightarrow>
      wr invar \<alpha> (be_update_idp B i)
        (\<lambda>a _ a'. a' = a\<lparr>a_idps := (a_idps a)((idp_org_id i, idp_idp_id i) \<mapsto> i)\<rparr> \<or>
           ((idp_org_id i, idp_idp_id i) \<notin> dom (a_idps a) \<and> a' = a))"
    and delete_idp: "wr invar \<alpha> (be_delete_idp B k c)
      (\<lambda>a b a'. b = ((k, c) \<in> dom (a_idps a)) \<and>
         a' = a\<lparr>a_idps := (a_idps a)((k, c) := None)\<rparr>)"
    and create_policy_rule: "nul_free (rule_org_id r) \<Longrightarrow> nul_free (rule_rule_id r) \<Longrightarrow>
      wr invar \<alpha> (be_create_policy_rule B r)
        (\<lambda>a _ a'. a' = a\<lparr>a_rules := (a_rules a)((rule_org_id r, rule_rule_id r) \<mapsto> r)\<rparr>)"
    and list_policy_rules: "rd invar \<alpha> (be_list_policy_rules B k) (\<lambda>a xs. lists_rows (a_rules a) k xs)"
    and delete_policy_rule: "wr invar \<alpha> (be_delete_policy_rule B k c)
      (\<lambda>a b a'. b = ((k, c) \<in> dom (a_rules a)) \<and>
         a' = a\<lparr>a_rules := (a_rules a)((k, c) := None)\<rparr>)"
    and append_audit: "nul_free (aud_org_id e) \<Longrightarrow>
      wr invar \<alpha> (be_append_audit B e)
        (\<lambda>a _ a'. a' = a\<lparr>a_audit :=
           (a_audit a)((aud_org_id e, aud_timestamp_ms e, aud_audit_id e) \<mapsto> e)\<rparr>)"
    and list_audit: "nul_free k \<Longrightarrow> 0 < lim \<Longrightarrow> lim < 2 ^ 64 \<Longrightarrow>
      rd invar \<alpha> (be_list_audit B k app lim) (\<lambda>a es. audit_page a k app lim es)"
    and store_genesis: "nul_free k \<Longrightarrow> nul_free c \<Longrightarrow>
      wr invar \<alpha> (be_store_genesis B k c g)
        (\<lambda>a _ a'. a' = a\<lparr>a_genesis := (a_genesis a)((k, c) \<mapsto> g)\<rparr>)"
    and get_genesis: "rd invar \<alpha> (be_get_genesis B k c) (\<lambda>a r. r = a_genesis a (k, c))"
    and delete_genesis: "wr invar \<alpha> (be_delete_genesis B k c)
      (\<lambda>a b a'. b = ((k, c) \<in> dom (a_genesis a)) \<and>
         a' = a\<lparr>a_genesis := (a_genesis a)((k, c) := None)\<rparr>)"
    and get_cursor: "nul_free k \<Longrightarrow> nul_free c \<Longrightarrow>
      rd invar \<alpha> (be_get_cursor B k c d) (\<lambda>a r. r = a_cursors a (k, c, d))"
    and set_cursor: "nul_free k \<Longrightarrow> nul_free c \<Longrightarrow>
      wr invar \<alpha> (be_set_cursor B k c d h)
        (\<lambda>a _ a'. a' = a\<lparr>a_cursors := (a_cursors a)((k, c, d) \<mapsto> h)\<rparr>)"

text \<open>A backend that also lists the audit log in order of time.\<close>

locale ordered_storage_contract = storage_contract B \<alpha> invar
  for B :: "'s backend" and \<alpha> :: "'s \<Rightarrow> abs_store" and invar :: "'s \<Rightarrow> bool" +
  assumes list_audit_newest: "nul_free k \<Longrightarrow> 0 < lim \<Longrightarrow>
      rd invar \<alpha> (be_list_audit B k app lim) (\<lambda>a es. audit_listing a k app lim es)"

lemma audit_listing_page: "audit_listing a k app lim es \<Longrightarrow> audit_page a k app lim es"
  by (simp add: audit_listing_def audit_page_def)

end
