(* ===== verification/Rust_Text.thy ===== *)
theory Rust_Text
  imports Models
begin

text \<open>
  The methods of Rust's \<open>str\<close> the gateway calls beyond prefixes: trimming, splitting, ASCII classes
  and numbers. Texts are UTF-8 bytes, so a white-space character is one of a fixed list of byte
  sequences (the code points with Unicode's \<open>White_Space\<close> property).
\<close>

section \<open>Trimming\<close>

definition ws_seqs :: "string list" where
  "ws_seqs =
     [[CHR 0x09], [CHR 0x0A], [CHR 0x0B], [CHR 0x0C], [CHR 0x0D], [CHR 0x20],
      [CHR 0xC2, CHR 0x85], [CHR 0xC2, CHR 0xA0], [CHR 0xE1, CHR 0x9A, CHR 0x80],
      [CHR 0xE2, CHR 0x80, CHR 0x80], [CHR 0xE2, CHR 0x80, CHR 0x81],
      [CHR 0xE2, CHR 0x80, CHR 0x82], [CHR 0xE2, CHR 0x80, CHR 0x83],
      [CHR 0xE2, CHR 0x80, CHR 0x84], [CHR 0xE2, CHR 0x80, CHR 0x85],
      [CHR 0xE2, CHR 0x80, CHR 0x86], [CHR 0xE2, CHR 0x80, CHR 0x87],
      [CHR 0xE2, CHR 0x80, CHR 0x88], [CHR 0xE2, CHR 0x80, CHR 0x89],
      [CHR 0xE2, CHR 0x80, CHR 0x8A], [CHR 0xE2, CHR 0x80, CHR 0xA8],
      [CHR 0xE2, CHR 0x80, CHR 0xA9], [CHR 0xE2, CHR 0x80, CHR 0xAF],
      [CHR 0xE2, CHR 0x81, CHR 0x9F], [CHR 0xE3, CHR 0x80, CHR 0x80]]"

text \<open>Removing leading sequences from a list as long as there is one.\<close>

function strip_seqs :: "'a list list \<Rightarrow> 'a list \<Rightarrow> 'a list" where
  "strip_seqs ws s =
     (case find (\<lambda>w. w \<noteq> [] \<and> starts_with s w) ws of
        None \<Rightarrow> s
      | Some w \<Rightarrow> strip_seqs ws (drop (length w) s))"
  by pat_completeness auto
termination
  by (relation "measure (\<lambda>(ws, s). length s)")
    (auto simp: find_Some_iff starts_with_iff)

declare strip_seqs.simps [simp del]

definition trim_start :: "string \<Rightarrow> string" where
  "trim_start s = strip_seqs ws_seqs s"

definition trim_end :: "string \<Rightarrow> string" where
  "trim_end s = rev (strip_seqs (map rev ws_seqs) (rev s))"

definition trim :: "string \<Rightarrow> string" where
  "trim s = trim_end (trim_start s)"

text \<open>\<open>trim_end_matches\<close> with one character.\<close>

definition trim_end_matches :: "string \<Rightarrow> char \<Rightarrow> string" where
  "trim_end_matches s c = rev (dropWhile (\<lambda>d. d = c) (rev s))"

text \<open>A text that neither begins nor ends with a white-space character.\<close>

definition trimmed :: "string \<Rightarrow> bool" where
  "trimmed s \<longleftrightarrow> (\<forall>w \<in> set ws_seqs. \<not> starts_with s w \<and> \<not> starts_with (rev s) (rev w))"

lemma strip_seqs_id: "(\<forall>w \<in> set ws. w = [] \<or> \<not> starts_with s w) \<Longrightarrow> strip_seqs ws s = s"
  by (subst strip_seqs.simps) (auto split: option.splits simp: find_Some_iff)

lemma strip_seqs_done: "w \<in> set ws \<Longrightarrow> w \<noteq> [] \<Longrightarrow> \<not> starts_with (strip_seqs ws s) w"
proof (induction ws s rule: strip_seqs.induct)
  case (1 ws s)
  show ?case
  proof (cases "find (\<lambda>w. w \<noteq> [] \<and> starts_with s w) ws")
    case None
    then have "strip_seqs ws s = s" by (subst strip_seqs.simps) simp
    with None 1(2,3) show ?thesis by (auto simp: find_None_iff)
  next
    case (Some v)
    with 1 show ?thesis by (subst strip_seqs.simps) simp
  qed
qed

lemma trim_id: "trimmed s \<Longrightarrow> trim s = s"
  by (simp add: trimmed_def trim_def trim_start_def trim_end_def strip_seqs_id)

lemma trim_Nil [simp]: "trim [] = []"
  by (rule trim_id) (simp add: trimmed_def ws_seqs_def starts_with_def)

lemma trim_end_matches_last: "trim_end_matches s c \<noteq> [] \<Longrightarrow> last (trim_end_matches s c) \<noteq> c"
  unfolding trim_end_matches_def using hd_dropWhile [of "\<lambda>d. d = c" "rev s"]
  by (simp add: last_rev)

lemma trim_end_matches_id: "s = [] \<or> last s \<noteq> c \<Longrightarrow> trim_end_matches s c = s"
  unfolding trim_end_matches_def
  by (cases s rule: rev_cases) auto

section \<open>Splitting\<close>

fun split_on :: "'a \<Rightarrow> 'a list \<Rightarrow> 'a list list" where
  "split_on c [] = [[]]"
| "split_on c (x # xs) =
     (if x = c then [] # split_on c xs
      else (case split_on c xs of [] \<Rightarrow> [[x]] | w # ws \<Rightarrow> (x # w) # ws))"

text \<open>The text whose parts are separated by a character.\<close>

fun join_with :: "'a \<Rightarrow> 'a list list \<Rightarrow> 'a list" where
  "join_with c [] = []"
| "join_with c [w] = w"
| "join_with c (w # ws) = w @ c # join_with c ws"

lemma split_on_nonempty [simp]: "split_on c s \<noteq> []"
  by (cases s) (auto split: list.splits)

lemma split_on_free: "c \<notin> set w \<Longrightarrow> split_on c w = [w]"
  by (induction w) auto

lemma split_on_append: "c \<notin> set w \<Longrightarrow> split_on c (w @ c # s) = w # split_on c s"
  by (induction w) auto

lemma split_join:
  "ws \<noteq> [] \<Longrightarrow> (\<forall>w \<in> set ws. c \<notin> set w) \<Longrightarrow> split_on c (join_with c ws) = ws"
  by (induction c ws rule: join_with.induct) (auto simp: split_on_free split_on_append)

lemma join_split: "join_with c (split_on c s) = s"
proof (induction s)
  case (Cons x s)
  then show ?case
    by (cases "split_on c s"; cases "tl (split_on c s)") (auto split: list.splits)
qed simp

lemma set_join_with: "set (join_with c ws) \<subseteq> insert c (\<Union> (set ` set ws))"
  by (induction c ws rule: join_with.induct) auto

text \<open>Joining trimmed parts with a separator that is no part of a white-space character.\<close>

definition ws_free :: "char \<Rightarrow> bool" where
  "ws_free c \<longleftrightarrow> (\<forall>w \<in> set ws_seqs. c \<notin> set w)"

lemma starts_with_sep:
  assumes "c \<notin> set w" and "\<not> starts_with f w"
  shows "\<not> starts_with (f @ c # r) w"
proof
  assume *: "starts_with (f @ c # r) w"
  show False
  proof (cases "length w \<le> length f")
    case True
    with * assms(2) show False by (simp add: starts_with_def)
  next
    case False
    then obtain n where "length w - length f = Suc n" by (cases "length w - length f") auto
    with * False have "w = f @ c # take n r" by (simp add: starts_with_def)
    with assms(1) show False by simp
  qed
qed

lemma trimmed_sep:
  assumes "trimmed f" and "trimmed g" and "ws_free c"
  shows "trimmed (f @ c # g)"
  using assms starts_with_sep [of c _ f g] starts_with_sep [of c "rev _" "rev g" "rev f"]
  by (auto simp: trimmed_def ws_free_def)

lemma trimmed_Nil [simp]: "trimmed []"
  by (simp add: trimmed_def ws_seqs_def starts_with_def)

lemma trimmed_join: "(\<forall>w \<in> set ws. trimmed w) \<Longrightarrow> ws_free c \<Longrightarrow> trimmed (join_with c ws)"
  by (induction c ws rule: join_with.induct) (auto simp: trimmed_sep)

section \<open>ASCII classes\<close>

definition is_ascii_digit :: "char \<Rightarrow> bool" where
  "is_ascii_digit b \<longleftrightarrow> CHR ''0'' \<le> b \<and> b \<le> CHR ''9''"

definition is_ascii_alphabetic :: "char \<Rightarrow> bool" where
  "is_ascii_alphabetic b \<longleftrightarrow>
     (CHR ''a'' \<le> b \<and> b \<le> CHR ''z'') \<or> (CHR ''A'' \<le> b \<and> b \<le> CHR ''Z'')"

definition is_ascii_alphanumeric :: "char \<Rightarrow> bool" where
  "is_ascii_alphanumeric b \<longleftrightarrow> is_ascii_alphabetic b \<or> is_ascii_digit b"

lemma alphanumeric_not_nul: "is_ascii_alphanumeric b \<Longrightarrow> b \<noteq> nul"
  by (auto simp: is_ascii_alphanumeric_def is_ascii_alphabetic_def is_ascii_digit_def nul_def
      less_eq_char_def of_char_of)

section \<open>Numbers\<close>

text \<open>\<open>str::parse\<close> at an unsigned type of \<open>w\<close> bits: an optional plus sign, digits, no overflow.\<close>

fun digits_value :: "nat \<Rightarrow> string \<Rightarrow> nat option" where
  "digits_value acc [] = Some acc"
| "digits_value acc (c # cs) =
     (if is_ascii_digit c then digits_value (10 * acc + (of_char c - 48)) cs else None)"

definition parse_unsigned :: "nat \<Rightarrow> string \<Rightarrow> nat option" where
  "parse_unsigned w s =
     (let ds = (case s of c # cs \<Rightarrow> if c = CHR ''+'' then cs else s | [] \<Rightarrow> []) in
      if ds = [] then None
      else Option.bind (digits_value 0 ds) (\<lambda>n. if n < 2 ^ w then Some n else None))"

text \<open>Lower-case hexadecimal (\<open>hex::encode\<close>'s format, \<open>{:02x}\<close> for each byte).\<close>

end
