(* ===== verification/Crypto.thy ===== *)
theory Crypto
  imports Config
begin

text \<open>
  Envelope encryption of key material (\<open>src/crypto\<close>): the envelope format of \<open>seal\<close> and
  \<open>open\<close>, the four key providers, and their selection from the configuration. The trait
  \<open>KeyProvider\<close> is a record of its two methods; its documented contract is the locale
  \<open>key_provider_contract\<close>, interpreted for every provider.

  Crates and services are parameters: AES-256-GCM (record \<open>aead\<close>, laws \<open>aead_laws\<close>), the KMS
  client, the Vault server together with the base64 crate, and the hex crate. What a call meets
  outside the program (the random bytes it draws, the answer of a service) is its argument
  \<open>call_env\<close>.
\<close>

section \<open>The crates\<close>

record 'k aead =
  ae_new_from_slice :: "bytes \<Rightarrow> err + 'k"
  ae_encrypt :: "'k \<Rightarrow> bytes \<Rightarrow> bytes \<Rightarrow> err + bytes"
  ae_decrypt :: "'k \<Rightarrow> bytes \<Rightarrow> bytes \<Rightarrow> err + bytes"

text \<open>AES-256-GCM: keys of 32 bytes, a 16-byte tag, and decryption undoes encryption.\<close>

locale aead_laws =
  fixes A :: "'k aead"
  assumes key_length: "length key = 32 \<Longrightarrow> is_ok (ae_new_from_slice A key)"
    and tag_length: "ae_encrypt A k n p = Inr c \<Longrightarrow> length c = length p + 16"
    and decrypts: "ae_encrypt A k n p = Inr c \<Longrightarrow> ae_decrypt A k n c = Inr p"

record 'n call_env =
  ce_nonce :: bytes     \<comment> \<open>the 12 random bytes the call draws, if it draws them\<close>
  ce_net :: 'n          \<comment> \<open>what the services the call reaches do\<close>

record 'n key_provider =
  kp_wrap_dek :: "'n call_env \<Rightarrow> bytes \<Rightarrow> err + bytes"
  kp_unwrap_dek :: "'n call_env \<Rightarrow> bytes \<Rightarrow> err + bytes"

section \<open>Slices\<close>

text \<open>\<open>&data[i..j]\<close>, which panics out of range, and indexing.\<close>

definition slice :: "'a list \<Rightarrow> nat \<Rightarrow> nat \<Rightarrow> err + 'a list" where
  "slice xs i j =
     (if i \<le> j \<and> j \<le> length xs then Inr (take (j - i) (drop i xs)) else Inl (Panic ''slice''))"

definition index :: "'a list \<Rightarrow> nat \<Rightarrow> err + 'a" where
  "index xs i = (if i < length xs then Inr (xs ! i) else Inl (Panic ''index''))"

text \<open>\<open>u16::to_le_bytes\<close> and \<open>u16::from_le_bytes\<close>.\<close>

definition to_le_bytes :: "u16 \<Rightarrow> bytes" where
  "to_le_bytes x = [ucast x, ucast (drop_bit 8 x)]"

definition from_le_bytes :: "u8 \<Rightarrow> u8 \<Rightarrow> u16" where
  "from_le_bytes lo hi = ucast lo OR push_bit 8 (ucast hi)"

lemma le_bytes_roundtrip: "from_le_bytes (ucast x) (ucast (drop_bit 8 x)) = x"
proof (rule bit_word_eqI)
  fix n
  assume "n < LENGTH(16)"
  then show "bit (from_le_bytes (ucast x) (ucast (drop_bit 8 x))) n = bit x n"
    by (auto simp: from_le_bytes_def bit_simps)
qed

section \<open>The envelope\<close>

definition MAGIC :: bytes where
  "MAGIC = [0x50, 0x45, 0x4E, 0x56]"

definition VERSION :: u8 where
  "VERSION = 0x01"

definition FIXED_HEADER :: nat where
  "FIXED_HEADER = 4 + 1 + 2"

text \<open>The random draws of \<open>seal\<close>: the data key, the nonce, and what wrapping draws.\<close>

record 'n seal_env =
  se_dek :: bytes
  se_nonce :: bytes
  se_wrap :: "'n call_env"

definition seal_env_ok :: "'n seal_env \<Rightarrow> bool" where
  "seal_env_ok r \<longleftrightarrow>
     length (se_dek r) = 32 \<and> length (se_nonce r) = 12 \<and> length (ce_nonce (se_wrap r)) = 12"

definition seal ::
  "'k aead \<Rightarrow> 'n key_provider \<Rightarrow> 'n seal_env \<Rightarrow> bytes \<Rightarrow> err + bytes" where
  "seal A provider r plaintext =
     bindR (kp_wrap_dek provider (se_wrap r) (se_dek r)) (\<lambda>wrapped_dek.
     bindR (ensure (length wrapped_dek < 2 ^ 16) (WrappedDekTooLong (length wrapped_dek))) (\<lambda>_.
     bindR (ae_new_from_slice A (se_dek r)) (\<lambda>cipher.
     bindR (ae_encrypt A cipher (se_nonce r) plaintext) (\<lambda>ciphertext.
       Inr (MAGIC @ [VERSION] @ to_le_bytes (of_nat (length wrapped_dek)) @ wrapped_dek @
            se_nonce r @ ciphertext)))))"

definition is_envelope :: "bytes \<Rightarrow> bool" where
  "is_envelope data \<longleftrightarrow> FIXED_HEADER \<le> length data \<and> take 4 data = MAGIC"

definition open_envelope ::
  "'k aead \<Rightarrow> 'n key_provider \<Rightarrow> 'n call_env \<Rightarrow> bytes \<Rightarrow> err + bytes option" where
  "open_envelope A provider e data =
     (if length data < FIXED_HEADER \<or> take 4 data \<noteq> MAGIC then Inr None
      else bindR (index data 4) (\<lambda>v. if v \<noteq> VERSION then Inl (EnvelopeVersion v) else
        bindR (index data 5) (\<lambda>lo. bindR (index data 6) (\<lambda>hi.
          let wrapped_len = unat (from_le_bytes lo hi);
              wrapped_end = FIXED_HEADER + wrapped_len;
              nonce_end = wrapped_end + 12
          in if length data < nonce_end + 16 then Inl EnvelopeTruncated
             else bindR (slice data FIXED_HEADER wrapped_end) (\<lambda>wrapped_dek.
                  bindR (slice data wrapped_end nonce_end) (\<lambda>data_nonce.
                  bindR (slice data nonce_end (length data)) (\<lambda>ciphertext.
                  bindR (kp_unwrap_dek provider e wrapped_dek) (\<lambda>dek.
                    if length dek \<noteq> 32 then Inl (DekLength (length dek))
                    else bindR (ae_new_from_slice A dek) (\<lambda>cipher.
                         mapR Some (ae_decrypt A cipher data_nonce ciphertext))))))))))"

section \<open>Providers\<close>

definition plaintext_provider :: "'n key_provider" where
  "plaintext_provider =
     \<lparr>kp_wrap_dek = (\<lambda>_ _. Inl (NoKeyProvider ''wrap'')),
      kp_unwrap_dek = (\<lambda>_ _. Inl (NoKeyProvider ''unwrap''))\<rparr>"

text \<open>The local provider (\<open>crypto/local.rs\<close>) holds its key-encryption key.\<close>

definition from_hex :: "(string \<Rightarrow> err + bytes) \<Rightarrow> string \<Rightarrow> err + bytes" where
  "from_hex hex_decode hex_str =
     bindR (hex_decode hex_str) (\<lambda>bs.
       if length bs \<noteq> 32 then Inl (BadKek ''length'') else Inr bs)"

definition local_wrap_dek :: "'k aead \<Rightarrow> bytes \<Rightarrow> 'n call_env \<Rightarrow> bytes \<Rightarrow> err + bytes" where
  "local_wrap_dek A kek e dek =
     bindR (ae_new_from_slice A kek) (\<lambda>cipher.
     bindR (ae_encrypt A cipher (ce_nonce e) dek) (\<lambda>ct. Inr (ce_nonce e @ ct)))"

definition local_unwrap_dek :: "'k aead \<Rightarrow> bytes \<Rightarrow> 'n call_env \<Rightarrow> bytes \<Rightarrow> err + bytes" where
  "local_unwrap_dek A kek e wrapped =
     (if length wrapped < 12 + 16 then Inl (WrappedDekTooShort (length wrapped))
      else bindR (ae_new_from_slice A kek) (\<lambda>cipher.
           bindR (slice wrapped 0 12) (\<lambda>nonce.
           bindR (slice wrapped 12 (length wrapped)) (\<lambda>ct. ae_decrypt A cipher nonce ct))))"

definition local_provider :: "'k aead \<Rightarrow> bytes \<Rightarrow> 'n key_provider" where
  "local_provider A kek =
     \<lparr>kp_wrap_dek = local_wrap_dek A kek, kp_unwrap_dek = local_unwrap_dek A kek\<rparr>"

text \<open>AWS KMS (\<open>crypto/kms.rs\<close>): the SDK's answer carries an optional blob.\<close>

record 'n kms_client =
  kms_send_encrypt :: "'n \<Rightarrow> string \<Rightarrow> bytes \<Rightarrow> err + bytes option"
  kms_send_decrypt :: "'n \<Rightarrow> bytes \<Rightarrow> err + bytes option"

record 'n kms_ops =
  ko_encrypt :: "'n \<Rightarrow> string \<Rightarrow> bytes \<Rightarrow> err + bytes"
  ko_decrypt :: "'n \<Rightarrow> bytes \<Rightarrow> err + bytes"

definition real_kms_encrypt :: "'n kms_client \<Rightarrow> 'n \<Rightarrow> string \<Rightarrow> bytes \<Rightarrow> err + bytes" where
  "real_kms_encrypt client net key_id plaintext =
     bindR (kms_send_encrypt client net key_id plaintext) (\<lambda>blob.
       ok_or blob (Io ''KMS Encrypt returned no ciphertext''))"

definition real_kms_decrypt :: "'n kms_client \<Rightarrow> 'n \<Rightarrow> bytes \<Rightarrow> err + bytes" where
  "real_kms_decrypt client net ciphertext =
     bindR (kms_send_decrypt client net ciphertext) (\<lambda>blob.
       ok_or blob (Io ''KMS Decrypt returned no plaintext''))"

definition real_kms_ops :: "'n kms_client \<Rightarrow> 'n kms_ops" where
  "real_kms_ops client =
     \<lparr>ko_encrypt = real_kms_encrypt client, ko_decrypt = real_kms_decrypt client\<rparr>"

definition kms_wrap_dek :: "'n kms_ops \<Rightarrow> string \<Rightarrow> 'n call_env \<Rightarrow> bytes \<Rightarrow> err + bytes" where
  "kms_wrap_dek ops key_id e dek = ko_encrypt ops (ce_net e) key_id dek"

definition kms_unwrap_dek :: "'n kms_ops \<Rightarrow> 'n call_env \<Rightarrow> bytes \<Rightarrow> err + bytes" where
  "kms_unwrap_dek ops e wrapped = ko_decrypt ops (ce_net e) wrapped"

definition kms_with_ops :: "'n kms_ops \<Rightarrow> string \<Rightarrow> 'n key_provider" where
  "kms_with_ops ops key_id =
     \<lparr>kp_wrap_dek = kms_wrap_dek ops key_id, kp_unwrap_dek = kms_unwrap_dek ops\<rparr>"

definition kms_from_env :: "'n kms_client \<Rightarrow> string \<Rightarrow> err + 'n key_provider" where
  "kms_from_env client key_arn = Inr (kms_with_ops (real_kms_ops client) key_arn)"

subsection \<open>Vault Transit\<close>

record encrypt_request = enc_plaintext :: string
record encrypt_response = enc_ciphertext :: string
record decrypt_request = dec_ciphertext :: string
record decrypt_response = dec_plaintext :: string

record 'b http_response =
  hr_status :: nat
  hr_text :: string
  hr_json :: "err + 'b"

definition is_success :: "nat \<Rightarrow> bool" where
  "is_success status \<longleftrightarrow> 200 \<le> status \<and> status < 300"

record 'n vault_server =
  vs_client :: "err + unit"
  vs_encrypt :: "'n \<Rightarrow> string \<Rightarrow> string \<Rightarrow> encrypt_request \<Rightarrow> err + encrypt_response http_response"
  vs_decrypt :: "'n \<Rightarrow> string \<Rightarrow> string \<Rightarrow> decrypt_request \<Rightarrow> err + decrypt_response http_response"

record base64 =
  b64_encode :: "bytes \<Rightarrow> string"
  b64_decode :: "string \<Rightarrow> err + bytes"

record vault_transit_provider =
  vt_encrypt_url :: string
  vt_decrypt_url :: string
  vt_token :: string

definition vault_new ::
  "'n vault_server \<Rightarrow> string \<Rightarrow> string \<Rightarrow> string \<Rightarrow> err + vault_transit_provider" where
  "vault_new W addr token key_name =
     (let addr' = trim_end_matches addr CHR ''/'' in
      bindR (vs_client W) (\<lambda>_.
        Inr \<lparr>vt_encrypt_url = addr' @ ''/v1/transit/encrypt/'' @ key_name,
             vt_decrypt_url = addr' @ ''/v1/transit/decrypt/'' @ key_name,
             vt_token = token\<rparr>))"

text \<open>\<open>String::into_bytes\<close> and \<open>str::from_utf8\<close>.\<close>

definition into_bytes :: "string \<Rightarrow> bytes" where
  "into_bytes s = map (\<lambda>c. of_nat (of_char c)) s"

definition chars_of :: "bytes \<Rightarrow> string" where
  "chars_of bs = map (\<lambda>b. char_of (unat b)) bs"

definition utf8_cont :: "u8 \<Rightarrow> bool" where
  "utf8_cont b \<longleftrightarrow> 0x80 \<le> b \<and> b \<le> 0xBF"

fun utf8_valid :: "bytes \<Rightarrow> bool" where
  "utf8_valid [] = True"
| "utf8_valid (b # bs) =
     (if b < 0x80 then utf8_valid bs
      else if 0xC2 \<le> b \<and> b \<le> 0xDF then
        (case bs of c # cs \<Rightarrow> utf8_cont c \<and> utf8_valid cs | _ \<Rightarrow> False)
      else if 0xE0 \<le> b \<and> b \<le> 0xEF then
        (case bs of c # d # cs \<Rightarrow>
            utf8_cont c \<and> (b = 0xE0 \<longrightarrow> 0xA0 \<le> c) \<and> (b = 0xED \<longrightarrow> c \<le> 0x9F) \<and> utf8_cont d \<and>
            utf8_valid cs
          | _ \<Rightarrow> False)
      else if 0xF0 \<le> b \<and> b \<le> 0xF4 then
        (case bs of c # d # e # cs \<Rightarrow>
            utf8_cont c \<and> (b = 0xF0 \<longrightarrow> 0x90 \<le> c) \<and> (b = 0xF4 \<longrightarrow> c \<le> 0x8F) \<and> utf8_cont d \<and>
            utf8_cont e \<and> utf8_valid cs
          | _ \<Rightarrow> False)
      else False)"

definition from_utf8 :: "bytes \<Rightarrow> err + string" where
  "from_utf8 bs = (if utf8_valid bs then Inr (chars_of bs) else Inl (Io ''not valid UTF-8''))"

definition vault_wrap_dek ::
  "'n vault_server \<Rightarrow> base64 \<Rightarrow> vault_transit_provider \<Rightarrow> 'n call_env \<Rightarrow> bytes \<Rightarrow> err + bytes" where
  "vault_wrap_dek W B vt e dek =
     bindR (vs_encrypt W (ce_net e) (vt_encrypt_url vt) (vt_token vt)
              \<lparr>enc_plaintext = b64_encode B dek\<rparr>) (\<lambda>resp.
     bindR (ensure (is_success (hr_status resp)) (HttpStatus (hr_status resp))) (\<lambda>_.
     bindR (hr_json resp) (\<lambda>parsed. Inr (into_bytes (enc_ciphertext parsed)))))"

definition vault_unwrap_dek ::
  "'n vault_server \<Rightarrow> base64 \<Rightarrow> vault_transit_provider \<Rightarrow> 'n call_env \<Rightarrow> bytes \<Rightarrow> err + bytes" where
  "vault_unwrap_dek W B vt e wrapped =
     bindR (from_utf8 wrapped) (\<lambda>ciphertext_str.
     bindR (vs_decrypt W (ce_net e) (vt_decrypt_url vt) (vt_token vt)
              \<lparr>dec_ciphertext = ciphertext_str\<rparr>) (\<lambda>resp.
     bindR (ensure (is_success (hr_status resp)) (HttpStatus (hr_status resp))) (\<lambda>_.
     bindR (hr_json resp) (\<lambda>parsed.
     bindR (b64_decode B (dec_plaintext parsed)) (\<lambda>dek.
       if length dek \<noteq> 32 then Inl (DekLength (length dek)) else Inr dek)))))"

definition vault_provider ::
  "'n vault_server \<Rightarrow> base64 \<Rightarrow> vault_transit_provider \<Rightarrow> 'n key_provider" where
  "vault_provider W B vt =
     \<lparr>kp_wrap_dek = vault_wrap_dek W B vt, kp_unwrap_dek = vault_unwrap_dek W B vt\<rparr>"

subsection \<open>Selection\<close>

record features =
  feat_aws_kms :: bool
  feat_vault :: bool

text \<open>The crates and services \<open>build_key_provider\<close> reaches.\<close>

record ('k, 'n) crypto_crates =
  cc_aead :: "'k aead"
  cc_hex_decode :: "string \<Rightarrow> err + bytes"
  cc_kms :: "'n kms_client"
  cc_vault :: "'n vault_server"
  cc_base64 :: base64

definition build_key_provider ::
  "features \<Rightarrow> ('k, 'n) crypto_crates \<Rightarrow> gateway_config \<Rightarrow> err + 'n key_provider \<times> bool" where
  "build_key_provider F C config =
     (case cfg_kms_key_arn config of
        Some arn \<Rightarrow>
          if feat_aws_kms F then mapR (\<lambda>p. (p, True)) (kms_from_env (cc_kms C) arn)
          else Inl (FeatureMissing ''aws-kms'')
      | None \<Rightarrow>
     (case cfg_vault_addr config of
        Some addr \<Rightarrow>
          if feat_vault F then
            bindR (ok_or (cfg_vault_token config) (ConfigMissing ''PEAT_VAULT_TOKEN'')) (\<lambda>token.
              let key_name = unwrap_or (cfg_vault_transit_key config) ''peat-gateway'' in
              mapR (\<lambda>vt. (vault_provider (cc_vault C) (cc_base64 C) vt, True))
                (vault_new (cc_vault C) addr token key_name))
          else Inl (FeatureMissing ''vault'')
      | None \<Rightarrow>
     (case cfg_kek config of
        Some kek_hex \<Rightarrow>
          mapR (\<lambda>kek. (local_provider (cc_aead C) kek, True)) (from_hex (cc_hex_decode C) kek_hex)
      | None \<Rightarrow> Inr (plaintext_provider, False))))"

end
