(* ===== verification/Crypto_Contract.thy ===== *)
theory Crypto_Contract
  imports Crypto
begin

text \<open>
  The contract of \<open>KeyProvider\<close> (``\<open>unwrap_dek(wrap_dek(dek))\<close> returns the original DEK'') as a
  locale, what sealing and opening owe to it, and its interpretation for each provider of the
  source. A second locale adds that unwrapping cannot fail, which holds for the local provider.
\<close>

section \<open>Opening what was sealed\<close>

lemma header_simps [simp]: "length MAGIC = 4" "FIXED_HEADER = 7" "length (to_le_bytes x) = 2"
  by (simp_all add: MAGIC_def FIXED_HEADER_def to_le_bytes_def)

definition envelope_of :: "bytes \<Rightarrow> bytes \<Rightarrow> bytes \<Rightarrow> bytes" where
  "envelope_of w n c = MAGIC @ [VERSION] @ to_le_bytes (of_nat (length w)) @ w @ n @ c"

lemma seal_Inr:
  "seal A P r p = Inr env \<longleftrightarrow>
     (\<exists>w k c. kp_wrap_dek P (se_wrap r) (se_dek r) = Inr w \<and> length w < 2 ^ 16 \<and>
        ae_new_from_slice A (se_dek r) = Inr k \<and> ae_encrypt A k (se_nonce r) p = Inr c \<and>
        env = envelope_of w (se_nonce r) c)"
  by (auto simp: seal_def envelope_of_def result_iffs)

lemma envelope_is_envelope: "is_envelope (envelope_of w n c)"
  by (simp add: is_envelope_def envelope_of_def)

lemma envelope_parts:
  assumes "length w < 2 ^ 16"
  shows "envelope_of w n c ! 4 = VERSION"
    and "unat (from_le_bytes (envelope_of w n c ! 5) (envelope_of w n c ! 6)) = length w"
    and "drop 7 (envelope_of w n c) = w @ n @ c"
proof -
  have env: "envelope_of w n c = [0x50, 0x45, 0x4E, 0x56, VERSION, ucast (of_nat (length w) :: u16),
      ucast (drop_bit 8 (of_nat (length w) :: u16))] @ w @ n @ c"
    by (simp add: envelope_of_def MAGIC_def to_le_bytes_def)
  show "envelope_of w n c ! 4 = VERSION" "drop 7 (envelope_of w n c) = w @ n @ c"
    by (simp_all add: env)
  have "envelope_of w n c ! 5 = ucast (of_nat (length w) :: u16)"
    "envelope_of w n c ! 6 = ucast (drop_bit 8 (of_nat (length w) :: u16))"
    by (simp_all add: env)
  then show "unat (from_le_bytes (envelope_of w n c ! 5) (envelope_of w n c ! 6)) = length w"
    using assms by (simp only: le_bytes_roundtrip) (simp add: unat_of_nat take_bit_eq_mod)
qed

lemma open_envelope_of:
  assumes w: "length w < 2 ^ 16" and n: "length n = 12" and c: "16 \<le> length c"
  shows "open_envelope A P e (envelope_of w n c) =
    bindR (kp_unwrap_dek P e w) (\<lambda>dek.
      if length dek \<noteq> 32 then Inl (DekLength (length dek))
      else bindR (ae_new_from_slice A dek) (\<lambda>k. mapR Some (ae_decrypt A k n c)))"
proof -
  let ?d = "envelope_of w n c"
  have len: "length ?d = 7 + length w + length n + length c"
    by (simp add: envelope_of_def)
  have dropped: "drop (7 + i) ?d = drop i (w @ n @ c)" for i
    by (simp add: envelope_parts(3) [OF w, of n c, symmetric] add.commute)
  have slices: "slice ?d 7 (7 + length w) = Inr w"
    "slice ?d (7 + length w) (7 + length w + 12) = Inr n"
    "slice ?d (7 + length w + 12) (length ?d) = Inr c"
    using envelope_parts(3) [OF w, of n c] n dropped [of "length w"] dropped [of "length w + 12"]
    by (simp_all add: slice_def len del: drop_drop)
  show ?thesis
    using envelope_is_envelope [of w n c] envelope_parts(1,2) [OF w, of n c] n c slices
    by (simp add: open_envelope_def is_envelope_def index_def Let_def len)
qed

section \<open>The contract\<close>

locale key_provider_contract =
  fixes P :: "'n key_provider" and good :: "'n call_env \<Rightarrow> bool"
  assumes unwraps: "good e \<Longrightarrow> length dek = 32 \<Longrightarrow> kp_wrap_dek P e dek = Inr w \<Longrightarrow>
    kp_unwrap_dek P e' w = Inr dek' \<Longrightarrow> dek' = dek"
begin

lemma open_seal_sound:
  assumes A: "aead_laws A" and r: "seal_env_ok r" "good (se_wrap r)"
    and sealed: "seal A P r p = Inr env" and opened: "open_envelope A P e' env = Inr q"
  shows "q = Some p"
proof -
  from sealed obtain w k c where w: "kp_wrap_dek P (se_wrap r) (se_dek r) = Inr w" "length w < 2 ^ 16"
    and k: "ae_new_from_slice A (se_dek r) = Inr k" and c: "ae_encrypt A k (se_nonce r) p = Inr c"
    and env: "env = envelope_of w (se_nonce r) c"
    unfolding seal_Inr by blast
  have len: "length (se_dek r) = 32" "length (se_nonce r) = 12" "16 \<le> length c"
    using r(1) aead_laws.tag_length [OF A c] by (simp_all add: seal_env_ok_def)
  from opened obtain dek where dek: "kp_unwrap_dek P e' w = Inr dek"
    and rest: "bindR (ae_new_from_slice A dek) (\<lambda>k. mapR Some (ae_decrypt A k (se_nonce r) c)) = Inr q"
    unfolding env open_envelope_of [OF w(2) len(2,3)] by (auto simp: result_iffs split: if_splits)
  have "dek = se_dek r" by (rule unwraps [OF r(2) len(1) w(1) dek])
  with rest k aead_laws.decrypts [OF A c] show ?thesis by simp
qed

end

locale reliable_key_provider = key_provider_contract +
  assumes unwrap_total: "good e \<Longrightarrow> length dek = 32 \<Longrightarrow> kp_wrap_dek P e dek = Inr w \<Longrightarrow>
    is_ok (kp_unwrap_dek P e' w)"
begin

lemma open_seal:
  assumes A: "aead_laws A" and r: "seal_env_ok r" "good (se_wrap r)"
    and sealed: "seal A P r p = Inr env"
  shows "open_envelope A P e' env = Inr (Some p)"
proof -
  from sealed obtain w k c where w: "kp_wrap_dek P (se_wrap r) (se_dek r) = Inr w" "length w < 2 ^ 16"
    and k: "ae_new_from_slice A (se_dek r) = Inr k" and c: "ae_encrypt A k (se_nonce r) p = Inr c"
    and env: "env = envelope_of w (se_nonce r) c"
    unfolding seal_Inr by blast
  have len: "length (se_dek r) = 32" "length (se_nonce r) = 12" "16 \<le> length c"
    using r(1) aead_laws.tag_length [OF A c] by (simp_all add: seal_env_ok_def)
  obtain dek where "kp_unwrap_dek P e' w = Inr dek"
    using unwrap_total [OF r(2) len(1) w(1), of e'] by (auto simp: is_ok_def split: sum.splits)
  moreover from this have "dek = se_dek r" by (rule unwraps [OF r(2) len(1) w(1)])
  ultimately show ?thesis
    unfolding env open_envelope_of [OF w(2) len(2,3)]
    using len k aead_laws.decrypts [OF A c] by simp
qed

end

section \<open>The providers keep it\<close>

interpretation plain: reliable_key_provider "plaintext_provider" "\<lambda>_. True"
  by unfold_locales (simp_all add: plaintext_provider_def)

lemma local_unwrap_wrap:
  assumes "aead_laws A" and "length (ce_nonce e) = 12" and "local_wrap_dek A kek e dek = Inr w"
  shows "local_unwrap_dek A kek e' w = Inr dek" and "length w = length dek + 28"
proof -
  from assms(3) obtain k ct where *: "ae_new_from_slice A kek = Inr k"
    "ae_encrypt A k (ce_nonce e) dek = Inr ct" "w = ce_nonce e @ ct"
    by (auto simp: local_wrap_dek_def result_iffs)
  note ct = aead_laws.tag_length [OF assms(1) *(2)] aead_laws.decrypts [OF assms(1) *(2)]
  show "length w = length dek + 28" using * ct(1) assms(2) by simp
  show "local_unwrap_dek A kek e' w = Inr dek"
    using * ct assms(2) by (simp add: local_unwrap_dek_def slice_def)
qed

interpretation lp: reliable_key_provider "local_provider A kek"
  "\<lambda>e. aead_laws A \<and> length (ce_nonce e) = 12" for A kek
proof unfold_locales
  fix e dek w e' dek'
  assume "aead_laws A \<and> length (ce_nonce e) = 12"
    "kp_wrap_dek (local_provider A kek) e dek = Inr w"
  then have "local_unwrap_dek A kek e' w = Inr dek"
    by (auto simp: local_provider_def intro: local_unwrap_wrap)
  then show "kp_unwrap_dek (local_provider A kek) e' w = Inr dek' \<Longrightarrow> dek' = dek"
    "is_ok (kp_unwrap_dek (local_provider A kek) e' w)"
    by (simp_all add: local_provider_def)
qed

text \<open>KMS: a blob decrypts to the plaintext it was made from, whenever it decrypts.\<close>

definition kms_laws :: "'n kms_ops \<Rightarrow> bool" where
  "kms_laws ops \<longleftrightarrow>
     (\<forall>net key p c net' p'. ko_encrypt ops net key p = Inr c \<longrightarrow> ko_decrypt ops net' c = Inr p' \<longrightarrow> p' = p)"

interpretation kms: key_provider_contract "kms_with_ops ops key_id" "\<lambda>_. kms_laws ops" for ops key_id
  by unfold_locales
    (auto simp: kms_with_ops_def kms_wrap_dek_def kms_unwrap_dek_def kms_laws_def)

text \<open>
  Vault: base64 decodes what it encoded; a Transit key's ciphertext is text, and the decrypt endpoint
  of the same key answers with the plaintext it was made from, whenever it answers with success.
\<close>

definition base64_laws :: "base64 \<Rightarrow> bool" where
  "base64_laws B \<longleftrightarrow> (\<forall>d. b64_decode B (b64_encode B d) = Inr d)"

definition transit_laws :: "'n vault_server \<Rightarrow> vault_transit_provider \<Rightarrow> bool" where
  "transit_laws W vt \<longleftrightarrow>
     (\<forall>net p r x. vs_encrypt W net (vt_encrypt_url vt) (vt_token vt) \<lparr>enc_plaintext = p\<rparr> = Inr r \<longrightarrow>
        is_success (hr_status r) \<longrightarrow> hr_json r = Inr x \<longrightarrow>
        utf8_valid (into_bytes (enc_ciphertext x)) \<and>
        (\<forall>net' r' y. vs_decrypt W net' (vt_decrypt_url vt) (vt_token vt)
             \<lparr>dec_ciphertext = enc_ciphertext x\<rparr> = Inr r' \<longrightarrow>
           is_success (hr_status r') \<longrightarrow> hr_json r' = Inr y \<longrightarrow> dec_plaintext y = p))"

lemma chars_of_into_bytes [simp]: "chars_of (into_bytes s) = s"
proof -
  have "char_of (unat (of_nat (of_char c) :: u8)) = c" for c
    by (simp add: unat_of_nat)
  then show ?thesis by (simp add: chars_of_def into_bytes_def comp_def)
qed

interpretation vault: key_provider_contract "vault_provider W B vt"
  "\<lambda>_. base64_laws B \<and> transit_laws W vt" for W B vt
proof unfold_locales
  fix e e' :: "'a call_env" and dek w dek'
  assume laws: "base64_laws B \<and> transit_laws W vt"
    and wrap: "kp_wrap_dek (vault_provider W B vt) e dek = Inr w"
    and unwrap: "kp_unwrap_dek (vault_provider W B vt) e' w = Inr dek'"
  from wrap obtain r x where r: "vs_encrypt W (ce_net e) (vt_encrypt_url vt) (vt_token vt)
      \<lparr>enc_plaintext = b64_encode B dek\<rparr> = Inr r" "is_success (hr_status r)" "hr_json r = Inr x"
    and w: "w = into_bytes (enc_ciphertext x)"
    by (auto simp: vault_provider_def vault_wrap_dek_def result_iffs)
  from unwrap obtain r' y where r': "vs_decrypt W (ce_net e') (vt_decrypt_url vt) (vt_token vt)
      \<lparr>dec_ciphertext = enc_ciphertext x\<rparr> = Inr r'" "is_success (hr_status r')" "hr_json r' = Inr y"
    and d: "b64_decode B (dec_plaintext y) = Inr dek'"
    by (auto simp: vault_provider_def vault_unwrap_dek_def w from_utf8_def result_iffs
        split: if_splits)
  have "dec_plaintext y = b64_encode B dek"
    using laws r r' unfolding transit_laws_def by blast
  with d laws show "dek' = dek" by (simp add: base64_laws_def)
qed

section \<open>The built provider\<close>

text \<open>The laws of the crates and services a configured gateway reaches.\<close>

definition crates_ok :: "('k, 'n) crypto_crates \<Rightarrow> bool" where
  "crates_ok C \<longleftrightarrow>
     aead_laws (cc_aead C) \<and> kms_laws (real_kms_ops (cc_kms C)) \<and> base64_laws (cc_base64 C) \<and>
     (\<forall>addr token key vt. vault_new (cc_vault C) addr token key = Inr vt \<longrightarrow>
        transit_laws (cc_vault C) vt)"

definition key_source_configured :: "gateway_config \<Rightarrow> bool" where
  "key_source_configured cfg \<longleftrightarrow>
     cfg_kms_key_arn cfg \<noteq> None \<or> cfg_vault_addr cfg \<noteq> None \<or> cfg_kek cfg \<noteq> None"

lemma build_key_provider_cases:
  assumes "build_key_provider F C cfg = Inr (P, enabled)"
  obtains (kms) arn where "cfg_kms_key_arn cfg = Some arn" "enabled"
      "P = kms_with_ops (real_kms_ops (cc_kms C)) arn"
    | (vault) addr token vt where "cfg_kms_key_arn cfg = None" "cfg_vault_addr cfg = Some addr"
      "enabled" "vault_new (cc_vault C) addr token
         (unwrap_or (cfg_vault_transit_key cfg) ''peat-gateway'') = Inr vt"
      "P = vault_provider (cc_vault C) (cc_base64 C) vt"
    | (local) kek where "cfg_kms_key_arn cfg = None" "cfg_vault_addr cfg = None"
      "cfg_kek cfg \<noteq> None" "length kek = 32" "enabled" "P = local_provider (cc_aead C) kek"
    | (plain) "\<not> key_source_configured cfg" "\<not> enabled" "P = plaintext_provider"
  using assms
  by (auto simp: build_key_provider_def kms_from_env_def from_hex_def key_source_configured_def
      Let_def result_iffs split: option.splits if_splits)

lemma built_provider_sound:
  assumes built: "build_key_provider F C cfg = Inr (P, enabled)" and C: "crates_ok C"
    and r: "seal_env_ok r" and sealed: "seal (cc_aead C) P r p = Inr env"
    and opened: "open_envelope (cc_aead C) P e' env = Inr q"
  shows "q = Some p"
proof -
  have A: "aead_laws (cc_aead C)" using C by (simp add: crates_ok_def)
  from built show ?thesis
  proof (cases rule: build_key_provider_cases)
    case (kms arn)
    with C sealed opened show ?thesis
      by (intro kms.open_seal_sound [OF A r]) (auto simp: crates_ok_def)
  next
    case (vault addr token vt)
    with C sealed opened show ?thesis
      by (intro vault.open_seal_sound [OF A r]) (auto simp: crates_ok_def)
  next
    case (local kek)
    with A r sealed opened show ?thesis
      by (intro lp.open_seal_sound [OF A r]) (auto simp: seal_env_ok_def)
  next
    case plain
    with sealed opened show ?thesis by (intro plain.open_seal_sound [OF A r]) auto
  qed
qed

section \<open>Reference crates\<close>

text \<open>
  Crates and services that satisfy the laws: a cipher that appends an empty tag, a KMS and a Vault
  that answer with what they were sent. They show the laws can hold together.
\<close>

definition ref_aead :: "bytes aead" where
  "ref_aead =
     \<lparr>ae_new_from_slice = (\<lambda>k. if length k = 32 then Inr k else Inl (Io ''InvalidLength'')),
      ae_encrypt = (\<lambda>k n p. Inr (p @ replicate 16 0)),
      ae_decrypt = (\<lambda>k n c. Inr (take (length c - 16) c))\<rparr>"

definition ref_crates :: "(bytes, unit) crypto_crates" where
  "ref_crates =
     \<lparr>cc_aead = ref_aead,
      cc_hex_decode = (\<lambda>s. if s = ''kek'' then Inr (replicate 32 7) else Inl (Io ''hex'')),
      cc_kms = \<lparr>kms_send_encrypt = (\<lambda>_ _ p. Inr (Some p)), kms_send_decrypt = (\<lambda>_ c. Inr (Some c))\<rparr>,
      cc_vault =
        \<lparr>vs_client = Inr (),
         vs_encrypt = (\<lambda>_ _ _ q. if utf8_valid (into_bytes (enc_plaintext q))
           then Inr \<lparr>hr_status = 200, hr_text = [], hr_json = Inr \<lparr>enc_ciphertext = enc_plaintext q\<rparr>\<rparr>
           else Inl (Io ''request'')),
         vs_decrypt = (\<lambda>_ _ _ q.
           Inr \<lparr>hr_status = 200, hr_text = [], hr_json = Inr \<lparr>dec_plaintext = dec_ciphertext q\<rparr>\<rparr>)\<rparr>,
      cc_base64 = \<lparr>b64_encode = chars_of, b64_decode = (\<lambda>s. Inr (into_bytes s))\<rparr>\<rparr>"

interpretation ref_cipher: aead_laws ref_aead
  by unfold_locales (auto simp: ref_aead_def)

lemma into_bytes_chars_of [simp]: "into_bytes (chars_of bs) = bs"
proof -
  have "of_nat (of_char (char_of (unat b))) = b" for b :: u8
  proof -
    have "unat b < 256" using unsigned_less [of b] by simp
    then show ?thesis by (simp add: of_char_of)
  qed
  then show ?thesis by (simp add: chars_of_def into_bytes_def comp_def)
qed

lemma ref_crates_ok: "crates_ok ref_crates"
  using ref_cipher.aead_laws_axioms
  by (auto simp: crates_ok_def ref_crates_def kms_laws_def real_kms_ops_def real_kms_encrypt_def
      real_kms_decrypt_def base64_laws_def transit_laws_def split: if_splits)

definition ref_seal_env :: "unit seal_env" where
  "ref_seal_env =
     \<lparr>se_dek = replicate 32 1, se_nonce = replicate 12 2,
      se_wrap = \<lparr>ce_nonce = replicate 12 3, ce_net = ()\<rparr>\<rparr>"

lemma ref_seal_env_ok: "seal_env_ok ref_seal_env"
  by (simp add: seal_env_ok_def ref_seal_env_def)

text \<open>A configuration with a local key and nothing else.\<close>

definition ref_config :: gateway_config where
  "ref_config =
     \<lparr>cfg_bind_addr = ''0.0.0.0:8080'', cfg_storage = RedbConfig ''./data/gateway.redb'',
      cfg_cdc = \<lparr>cfg_nats_url = None, cfg_kafka_brokers = None\<rparr>, cfg_ui_dir = None,
      cfg_kek = Some ''kek'', cfg_kms_key_arn = None, cfg_admin_token = Some ''secret'',
      cfg_vault_addr = None, cfg_vault_token = None, cfg_vault_transit_key = None,
      cfg_mesh_brokers = [], cfg_mesh_poll_interval_ms = 5000\<rparr>"

section \<open>Properties\<close>

text \<open>
  What \<open>seal\<close> encrypts with the local key-encryption key, \<open>open\<close> decrypts to the same
  bytes, in every later environment; the output is recognised by \<open>is_envelope\<close>, and it is the
  plaintext's length plus 7 header bytes, a 60-byte wrapped key, a 12-byte nonce and a 16-byte tag.
\<close>

theorem local_seal_open:
  fixes r :: "'n seal_env" and e :: "'n call_env"
  assumes "aead_laws A" and "seal_env_ok r" and "seal A (local_provider A kek) r p = Inr env"
  shows "open_envelope A (local_provider A kek) e env = Inr (Some p) \<and>
    is_envelope env \<and> length env = length p + 95"
proof (intro conjI)
  show "open_envelope A (local_provider A kek) e env = Inr (Some p)"
    using assms(1,2) by (intro lp.open_seal [OF assms(1,2) _ assms(3)]) (simp add: seal_env_ok_def)
  from assms(3) show "is_envelope env" by (auto simp: seal_Inr envelope_is_envelope)
  from assms(3) obtain w k c where "local_wrap_dek A kek (se_wrap r) (se_dek r) = Inr w"
    "ae_encrypt A k (se_nonce r) p = Inr c" "env = envelope_of w (se_nonce r) c"
    by (auto simp: seal_Inr local_provider_def)
  with assms(1,2) local_unwrap_wrap(2) [OF assms(1), of "se_wrap r" kek "se_dek r" w]
    aead_laws.tag_length [OF assms(1), of k "se_nonce r" p c]
  show "length env = length p + 95"
    by (simp add: seal_env_ok_def envelope_of_def)
qed

theorem local_seal_open_witness:
  "\<exists>env. seal ref_aead (local_provider ref_aead (replicate 32 7)) ref_seal_env [1, 2, 3] = Inr env \<and>
     open_envelope ref_aead (local_provider ref_aead (replicate 32 7)) (se_wrap ref_seal_env) env =
       Inr (Some [1, 2, 3])"
proof -
  let ?P = "local_provider ref_aead (replicate 32 7)"
  obtain env where env: "seal ref_aead ?P ref_seal_env [1, 2, 3] = Inr env"
    by (simp add: seal_def local_provider_def local_wrap_dek_def ref_aead_def ref_seal_env_def
        ensure_def)
  with local_seal_open [OF ref_cipher.aead_laws_axioms ref_seal_env_ok env] show ?thesis by blast
qed

text \<open>
  C36: whatever provider the configuration selects (KMS, Vault, a local key or none), if \<open>seal\<close>
  succeeds with it and \<open>open\<close> of the result succeeds, the original bytes come back.
\<close>

theorem built_provider_roundtrip:
  assumes "build_key_provider F C cfg = Inr (P, enabled)" and "crates_ok C" and "seal_env_ok r"
    and "seal (cc_aead C) P r p = Inr env" and "open_envelope (cc_aead C) P e env = Inr q"
  shows "q = Some p"
  using assms by (rule built_provider_sound)

theorem built_provider_roundtrip_witness:
  "\<exists>P env. build_key_provider \<lparr>feat_aws_kms = False, feat_vault = False\<rparr> ref_crates ref_config =
       Inr (P, True) \<and>
     seal (cc_aead ref_crates) P ref_seal_env [1, 2, 3] = Inr env \<and>
     open_envelope (cc_aead ref_crates) P (se_wrap ref_seal_env) env = Inr (Some [1, 2, 3])"
proof -
  let ?P = "local_provider ref_aead (replicate 32 7)"
  have built: "build_key_provider \<lparr>feat_aws_kms = False, feat_vault = False\<rparr> ref_crates ref_config =
       Inr (?P, True)"
    by (simp add: build_key_provider_def ref_config_def ref_crates_def from_hex_def)
  obtain env q where env: "seal (cc_aead ref_crates) ?P ref_seal_env [1, 2, 3] = Inr env"
    and q: "open_envelope (cc_aead ref_crates) ?P (se_wrap ref_seal_env) env = Inr q"
    by (simp add: seal_Inr open_envelope_of ref_crates_def local_provider_def local_wrap_dek_def
        local_unwrap_dek_def slice_def ref_aead_def ref_seal_env_def)
  from built_provider_roundtrip [OF built ref_crates_ok ref_seal_env_ok env q] built env q
  show ?thesis by blast
qed

text \<open>
  Encryption is switched on exactly when a key source is configured: a configuration that names
  one never falls back to plaintext (it fails instead when its feature, token or key is missing).
\<close>

theorem build_key_provider_encrypts:
  assumes "build_key_provider F C cfg = Inr (P, enabled)"
  shows "enabled \<longleftrightarrow> key_source_configured cfg"
  using assms by (cases rule: build_key_provider_cases) (auto simp: key_source_configured_def)

theorem build_key_provider_encrypts_witness:
  "key_source_configured ref_config"
proof -
  have "build_key_provider \<lparr>feat_aws_kms = False, feat_vault = False\<rparr> ref_crates ref_config =
       Inr (local_provider ref_aead (replicate 32 7), True)"
    by (simp add: build_key_provider_def ref_config_def ref_crates_def from_hex_def)
  from build_key_provider_encrypts [OF this] show ?thesis by simp
qed

text \<open>
  \<open>open\<close> reports legacy plaintext for exactly the data \<open>is_envelope\<close> rejects; it refuses an
  envelope of another version or shorter than its header says, before any key is unwrapped.
\<close>

theorem open_envelope_branches:
  "(open_envelope A P e data = Inr None) = (\<not> is_envelope data) \<and>
   (is_envelope data \<longrightarrow> data ! 4 \<noteq> VERSION \<longrightarrow>
     open_envelope A P e data = Inl (EnvelopeVersion (data ! 4))) \<and>
   (is_envelope data \<longrightarrow> data ! 4 = VERSION \<longrightarrow>
     length data < 35 + unat (from_le_bytes (data ! 5) (data ! 6)) \<longrightarrow>
     open_envelope A P e data = Inl EnvelopeTruncated)"
  by (auto simp: open_envelope_def is_envelope_def index_def Let_def result_iffs)

theorem open_envelope_branches_witness:
  "open_envelope ref_aead plaintext_provider (se_wrap ref_seal_env) (MAGIC @ [2, 0, 0]) =
     Inl (EnvelopeVersion 2)"
  using open_envelope_branches [of ref_aead plaintext_provider "se_wrap ref_seal_env"
      "MAGIC @ [2, 0, 0]"]
  by (simp add: is_envelope_def VERSION_def nth_append)

text \<open>
  C37: opening arbitrary bytes with the local provider never indexes or slices out of range, and never
  hands the cipher a nonce that is not 12 bytes long.
\<close>

theorem open_local_no_panic:
  assumes "\<And>k n c s. length n = 12 \<Longrightarrow> ae_decrypt A k n c \<noteq> Inl (Panic s)"
    and "\<And>k s. ae_new_from_slice A k \<noteq> Inl (Panic s)"
  shows "open_envelope A (local_provider A kek) e data \<noteq> Inl (Panic s)"
proof
  assume *: "open_envelope A (local_provider A kek) e data = Inl (Panic s)"
  show False
  proof (cases "is_envelope data")
    case False
    with * show False by (simp add: open_envelope_def is_envelope_def split: if_splits)
  next
    case True
    with * assms show False
      by (auto simp: open_envelope_def is_envelope_def index_def Let_def slice_def
          local_provider_def local_unwrap_dek_def result_iffs split: if_splits)
  qed
qed

theorem open_local_no_panic_witness:
  "open_envelope ref_aead (local_provider ref_aead []) (se_wrap ref_seal_env)
     (MAGIC @ [1, 255, 255]) \<noteq> Inl (Panic ''slice'')"
  by (rule open_local_no_panic) (simp_all add: ref_aead_def)

end
