(* ===== verification/Tenant.thy ===== *)
theory Tenant
  imports Storage Crypto_Contract
begin

text \<open>
  The tenant manager (\<open>src/tenant/manager.rs\<close>): input validation, then one definition per method,
  over a storage backend it only knows by its trait. An operation takes what the source reads from
  outside as arguments: the wall clock \<open>now\<close> in milliseconds and the random bytes it draws.
\<close>

section \<open>Crates\<close>

text \<open>
  \<open>peat_mesh::security::MeshGenesis\<close> and \<open>hex::encode\<close>. Creating a genesis draws entropy, its
  first argument.
\<close>

datatype membership_policy = MeshOpen | MeshControlled | MeshStrict

record ('k, 'g) mesh_crates =
  mc_aead :: "'k aead"
  mc_genesis_create :: "bytes \<Rightarrow> string \<Rightarrow> membership_policy \<Rightarrow> 'g"
  mc_mesh_id :: "'g \<Rightarrow> string"
  mc_encode :: "'g \<Rightarrow> bytes"
  mc_decode :: "bytes \<Rightarrow> err + 'g"
  mc_hex_encode :: "bytes \<Rightarrow> string"

definition is_lower_hex :: "char \<Rightarrow> bool" where
  "is_lower_hex c \<longleftrightarrow> is_ascii_digit c \<or> (CHR ''a'' \<le> c \<and> c \<le> CHR ''f'')"

text \<open>What the code relies on: decoding undoes encoding, and hex text is made of hex digits.\<close>

definition mesh_crates_ok :: "('k, 'g) mesh_crates \<Rightarrow> bool" where
  "mesh_crates_ok K \<longleftrightarrow>
     aead_laws (mc_aead K) \<and> (\<forall>g. mc_decode K (mc_encode K g) = Inr g) \<and>
     (\<forall>b. list_all is_lower_hex (mc_hex_encode K b))"

record ('s, 'n) tenant_manager =
  tm_store :: "'s backend"
  tm_key_provider :: "'n key_provider"
  tm_encrypt_enabled :: bool

definition with_backend ::
  "'s backend \<Rightarrow> 'n key_provider \<Rightarrow> bool \<Rightarrow> ('s, 'n) tenant_manager" where
  "with_backend store key_provider encrypt_enabled =
     \<lparr>tm_store = store, tm_key_provider = key_provider, tm_encrypt_enabled = encrypt_enabled\<rparr>"

text \<open>\<open>TenantManager::new\<close> on an opened store: the organizations are listed to count them.\<close>

definition new_manager ::
  "features \<Rightarrow> ('k, 'n) crypto_crates \<Rightarrow> gateway_config \<Rightarrow> 's backend \<Rightarrow> 's
     \<Rightarrow> err + ('s, 'n) tenant_manager" where
  "new_manager F C config store s =
     bindR (build_key_provider F C config) (\<lambda>(key_provider, encrypt_enabled).
     bindR (be_list_orgs store s) (\<lambda>_. Inr (with_backend store key_provider encrypt_enabled)))"

section \<open>Input validation\<close>

definition MAX_IDENTIFIER_LEN :: nat where
  "MAX_IDENTIFIER_LEN = 128"

definition MAX_DISPLAY_NAME_LEN :: nat where
  "MAX_DISPLAY_NAME_LEN = 1024"

definition identifier_byte :: "char \<Rightarrow> bool" where
  "identifier_byte b \<longleftrightarrow>
     is_ascii_alphanumeric b \<or> b = CHR ''.'' \<or> b = CHR ''_'' \<or> b = CHR ''-''"

definition validate_identifier :: "string \<Rightarrow> string \<Rightarrow> err + unit" where
  "validate_identifier value field =
     (if value = [] then Inl (FieldEmpty field)
      else if length value > MAX_IDENTIFIER_LEN then Inl (FieldTooLong field (length value))
      else bindR (index value 0) (\<lambda>b.
        if \<not> is_ascii_alphanumeric b then Inl (FieldBadStart field)
        else if \<not> list_all identifier_byte value then Inl (FieldBadChars field)
        else Inr ()))"

definition validate_display_name :: "string \<Rightarrow> err + unit" where
  "validate_display_name value =
     (if value = [] then Inl (FieldEmpty ''display_name'')
      else if length value > MAX_DISPLAY_NAME_LEN
        then Inl (FieldTooLong ''display_name'' (length value))
      else Inr ())"

definition validate_non_empty :: "string \<Rightarrow> string \<Rightarrow> err + unit" where
  "validate_non_empty value field = (if trim value = [] then Inl (FieldEmpty field) else Inr ())"

definition validate_http_url :: "string \<Rightarrow> string \<Rightarrow> err + unit" where
  "validate_http_url url field =
     (if url = [] then Inl (FieldEmpty field)
      else if \<not> starts_with url ''http://'' \<and> \<not> starts_with url ''https://''
        then Inl (FieldBadScheme field)
      else Inr ())"

definition validate_issuer_url :: "string \<Rightarrow> err + unit" where
  "validate_issuer_url url =
     (if url = [] then Inl (FieldEmpty ''issuer_url'')
      else if \<not> starts_with url ''https://'' then Inl (FieldBadScheme ''issuer_url'')
      else Inr ())"

fun validate_sink_type :: "cdc_sink_type \<Rightarrow> err + unit" where
  "validate_sink_type (Webhook url) = validate_http_url url ''webhook url''"
| "validate_sink_type (Nats subject_prefix) = validate_non_empty subject_prefix ''subject_prefix''"
| "validate_sink_type (Kafka topic) = validate_non_empty topic ''topic''"

section \<open>Organizations\<close>

definition get_org :: "('s, 'n) tenant_manager \<Rightarrow> string \<Rightarrow> 's \<Rightarrow> err + organization" where
  "get_org M org_id s = bindR (be_get_org (tm_store M) org_id s) (\<lambda>r. ok_or r (OrgNotFound org_id))"

definition create_org ::
  "('s, 'n) tenant_manager \<Rightarrow> u64 \<Rightarrow> string \<Rightarrow> string \<Rightarrow> ('s, err, organization) op" where
  "create_org M now org_id display_name =
     seqE (liftE (validate_identifier org_id ''org_id''))
     (seqE (liftE (validate_display_name display_name))
     (bindE (readE (be_get_org (tm_store M) org_id)) (\<lambda>r.
        if r \<noteq> None then failE (OrgExists org_id)
        else
          let org = \<lparr>org_org_id = org_id, org_display_name = display_name,
                     org_quotas = default_quotas, org_created_at = now\<rparr>
          in seqE (be_create_org (tm_store M) org) (retE org))))"

definition list_orgs :: "('s, 'n) tenant_manager \<Rightarrow> 's \<Rightarrow> err + organization list" where
  "list_orgs M = be_list_orgs (tm_store M)"

definition update_org ::
  "('s, 'n) tenant_manager \<Rightarrow> string \<Rightarrow> string option \<Rightarrow> org_quotas option \<Rightarrow> ('s, err, organization) op" where
  "update_org M org_id display_name quotas =
     bindE (readE (get_org M org_id)) (\<lambda>org0.
       let org1 = (case display_name of None \<Rightarrow> org0 | Some name \<Rightarrow> org0\<lparr>org_display_name := name\<rparr>);
           org2 = (case quotas of None \<Rightarrow> org1 | Some q \<Rightarrow> org1\<lparr>org_quotas := q\<rparr>)
       in seqE (be_update_org (tm_store M) org2) (retE org2))"

definition delete_org :: "('s, 'n) tenant_manager \<Rightarrow> string \<Rightarrow> ('s, err, unit) op" where
  "delete_org M org_id =
     bindE (be_delete_org (tm_store M) org_id) (\<lambda>found.
       if \<not> found then failE (OrgNotFound org_id) else retE ())"

section \<open>Formations and their genesis\<close>

fun mesh_policy :: "enrollment_policy \<Rightarrow> membership_policy" where
  "mesh_policy Open = MeshOpen"
| "mesh_policy Controlled = MeshControlled"
| "mesh_policy Strict = MeshStrict"

definition create_formation ::
  "('k, 'g) mesh_crates \<Rightarrow> ('s, 'n) tenant_manager \<Rightarrow> bytes \<Rightarrow> 'n seal_env
     \<Rightarrow> string \<Rightarrow> string \<Rightarrow> enrollment_policy \<Rightarrow> ('s, err, formation_config) op" where
  "create_formation K M entropy r org_id app_id policy =
     seqE (liftE (validate_identifier app_id ''app_id''))
     (bindE (readE (get_org M org_id)) (\<lambda>org.
      bindE (readE (be_list_formations (tm_store M) org_id)) (\<lambda>existing.
        if max_formations (org_quotas org) \<le> (of_nat (length existing) :: u32)
        then failE (FormationQuota org_id (max_formations (org_quotas org)))
        else
      bindE (readE (be_get_formation (tm_store M) org_id app_id)) (\<lambda>f.
        if f \<noteq> None then failE (FormationExists app_id org_id)
        else
          let genesis = mc_genesis_create K entropy app_id (mesh_policy policy);
              mesh_id = mc_mesh_id K genesis;
              encoded = mc_encode K genesis
          in bindE (liftE (if tm_encrypt_enabled M
                           then seal (mc_aead K) (tm_key_provider M) r encoded
                           else Inr encoded)) (\<lambda>stored_bytes.
             let formation = \<lparr>form_app_id = app_id, form_mesh_id = mesh_id,
                              form_enrollment_policy = policy\<rparr>
             in seqE (be_create_formation (tm_store M) org_id formation)
               (seqE (be_store_genesis (tm_store M) org_id app_id stored_bytes)
                 (retE formation)))))))"

definition get_formation ::
  "('s, 'n) tenant_manager \<Rightarrow> string \<Rightarrow> string \<Rightarrow> 's \<Rightarrow> err + formation_config" where
  "get_formation M org_id app_id s =
     bindR (be_get_formation (tm_store M) org_id app_id s) (\<lambda>r.
       ok_or r (FormationNotFound app_id org_id))"

definition list_formations ::
  "('s, 'n) tenant_manager \<Rightarrow> string \<Rightarrow> 's \<Rightarrow> err + formation_config list" where
  "list_formations M org_id s =
     bindR (get_org M org_id s) (\<lambda>_. be_list_formations (tm_store M) org_id s)"

definition delete_formation ::
  "('s, 'n) tenant_manager \<Rightarrow> string \<Rightarrow> string \<Rightarrow> ('s, err, unit) op" where
  "delete_formation M org_id app_id =
     bindE (be_delete_formation (tm_store M) org_id app_id) (\<lambda>found.
       if \<not> found then failE (FormationNotFound app_id org_id)
       else ignoreE (be_delete_genesis (tm_store M) org_id app_id))"

definition load_genesis ::
  "('k, 'g) mesh_crates \<Rightarrow> ('s, 'n) tenant_manager \<Rightarrow> 'n call_env \<Rightarrow> string \<Rightarrow> string \<Rightarrow> 's \<Rightarrow> err + 'g" where
  "load_genesis K M e org_id app_id s =
     bindR (be_get_genesis (tm_store M) org_id app_id s) (\<lambda>r.
     bindR (ok_or r (GenesisNotFound app_id org_id)) (\<lambda>stored.
     bindR (if tm_encrypt_enabled M then
              mapR (\<lambda>d. case d of Some decrypted \<Rightarrow> decrypted | None \<Rightarrow> stored)
                (open_envelope (mc_aead K) (tm_key_provider M) e stored)
            else Inr stored) (\<lambda>plaintext.
       map_err (\<lambda>_. GenesisDecode app_id) (mc_decode K plaintext))))"

definition usize_MAX :: nat where
  "usize_MAX = 2 ^ 64 - 1"

definition count_recent_enrollments ::
  "('s, 'n) tenant_manager \<Rightarrow> string \<Rightarrow> u64 \<Rightarrow> 's \<Rightarrow> err + nat" where
  "count_recent_enrollments M org_id since_ms s =
     mapR (\<lambda>entries. length (filter (\<lambda>e. since_ms \<le> aud_timestamp_ms e) entries))
       (be_list_audit (tm_store M) org_id None usize_MAX s)"

section \<open>Enrollment tokens\<close>

definition create_token ::
  "('k, 'g) mesh_crates \<Rightarrow> ('s, 'n) tenant_manager \<Rightarrow> bytes \<Rightarrow> u64 \<Rightarrow> string \<Rightarrow> string \<Rightarrow> string
     \<Rightarrow> u32 option \<Rightarrow> u64 option \<Rightarrow> ('s, err, enrollment_token) op" where
  "create_token K M buf now org_id app_id label max_uses expires_at =
     seqE (liftE (validate_non_empty label ''label''))
     (seqE (readE (get_org M org_id))
     (seqE (readE (get_formation M org_id app_id))
       (let token_id = ''peat_'' @ mc_hex_encode K buf;
            token = \<lparr>tok_token_id = token_id, tok_org_id = org_id, tok_app_id = app_id,
                     tok_label = label, tok_max_uses = max_uses, tok_uses = 0,
                     tok_expires_at = expires_at, tok_created_at = now, tok_revoked = False\<rparr>
        in seqE (be_create_token (tm_store M) token) (retE token))))"

definition get_token ::
  "('s, 'n) tenant_manager \<Rightarrow> string \<Rightarrow> string \<Rightarrow> 's \<Rightarrow> err + enrollment_token" where
  "get_token M org_id token_id s =
     bindR (be_get_token (tm_store M) org_id token_id s) (\<lambda>r.
       ok_or r (TokenNotFound token_id org_id))"

definition list_tokens ::
  "('s, 'n) tenant_manager \<Rightarrow> string \<Rightarrow> string \<Rightarrow> 's \<Rightarrow> err + enrollment_token list" where
  "list_tokens M org_id app_id s =
     bindR (get_org M org_id s) (\<lambda>_.
     bindR (get_formation M org_id app_id s) (\<lambda>_. be_list_tokens (tm_store M) org_id app_id s))"

definition revoke_token ::
  "('s, 'n) tenant_manager \<Rightarrow> string \<Rightarrow> string \<Rightarrow> ('s, err, enrollment_token) op" where
  "revoke_token M org_id token_id =
     bindE (readE (get_token M org_id token_id)) (\<lambda>token0.
       if tok_revoked token0 then failE (TokenAlreadyRevoked token_id)
       else
         let token = token0\<lparr>tok_revoked := True\<rparr>
         in seqE (be_update_token (tm_store M) token) (retE token))"

definition delete_token :: "('s, 'n) tenant_manager \<Rightarrow> string \<Rightarrow> string \<Rightarrow> ('s, err, unit) op" where
  "delete_token M org_id token_id =
     bindE (be_delete_token (tm_store M) org_id token_id) (\<lambda>found.
       if \<not> found then failE (TokenNotFound token_id org_id) else retE ())"

text \<open>The checks of \<open>validate_and_consume_token\<close> on the token it read, at the time \<open>now\<close>.\<close>

definition check_token :: "u64 \<Rightarrow> string \<Rightarrow> string \<Rightarrow> enrollment_token \<Rightarrow> err + unit" where
  "check_token now app_id token_id token =
     (if tok_app_id token \<noteq> app_id then Inl (TokenWrongFormation app_id)
      else if tok_revoked token then Inl (TokenRevoked token_id)
      else if (case tok_expires_at token of None \<Rightarrow> False | Some expires_at \<Rightarrow> now > expires_at)
        then Inl (TokenExpired token_id)
      else (case tok_max_uses token of
              None \<Rightarrow> Inr ()
            | Some max_uses \<Rightarrow>
                if tok_uses token \<ge> max_uses then Inl (TokenExhausted token_id max_uses) else Inr ()))"

definition validate_and_consume_token ::
  "('s, 'n) tenant_manager \<Rightarrow> u64 \<Rightarrow> string \<Rightarrow> string \<Rightarrow> string \<Rightarrow> ('s, err, enrollment_token) op" where
  "validate_and_consume_token M now org_id app_id token_id =
     bindE (readE (get_token M org_id token_id)) (\<lambda>token0.
     seqE (liftE (check_token now app_id token_id token0))
       (let token = token0\<lparr>tok_uses := tok_uses token0 + 1\<rparr>
        in seqE (be_update_token (tm_store M) token) (retE token)))"

section \<open>CDC sinks and cursors\<close>

definition create_sink ::
  "('k, 'g) mesh_crates \<Rightarrow> ('s, 'n) tenant_manager \<Rightarrow> bytes \<Rightarrow> u64 \<Rightarrow> string \<Rightarrow> cdc_sink_type
     \<Rightarrow> ('s, err, cdc_sink_config) op" where
  "create_sink K M buf now org_id sink_type =
     seqE (liftE (validate_sink_type sink_type))
     (bindE (readE (get_org M org_id)) (\<lambda>org.
      bindE (readE (be_list_sinks (tm_store M) org_id)) (\<lambda>existing.
        if max_cdc_sinks (org_quotas org) \<le> (of_nat (length existing) :: u32)
        then failE (SinkQuota org_id (max_cdc_sinks (org_quotas org)))
        else
          let sink = \<lparr>sink_sink_id = mc_hex_encode K buf, sink_org_id = org_id,
                      sink_sink_type = sink_type, sink_enabled = True, sink_created_at = now\<rparr>
          in seqE (be_create_sink (tm_store M) sink) (retE sink))))"

definition get_sink ::
  "('s, 'n) tenant_manager \<Rightarrow> string \<Rightarrow> string \<Rightarrow> 's \<Rightarrow> err + cdc_sink_config" where
  "get_sink M org_id sink_id s =
     bindR (be_get_sink (tm_store M) org_id sink_id s) (\<lambda>r. ok_or r (SinkNotFound sink_id org_id))"

definition list_sinks :: "('s, 'n) tenant_manager \<Rightarrow> string \<Rightarrow> 's \<Rightarrow> err + cdc_sink_config list" where
  "list_sinks M org_id s = bindR (get_org M org_id s) (\<lambda>_. be_list_sinks (tm_store M) org_id s)"

definition toggle_sink ::
  "('s, 'n) tenant_manager \<Rightarrow> string \<Rightarrow> string \<Rightarrow> bool \<Rightarrow> ('s, err, cdc_sink_config) op" where
  "toggle_sink M org_id sink_id enabled =
     bindE (readE (get_sink M org_id sink_id)) (\<lambda>sink0.
       let sink = sink0\<lparr>sink_enabled := enabled\<rparr>
       in seqE (be_update_sink (tm_store M) sink) (retE sink))"

definition delete_sink :: "('s, 'n) tenant_manager \<Rightarrow> string \<Rightarrow> string \<Rightarrow> ('s, err, unit) op" where
  "delete_sink M org_id sink_id =
     bindE (be_delete_sink (tm_store M) org_id sink_id) (\<lambda>found.
       if \<not> found then failE (SinkNotFound sink_id org_id) else retE ())"

definition get_cursor ::
  "('s, 'n) tenant_manager \<Rightarrow> string \<Rightarrow> string \<Rightarrow> string \<Rightarrow> 's \<Rightarrow> err + string option" where
  "get_cursor M org_id app_id document_id = be_get_cursor (tm_store M) org_id app_id document_id"

definition set_cursor ::
  "('s, 'n) tenant_manager \<Rightarrow> string \<Rightarrow> string \<Rightarrow> string \<Rightarrow> string \<Rightarrow> ('s, err, unit) op" where
  "set_cursor M org_id app_id document_id change_hash =
     be_set_cursor (tm_store M) org_id app_id document_id change_hash"

section \<open>Identity providers, policy rules, audit\<close>

definition create_idp ::
  "('k, 'g) mesh_crates \<Rightarrow> ('s, 'n) tenant_manager \<Rightarrow> bytes \<Rightarrow> u64 \<Rightarrow> string \<Rightarrow> string \<Rightarrow> string \<Rightarrow> string
     \<Rightarrow> ('s, err, idp_config) op" where
  "create_idp K M buf now org_id issuer_url client_id client_secret =
     seqE (liftE (validate_issuer_url issuer_url))
     (seqE (liftE (validate_non_empty client_id ''client_id''))
     (seqE (liftE (validate_non_empty client_secret ''client_secret''))
     (seqE (readE (get_org M org_id))
       (let idp = \<lparr>idp_idp_id = mc_hex_encode K buf, idp_org_id = org_id,
                   idp_issuer_url = issuer_url, idp_client_id = client_id,
                   idp_client_secret = client_secret, idp_enabled = True, idp_created_at = now\<rparr>
        in seqE (be_create_idp (tm_store M) idp) (retE idp)))))"

definition get_idp :: "('s, 'n) tenant_manager \<Rightarrow> string \<Rightarrow> string \<Rightarrow> 's \<Rightarrow> err + idp_config" where
  "get_idp M org_id idp_id s =
     bindR (be_get_idp (tm_store M) org_id idp_id s) (\<lambda>r. ok_or r (IdpNotFound idp_id org_id))"

definition list_idps :: "('s, 'n) tenant_manager \<Rightarrow> string \<Rightarrow> 's \<Rightarrow> err + idp_config list" where
  "list_idps M org_id s = bindR (get_org M org_id s) (\<lambda>_. be_list_idps (tm_store M) org_id s)"

definition toggle_idp ::
  "('s, 'n) tenant_manager \<Rightarrow> string \<Rightarrow> string \<Rightarrow> bool \<Rightarrow> ('s, err, idp_config) op" where
  "toggle_idp M org_id idp_id enabled =
     bindE (readE (get_idp M org_id idp_id)) (\<lambda>idp0.
       let idp = idp0\<lparr>idp_enabled := enabled\<rparr>
       in seqE (be_update_idp (tm_store M) idp) (retE idp))"

definition delete_idp :: "('s, 'n) tenant_manager \<Rightarrow> string \<Rightarrow> string \<Rightarrow> ('s, err, unit) op" where
  "delete_idp M org_id idp_id =
     bindE (be_delete_idp (tm_store M) org_id idp_id) (\<lambda>found.
       if \<not> found then failE (IdpNotFound idp_id org_id) else retE ())"

definition create_policy_rule ::
  "('k, 'g) mesh_crates \<Rightarrow> ('s, 'n) tenant_manager \<Rightarrow> bytes \<Rightarrow> string \<Rightarrow> string \<Rightarrow> string \<Rightarrow> mesh_tier
     \<Rightarrow> u32 \<Rightarrow> u32 \<Rightarrow> ('s, err, policy_rule) op" where
  "create_policy_rule K M buf org_id claim_key claim_value tier permissions priority =
     seqE (readE (get_org M org_id))
       (let rule = \<lparr>rule_rule_id = mc_hex_encode K buf, rule_org_id = org_id,
                    rule_claim_key = claim_key, rule_claim_value = claim_value, rule_tier = tier,
                    rule_permissions = permissions, rule_priority = priority\<rparr>
        in seqE (be_create_policy_rule (tm_store M) rule) (retE rule))"

definition list_policy_rules :: "('s, 'n) tenant_manager \<Rightarrow> string \<Rightarrow> 's \<Rightarrow> err + policy_rule list" where
  "list_policy_rules M org_id s =
     bindR (get_org M org_id s) (\<lambda>_. be_list_policy_rules (tm_store M) org_id s)"

definition delete_policy_rule ::
  "('s, 'n) tenant_manager \<Rightarrow> string \<Rightarrow> string \<Rightarrow> ('s, err, unit) op" where
  "delete_policy_rule M org_id rule_id =
     bindE (be_delete_policy_rule (tm_store M) org_id rule_id) (\<lambda>found.
       if \<not> found then failE (RuleNotFound rule_id org_id) else retE ())"

definition append_audit :: "('s, 'n) tenant_manager \<Rightarrow> audit_entry \<Rightarrow> ('s, err, unit) op" where
  "append_audit M entry = be_append_audit (tm_store M) entry"

definition list_audit ::
  "('s, 'n) tenant_manager \<Rightarrow> string \<Rightarrow> string option \<Rightarrow> nat \<Rightarrow> 's \<Rightarrow> err + audit_entry list" where
  "list_audit M org_id app_id limit s =
     bindR (get_org M org_id s) (\<lambda>_. be_list_audit (tm_store M) org_id app_id limit s)"

section \<open>Validation\<close>

text \<open>The regular expression the comment of \<open>validate_identifier\<close> states, with its length.\<close>

definition is_identifier :: "string \<Rightarrow> bool" where
  "is_identifier s \<longleftrightarrow>
     (\<exists>c cs. s = c # cs \<and> is_ascii_alphanumeric c \<and> list_all identifier_byte cs \<and> length cs < 128)"

lemma validate_identifier_iff: "validate_identifier s f = Inr () \<longleftrightarrow> is_identifier s"
  by (cases s)
    (auto simp: validate_identifier_def is_identifier_def index_def MAX_IDENTIFIER_LEN_def
      identifier_byte_def)

lemma nul_not_identifier: "\<not> identifier_byte nul" "\<not> is_ascii_alphanumeric nul" "\<not> is_lower_hex nul"
  by (auto simp: identifier_byte_def is_lower_hex_def is_ascii_alphanumeric_def
      is_ascii_alphabetic_def is_ascii_digit_def nul_def less_eq_char_def of_char_of char_of_def)

lemma identifier_nul_free: "is_identifier s \<Longrightarrow> nul_free s"
  using nul_not_identifier by (auto simp: is_identifier_def nul_free_iff list_all_iff)

lemma hex_nul_free: "mesh_crates_ok K \<Longrightarrow> nul_free (mc_hex_encode K b)"
  using nul_not_identifier by (auto simp: mesh_crates_ok_def nul_free_iff list_all_iff)

lemma token_id_nul_free: "mesh_crates_ok K \<Longrightarrow> nul_free (''peat_'' @ mc_hex_encode K b)"
  using hex_nul_free [of K b] by (simp add: nul_free_iff nul_def char_of_def)

section \<open>Requests\<close>

text \<open>
  The state-changing methods of the manager as requests, so that histories of them can be quantified
  over. A request carries the outside inputs of its call (clock, random bytes).
\<close>

datatype 'n request =
    CreateOrg u64 string string
  | UpdateOrg string "string option" "org_quotas option"
  | DeleteOrg string
  | CreateFormation bytes "'n seal_env" string string enrollment_policy
  | DeleteFormation string string
  | CreateToken bytes u64 string string string "u32 option" "u64 option"
  | RevokeToken string string
  | DeleteToken string string
  | ConsumeToken u64 string string string
  | CreateSink bytes u64 string cdc_sink_type
  | ToggleSink string string bool
  | DeleteSink string string
  | CreateIdp bytes u64 string string string string
  | ToggleIdp string string bool
  | DeleteIdp string string
  | CreateRule bytes string string string mesh_tier u32 u32
  | DeleteRule string string
  | AppendAudit audit_entry
  | SetCursor string string string string

abbreviation void :: "('s, err, 'a) op \<Rightarrow> ('s, err, unit) op" where
  "void m \<equiv> mapE (\<lambda>_. ()) m"

fun exec :: "('k, 'g) mesh_crates \<Rightarrow> ('s, 'n) tenant_manager \<Rightarrow> 'n request \<Rightarrow> ('s, err, unit) op" where
  "exec K M (CreateOrg now k name) = void (create_org M now k name)"
| "exec K M (UpdateOrg k name q) = void (update_org M k name q)"
| "exec K M (DeleteOrg k) = delete_org M k"
| "exec K M (CreateFormation en r k c pol) = void (create_formation K M en r k c pol)"
| "exec K M (DeleteFormation k c) = delete_formation M k c"
| "exec K M (CreateToken b now k c l mu ex) = void (create_token K M b now k c l mu ex)"
| "exec K M (RevokeToken k c) = void (revoke_token M k c)"
| "exec K M (DeleteToken k c) = delete_token M k c"
| "exec K M (ConsumeToken now k app c) = void (validate_and_consume_token M now k app c)"
| "exec K M (CreateSink b now k st) = void (create_sink K M b now k st)"
| "exec K M (ToggleSink k c en) = void (toggle_sink M k c en)"
| "exec K M (DeleteSink k c) = delete_sink M k c"
| "exec K M (CreateIdp b now k u ci cs) = void (create_idp K M b now k u ci cs)"
| "exec K M (ToggleIdp k c en) = void (toggle_idp M k c en)"
| "exec K M (DeleteIdp k c) = delete_idp M k c"
| "exec K M (CreateRule b k ck cv t pm pr) = void (create_policy_rule K M b k ck cv t pm pr)"
| "exec K M (DeleteRule k c) = delete_policy_rule M k c"
| "exec K M (AppendAudit e) = append_audit M e"
| "exec K M (SetCursor k c d h) = set_cursor M k c d h"

text \<open>The organization a request names.\<close>

fun request_org :: "'n request \<Rightarrow> string" where
  "request_org (CreateOrg now k name) = k"
| "request_org (UpdateOrg k name q) = k"
| "request_org (DeleteOrg k) = k"
| "request_org (CreateFormation en r k c pol) = k"
| "request_org (DeleteFormation k c) = k"
| "request_org (CreateToken b now k c l mu ex) = k"
| "request_org (RevokeToken k c) = k"
| "request_org (DeleteToken k c) = k"
| "request_org (ConsumeToken now k app c) = k"
| "request_org (CreateSink b now k st) = k"
| "request_org (ToggleSink k c en) = k"
| "request_org (DeleteSink k c) = k"
| "request_org (CreateIdp b now k u ci cs) = k"
| "request_org (ToggleIdp k c en) = k"
| "request_org (DeleteIdp k c) = k"
| "request_org (CreateRule b k ck cv t pm pr) = k"
| "request_org (DeleteRule k c) = k"
| "request_org (AppendAudit e) = aud_org_id e"
| "request_org (SetCursor k c d h) = k"

text \<open>
  The identifiers the manager passes on unchecked must hold no null byte: the organization of a
  deletion, an audit entry or a cursor, and a cursor's formation.
\<close>

fun request_ok :: "'n request \<Rightarrow> bool" where
  "request_ok (DeleteOrg k) = nul_free k"
| "request_ok (AppendAudit e) = nul_free (aud_org_id e)"
| "request_ok (SetCursor k c d h) = (nul_free k \<and> nul_free c)"
| "request_ok _ = True"

text \<open>A history: requests served one after the other, failed ones included.\<close>

primrec serve ::
  "('k, 'g) mesh_crates \<Rightarrow> ('s, 'n) tenant_manager \<Rightarrow> 'n request list \<Rightarrow> 's \<Rightarrow> 's" where
  "serve K M [] s = s"
| "serve K M (q # qs) s = serve K M qs (snd (exec K M q s))"

end
