(* ===== verification/Tenant_Contract.thy ===== *)
theory Tenant_Contract
  imports Tenant
begin

text \<open>
  What the tenant manager guarantees on any backend that keeps the storage contract. The locale
  \<open>tenant_service\<close> is a manager on such a backend; its lemmas say what each operation does to the
  abstract store, and that an operation of one organization leaves the others alone.
\<close>

section \<open>What one organization owns\<close>

definition org_view :: "string \<Rightarrow> abs_store \<Rightarrow>
    organization option \<times> (string \<rightharpoonup> formation_config) \<times> (string \<rightharpoonup> enrollment_token) \<times>
    (string \<rightharpoonup> cdc_sink_config) \<times> (string \<rightharpoonup> idp_config) \<times> (string \<rightharpoonup> policy_rule) \<times>
    (u64 \<times> string \<rightharpoonup> audit_entry) \<times> (string \<rightharpoonup> bytes) \<times> (string \<times> string \<rightharpoonup> string)" where
  "org_view k a =
     (a_orgs a k, \<lambda>c. a_formations a (k, c), \<lambda>c. a_tokens a (k, c), \<lambda>c. a_sinks a (k, c),
      \<lambda>c. a_idps a (k, c), \<lambda>c. a_rules a (k, c), \<lambda>c. a_audit a (k, c), \<lambda>c. a_genesis a (k, c),
      \<lambda>c. a_cursors a (k, c))"

definition others_same :: "string \<Rightarrow> abs_store \<Rightarrow> abs_store \<Rightarrow> bool" where
  "others_same k a a' \<longleftrightarrow> (\<forall>j. j \<noteq> k \<longrightarrow> org_view j a' = org_view j a)"

lemma others_same_refl [simp]: "others_same k a a"
  by (simp add: others_same_def)

lemma others_same_trans: "others_same k a b \<Longrightarrow> others_same k b c \<Longrightarrow> others_same k a c"
  by (simp add: others_same_def)

lemma others_same_upd [simp]:
  "others_same k a (a\<lparr>a_orgs := (a_orgs a)(k := x1)\<rparr>)"
  "others_same k a (a\<lparr>a_formations := (a_formations a)((k, c) := x2)\<rparr>)"
  "others_same k a (a\<lparr>a_tokens := (a_tokens a)((k, c) := x3)\<rparr>)"
  "others_same k a (a\<lparr>a_sinks := (a_sinks a)((k, c) := x4)\<rparr>)"
  "others_same k a (a\<lparr>a_idps := (a_idps a)((k, c) := x5)\<rparr>)"
  "others_same k a (a\<lparr>a_rules := (a_rules a)((k, c) := x6)\<rparr>)"
  "others_same k a (a\<lparr>a_audit := (a_audit a)((k, t) := x7)\<rparr>)"
  "others_same k a (a\<lparr>a_genesis := (a_genesis a)((k, c) := x8)\<rparr>)"
  "others_same k a (a\<lparr>a_cursors := (a_cursors a)((k, d) := x9)\<rparr>)"
  by (simp_all add: others_same_def org_view_def)

text \<open>The same, for operations that leave every enrollment token alone too.\<close>

definition quiet :: "string \<Rightarrow> abs_store \<Rightarrow> abs_store \<Rightarrow> bool" where
  "quiet k a a' \<longleftrightarrow> others_same k a a' \<and> a_tokens a' = a_tokens a"

lemma frame_preorders [simp]:
  "reflp (others_same k)" "transp (others_same k)" "reflp (quiet k)" "transp (quiet k)"
  by (auto simp: reflp_def transp_def quiet_def others_same_def)

lemma org_removed_others: "org_removed k a a' \<Longrightarrow> others_same k a a'"
  by (simp add: org_removed_def drops_rows_def others_same_def org_view_def fun_eq_iff)

text \<open>The requests about tokens; those that make the token \<open>(k, c)\<close>, and those that consume it.\<close>

fun token_request :: "'n request \<Rightarrow> bool" where
  "token_request (DeleteOrg k) = True"
| "token_request (CreateToken b now k c l mu ex) = True"
| "token_request (RevokeToken k c) = True"
| "token_request (DeleteToken k c) = True"
| "token_request (ConsumeToken now k app c) = True"
| "token_request _ = False"

fun makes_token :: "('k, 'g) mesh_crates \<Rightarrow> string \<Rightarrow> string \<Rightarrow> 'n request \<Rightarrow> bool" where
  "makes_token K k c (CreateToken b now j app l mu ex) =
     (j = k \<and> ''peat_'' @ mc_hex_encode K b = c)"
| "makes_token K k c _ = False"

fun consumes_token :: "string \<Rightarrow> string \<Rightarrow> 'n request \<Rightarrow> bool" where
  "consumes_token k c (ConsumeToken now j app d) = (j = k \<and> d = c)"
| "consumes_token k c _ = False"

text \<open>The token is gone, or its counter and its limit are what they were.\<close>

definition token_fixed :: "string \<Rightarrow> string \<Rightarrow> abs_store \<Rightarrow> abs_store \<Rightarrow> bool" where
  "token_fixed k c a a' \<longleftrightarrow>
     (case a_tokens a' (k, c) of
        None \<Rightarrow> True
      | Some t' \<Rightarrow> \<exists>t. a_tokens a (k, c) = Some t \<and> tok_uses t' = tok_uses t \<and>
          tok_max_uses t' = tok_max_uses t)"

text \<open>How many times a history consumes the token, and how many uses it has left.\<close>

primrec granted ::
  "('k, 'g) mesh_crates \<Rightarrow> ('s, 'n) tenant_manager \<Rightarrow> string \<Rightarrow> string \<Rightarrow> 'n request list \<Rightarrow> 's \<Rightarrow> nat" where
  "granted K M k c [] s = 0"
| "granted K M k c (q # qs) s =
     (if consumes_token k c q \<and> is_ok (fst (exec K M q s)) then 1 else 0) +
     granted K M k c qs (snd (exec K M q s))"

definition uses_left :: "string \<Rightarrow> string \<Rightarrow> abs_store \<Rightarrow> nat" where
  "uses_left k c a =
     (case a_tokens a (k, c) of
        None \<Rightarrow> 0
      | Some t \<Rightarrow> (case tok_max_uses t of None \<Rightarrow> 0 | Some m \<Rightarrow> unat m - unat (tok_uses t)))"

definition token_limited :: "string \<Rightarrow> string \<Rightarrow> abs_store \<Rightarrow> bool" where
  "token_limited k c a \<longleftrightarrow> (\<forall>t. a_tokens a (k, c) = Some t \<longrightarrow> tok_max_uses t \<noteq> None)"

section \<open>A manager on a backend that keeps the contract\<close>

locale tenant_service = storage_contract "tm_store M" \<alpha> invar
  for M :: "('s, 'n) tenant_manager" and \<alpha> and invar
begin

subsection \<open>Reads\<close>

lemma get_org_Inr:
  assumes "invar s" and "get_org M k s = Inr x"
  shows "a_orgs (\<alpha> s) k = Some x" and "org_org_id x = k" and "nul_free k"
proof -
  show "a_orgs (\<alpha> s) k = Some x"
    using assms rdD [OF get_org] by (auto simp: get_org_def result_iffs)
  then show "org_org_id x = k" "nul_free k"
    using wf [OF assms(1)] by (auto simp: abs_wf_def)
qed

lemma get_formation_Inr:
  "invar s \<Longrightarrow> get_formation M k c s = Inr x \<Longrightarrow> a_formations (\<alpha> s) (k, c) = Some x"
  using rdD [OF get_formation] by (auto simp: get_formation_def result_iffs)

lemma get_token_Inr:
  assumes "invar s" and "get_token M k c s = Inr x"
  shows "a_tokens (\<alpha> s) (k, c) = Some x" and "tok_org_id x = k" and "tok_token_id x = c"
    and "nul_free k" and "nul_free c"
proof -
  show "a_tokens (\<alpha> s) (k, c) = Some x"
    using assms rdD [OF get_token] by (auto simp: get_token_def result_iffs)
  then show "tok_org_id x = k" "tok_token_id x = c" "nul_free k" "nul_free c"
    using wf [OF assms(1)] by (auto simp: abs_wf_def)
qed

lemma get_sink_Inr:
  assumes "invar s" and "get_sink M k c s = Inr x"
  shows "a_sinks (\<alpha> s) (k, c) = Some x" and "sink_org_id x = k" and "sink_sink_id x = c"
    and "nul_free k" and "nul_free c"
proof -
  show "a_sinks (\<alpha> s) (k, c) = Some x"
    using assms rdD [OF get_sink] by (auto simp: get_sink_def result_iffs)
  then show "sink_org_id x = k" "sink_sink_id x = c" "nul_free k" "nul_free c"
    using wf [OF assms(1)] by (auto simp: abs_wf_def)
qed

lemma get_idp_Inr:
  assumes "invar s" and "get_idp M k c s = Inr x"
  shows "a_idps (\<alpha> s) (k, c) = Some x" and "idp_org_id x = k" and "idp_idp_id x = c"
    and "nul_free k" and "nul_free c"
proof -
  show "a_idps (\<alpha> s) (k, c) = Some x"
    using assms rdD [OF get_idp] by (auto simp: get_idp_def result_iffs)
  then show "idp_org_id x = k" "idp_idp_id x = c" "nul_free k" "nul_free c"
    using wf [OF assms(1)] by (auto simp: abs_wf_def)
qed

subsection \<open>Isolation\<close>

text \<open>\<open>f\<close> keeps the invariant and relates the stores before and after, whether it fails or not.\<close>

definition keeps :: "(abs_store \<Rightarrow> abs_store \<Rightarrow> bool) \<Rightarrow> ('s, err, 'a) op \<Rightarrow> bool" where
  "keeps R f \<longleftrightarrow> (\<forall>s r s'. invar s \<longrightarrow> f s = (r, s') \<longrightarrow> invar s' \<and> R (\<alpha> s) (\<alpha> s'))"

lemma keepsD: "keeps R f \<Longrightarrow> invar s \<Longrightarrow> f s = (r, s') \<Longrightarrow> invar s' \<and> R (\<alpha> s) (\<alpha> s')"
  by (simp add: keeps_def)

lemma keeps_mono: "keeps R f \<Longrightarrow> (\<And>a a'. R a a' \<Longrightarrow> Q a a') \<Longrightarrow> keeps Q f"
  by (auto simp: keeps_def)

lemma keeps_quiet: "keeps (quiet k) f \<Longrightarrow> keeps (others_same k) f"
  by (erule keeps_mono) (simp add: quiet_def)

lemma keeps_pure [intro, simp]:
  assumes "reflp R"
  shows "keeps R (readE g)" "keeps R (liftE x)" "keeps R (retE y)" "keeps R (failE e)"
  using assms by (simp_all add: keeps_def op_iffs reflp_def)

lemma keeps_wr:
  assumes "wr invar \<alpha> f T" and "reflp R" and "\<And>a x a'. T a x a' \<Longrightarrow> R a a'"
  shows "keeps R f"
  unfolding keeps_def
proof (intro allI impI)
  fix s r s'
  assume *: "invar s" "f s = (r, s')"
  show "invar s' \<and> R (\<alpha> s) (\<alpha> s')"
  proof (cases r)
    case (Inl e)
    with wr_err [OF assms(1) *(1)] *(2) assms(2) show ?thesis by (simp add: reflp_def)
  next
    case (Inr x)
    with wr_ok [OF assms(1) *(1)] *(2) assms(3) show ?thesis by blast
  qed
qed

lemma keeps_bind:
  assumes "transp R" and "keeps R m" and "\<And>s x s'. invar s \<Longrightarrow> m s = (Inr x, s') \<Longrightarrow> keeps R (f x)"
  shows "keeps R (bindE m f)"
  unfolding keeps_def
proof (intro allI impI)
  fix s r s'
  assume s: "invar s" and run: "bindE m f s = (r, s')"
  obtain q t where m: "m s = (q, t)" by (cases "m s")
  note t = keepsD [OF assms(2) s m]
  show "invar s' \<and> R (\<alpha> s) (\<alpha> s')"
  proof (cases q)
    case (Inl e)
    with m run have "s' = t" by (simp add: bindE_def)
    with t show ?thesis by simp
  next
    case (Inr x)
    with m run have "f x t = (r, s')" by (simp add: bindE_def)
    with keepsD [OF assms(3) [OF s]] m Inr t show ?thesis
      by (meson transpE assms(1))
  qed
qed

lemma keeps_seq: "transp R \<Longrightarrow> keeps R m \<Longrightarrow> (\<And>s x s'. invar s \<Longrightarrow> m s = (Inr x, s') \<Longrightarrow> keeps R n) \<Longrightarrow>
    keeps R (seqE m n)"
  unfolding seqE_def by (rule keeps_bind)

lemma keeps_ignore: "keeps R m \<Longrightarrow> keeps R (ignoreE m)"
  unfolding keeps_def ignoreE_def by (metis prod.collapse prod.inject)

lemmas storage_writes =
  create_org update_org delete_org create_formation delete_formation store_genesis delete_genesis
  create_token update_token delete_token create_sink update_sink delete_sink create_idp update_idp
  delete_idp create_policy_rule delete_policy_rule append_audit set_cursor

lemma keeps_storage:
  "nul_free (org_org_id x) \<Longrightarrow> org_org_id x = k \<Longrightarrow> keeps (quiet k) (be_create_org (tm_store M) x)"
  "nul_free (org_org_id x) \<Longrightarrow> org_org_id x = k \<Longrightarrow> keeps (quiet k) (be_update_org (tm_store M) x)"
  "nul_free k \<Longrightarrow> keeps (others_same k) (be_delete_org (tm_store M) k)"
  "nul_free k \<Longrightarrow> nul_free (form_app_id f) \<Longrightarrow> keeps (quiet k) (be_create_formation (tm_store M) k f)"
  "keeps (quiet k) (be_delete_formation (tm_store M) k c)"
  "nul_free k \<Longrightarrow> nul_free c \<Longrightarrow> keeps (quiet k) (be_store_genesis (tm_store M) k c g)"
  "keeps (quiet k) (be_delete_genesis (tm_store M) k c)"
  "nul_free (tok_org_id t) \<Longrightarrow> nul_free (tok_token_id t) \<Longrightarrow> tok_org_id t = k \<Longrightarrow>
     keeps (others_same k) (be_create_token (tm_store M) t)"
  "nul_free (tok_org_id t) \<Longrightarrow> nul_free (tok_token_id t) \<Longrightarrow> tok_org_id t = k \<Longrightarrow>
     keeps (others_same k) (be_update_token (tm_store M) t)"
  "keeps (others_same k) (be_delete_token (tm_store M) k c)"
  "nul_free (sink_org_id n) \<Longrightarrow> nul_free (sink_sink_id n) \<Longrightarrow> sink_org_id n = k \<Longrightarrow>
     keeps (quiet k) (be_create_sink (tm_store M) n)"
  "nul_free (sink_org_id n) \<Longrightarrow> nul_free (sink_sink_id n) \<Longrightarrow> sink_org_id n = k \<Longrightarrow>
     keeps (quiet k) (be_update_sink (tm_store M) n)"
  "keeps (quiet k) (be_delete_sink (tm_store M) k c)"
  "nul_free (idp_org_id i) \<Longrightarrow> nul_free (idp_idp_id i) \<Longrightarrow> idp_org_id i = k \<Longrightarrow>
     keeps (quiet k) (be_create_idp (tm_store M) i)"
  "nul_free (idp_org_id i) \<Longrightarrow> nul_free (idp_idp_id i) \<Longrightarrow> idp_org_id i = k \<Longrightarrow>
     keeps (quiet k) (be_update_idp (tm_store M) i)"
  "keeps (quiet k) (be_delete_idp (tm_store M) k c)"
  "nul_free (rule_org_id r) \<Longrightarrow> nul_free (rule_rule_id r) \<Longrightarrow> rule_org_id r = k \<Longrightarrow>
     keeps (quiet k) (be_create_policy_rule (tm_store M) r)"
  "keeps (quiet k) (be_delete_policy_rule (tm_store M) k c)"
  "nul_free (aud_org_id e) \<Longrightarrow> aud_org_id e = k \<Longrightarrow> keeps (quiet k) (be_append_audit (tm_store M) e)"
  "nul_free k \<Longrightarrow> nul_free c \<Longrightarrow> keeps (quiet k) (be_set_cursor (tm_store M) k c d h)"
  by (rule keeps_wr, rule storage_writes, auto simp: quiet_def org_removed_others)+

text \<open>The mutating methods, one by one.\<close>

lemma keeps_create_org: "keeps (quiet k) (create_org M now k name)"
  unfolding create_org_def Let_def
  by (intro keeps_seq keeps_bind keeps_pure)
    (auto simp: liftE_eq validate_identifier_iff intro!: keeps_seq keeps_storage(1)
      intro: identifier_nul_free)

lemma keeps_update_org: "keeps (quiet k) (update_org M k name q)"
  unfolding update_org_def Let_def
proof (intro keeps_bind keeps_pure)
  fix s org s'
  assume "invar s" "readE (get_org M k) s = (Inr org, s')"
  then have org: "org_org_id org = k" "nul_free k"
    by (auto simp: readE_eq get_org_Inr)
  let ?org = "case q of
      None \<Rightarrow> case name of None \<Rightarrow> org | Some n \<Rightarrow> org\<lparr>org_display_name := n\<rparr>
    | Some y \<Rightarrow> (case name of None \<Rightarrow> org | Some n \<Rightarrow> org\<lparr>org_display_name := n\<rparr>)\<lparr>org_quotas := y\<rparr>"
  have "org_org_id ?org = k" using org by (simp split: option.splits)
  with org show "keeps (quiet k) (seqE (be_update_org (tm_store M) ?org) (retE ?org))"
    by (intro keeps_seq keeps_storage(2) keeps_pure) simp_all
qed simp_all

lemma keeps_delete_org: "nul_free k \<Longrightarrow> keeps (others_same k) (delete_org M k)"
  unfolding delete_org_def by (rule keeps_bind [OF _ keeps_storage(3)]) auto

lemma keeps_create_formation: "keeps (quiet k) (create_formation K M en r k c pol)"
  unfolding create_formation_def Let_def
  by (intro keeps_seq keeps_bind keeps_pure)
    (auto simp: liftE_eq readE_eq validate_identifier_iff get_org_Inr identifier_nul_free
      intro!: keeps_seq keeps_bind keeps_storage(4,6))

lemma keeps_delete_formation: "keeps (quiet k) (delete_formation M k c)"
  unfolding delete_formation_def
  by (rule keeps_bind [OF _ keeps_storage(5)]) (auto intro: keeps_ignore keeps_storage(7))

lemma keeps_create_token:
  "mesh_crates_ok K \<Longrightarrow> keeps (others_same k) (create_token K M b now k c l mu ex)"
  unfolding create_token_def Let_def
  using token_id_nul_free [of K b]
  by (intro keeps_seq keeps_bind keeps_pure keeps_storage(8))
    (auto simp: readE_eq dest: get_org_Inr)

lemma keeps_revoke_token: "keeps (others_same k) (revoke_token M k c)"
  unfolding revoke_token_def Let_def
  by (intro keeps_bind keeps_pure)
    (auto simp: readE_eq get_token_Inr intro!: keeps_seq keeps_storage(9))

lemma keeps_delete_token: "keeps (others_same k) (delete_token M k c)"
  unfolding delete_token_def by (rule keeps_bind [OF _ keeps_storage(10)]) auto

lemma keeps_consume_token: "keeps (others_same k) (validate_and_consume_token M now k app c)"
  unfolding validate_and_consume_token_def Let_def
  by (intro keeps_seq keeps_bind keeps_pure keeps_storage(9))
    (auto simp: readE_eq get_token_Inr)

lemma keeps_create_sink: "mesh_crates_ok K \<Longrightarrow> keeps (quiet k) (create_sink K M b now k st)"
  unfolding create_sink_def Let_def
  by (intro keeps_seq keeps_bind keeps_pure)
    (auto simp: readE_eq get_org_Inr hex_nul_free intro!: keeps_seq keeps_storage(11))

lemma keeps_toggle_sink: "keeps (quiet k) (toggle_sink M k c en)"
  unfolding toggle_sink_def Let_def
  by (intro keeps_seq keeps_bind keeps_pure keeps_storage(12)) (auto simp: readE_eq get_sink_Inr)

lemma keeps_delete_sink: "keeps (quiet k) (delete_sink M k c)"
  unfolding delete_sink_def by (rule keeps_bind [OF _ keeps_storage(13)]) auto

lemma keeps_create_idp: "mesh_crates_ok K \<Longrightarrow> keeps (quiet k) (create_idp K M b now k u ci cs)"
  unfolding create_idp_def Let_def
  by (intro keeps_seq keeps_bind keeps_pure keeps_storage(14))
    (auto simp: readE_eq get_org_Inr hex_nul_free)

lemma keeps_toggle_idp: "keeps (quiet k) (toggle_idp M k c en)"
  unfolding toggle_idp_def Let_def
  by (intro keeps_seq keeps_bind keeps_pure keeps_storage(15)) (auto simp: readE_eq get_idp_Inr)

lemma keeps_delete_idp: "keeps (quiet k) (delete_idp M k c)"
  unfolding delete_idp_def by (rule keeps_bind [OF _ keeps_storage(16)]) auto

lemma keeps_create_policy_rule: "mesh_crates_ok K \<Longrightarrow> keeps (quiet k) (create_policy_rule K M b k ck cv t pm pr)"
  unfolding create_policy_rule_def Let_def
  by (intro keeps_seq keeps_bind keeps_pure keeps_storage(17))
    (auto simp: readE_eq get_org_Inr hex_nul_free)

lemma keeps_delete_policy_rule: "keeps (quiet k) (delete_policy_rule M k c)"
  unfolding delete_policy_rule_def by (rule keeps_bind [OF _ keeps_storage(18)]) auto

lemma keeps_append_audit: "nul_free (aud_org_id e) \<Longrightarrow> keeps (quiet (aud_org_id e)) (append_audit M e)"
  unfolding append_audit_def by (rule keeps_storage(19)) auto

lemma keeps_set_cursor: "nul_free k \<Longrightarrow> nul_free c \<Longrightarrow> keeps (quiet k) (set_cursor M k c d h)"
  unfolding set_cursor_def by (rule keeps_storage(20))

lemma keeps_void: "keeps R m \<Longrightarrow> keeps R (void m)"
  by (auto simp: keeps_def mapE_eq)

lemmas quiet_methods =
  keeps_create_org keeps_update_org keeps_create_formation keeps_delete_formation keeps_create_sink
  keeps_toggle_sink keeps_delete_sink keeps_create_idp keeps_toggle_idp keeps_delete_idp
  keeps_create_policy_rule keeps_delete_policy_rule keeps_append_audit keeps_set_cursor

lemmas token_methods =
  keeps_delete_org keeps_create_token keeps_revoke_token keeps_delete_token keeps_consume_token

lemma keeps_exec:
  "mesh_crates_ok K \<Longrightarrow> request_ok q \<Longrightarrow> keeps (others_same (request_org q)) (exec K M q)"
  by (cases q) (simp_all add: token_methods quiet_methods [THEN keeps_quiet] keeps_void)

lemma quiet_exec:
  "mesh_crates_ok K \<Longrightarrow> request_ok q \<Longrightarrow> \<not> token_request q \<Longrightarrow> keeps (quiet (request_org q)) (exec K M q)"
  by (cases q) (simp_all add: quiet_methods keeps_void)

lemma serve_inv:
  assumes "mesh_crates_ok K" and "\<forall>q \<in> set qs. request_ok q" and "invar s"
  shows "invar (serve K M qs s)"
  using assms(2,3)
proof (induction qs arbitrary: s)
  case (Cons q qs)
  then show ?case
    using keepsD [OF keeps_exec [OF assms(1), of q], of s] by (cases "exec K M q s") simp
qed simp

lemma serve_isolation:
  assumes "mesh_crates_ok K" and "\<forall>q \<in> set qs. request_ok q \<and> request_org q \<noteq> j" and "invar s"
  shows "org_view j (\<alpha> (serve K M qs s)) = org_view j (\<alpha> s)"
  using assms(2,3)
proof (induction qs arbitrary: s)
  case (Cons q qs)
  obtain r s' where run: "exec K M q s = (r, s')" by (cases "exec K M q s")
  have "invar s' \<and> others_same (request_org q) (\<alpha> s) (\<alpha> s')"
    using keepsD [OF keeps_exec [OF assms(1)] _ run] Cons.prems by simp
  with Cons.IH [of s'] Cons.prems run show ?case by (auto simp: others_same_def)
qed simp

subsection \<open>Organizations\<close>

lemma create_org_Inr:
  assumes "invar s" and "create_org M now k name s = (Inr org, s')"
  shows "is_identifier k \<and> name \<noteq> [] \<and> length name \<le> 1024 \<and> a_orgs (\<alpha> s) k = None \<and>
    org = \<lparr>org_org_id = k, org_display_name = name, org_quotas = default_quotas, org_created_at = now\<rparr> \<and>
    invar s' \<and> \<alpha> s' = (\<alpha> s)\<lparr>a_orgs := (a_orgs (\<alpha> s))(k \<mapsto> org)\<rparr>"
proof -
  from assms(2) have id: "is_identifier k" and name: "validate_display_name name = Inr ()"
    and none: "be_get_org (tm_store M) k s = Inr None"
    and org: "org = \<lparr>org_org_id = k, org_display_name = name, org_quotas = default_quotas,
      org_created_at = now\<rparr>"
    and run: "be_create_org (tm_store M) org s = (Inr (), s')"
    by (auto simp: create_org_def Let_def op_iffs validate_identifier_iff split: if_splits)
  have "a_orgs (\<alpha> s) k = None" using rdD [OF get_org assms(1) none] by simp
  with id name org wr_ok [OF create_org [of org] assms(1) run] show ?thesis
    by (auto simp: identifier_nul_free validate_display_name_def MAX_DISPLAY_NAME_LEN_def
        split: if_splits)
qed

lemma create_org_Inl:
  assumes "invar s" and "create_org M now k name s = (Inl e, s')"
  shows "invar s' \<and> \<alpha> s' = \<alpha> s"
proof -
  let ?org = "\<lparr>org_org_id = k, org_display_name = name, org_quotas = default_quotas, org_created_at = now\<rparr>"
  from assms(2) have "s' = s \<or> (is_identifier k \<and> be_create_org (tm_store M) ?org s = (Inl e, s'))"
    by (auto simp: create_org_def Let_def op_iffs validate_identifier_iff split: if_splits)
  then show ?thesis
    using assms(1) wr_err [OF create_org [of ?org] assms(1)] by (auto simp: identifier_nul_free)
qed

lemma delete_org_result:
  assumes "nul_free k" and "invar s" and "delete_org M k s = (r, s')"
  shows "invar s' \<and>
    (case r of
       Inr _ \<Rightarrow> k \<in> dom (a_orgs (\<alpha> s)) \<and> org_removed k (\<alpha> s) (\<alpha> s')
     | Inl e \<Rightarrow> \<alpha> s' = \<alpha> s \<or> (k \<notin> dom (a_orgs (\<alpha> s)) \<and> org_removed k (\<alpha> s) (\<alpha> s')))"
proof -
  obtain q t where q: "be_delete_org (tm_store M) k s = (q, t)"
    by (cases "be_delete_org (tm_store M) k s")
  show ?thesis
  proof (cases q)
    case (Inl e)
    with q assms(3) have "r = Inl e" "s' = t" by (simp_all add: delete_org_def bindE_def)
    with wr_err [OF delete_org [OF assms(1)] assms(2)] q Inl show ?thesis by simp
  next
    case (Inr b)
    with q assms(3) have "r = (if b then Inr () else Inl (OrgNotFound k))" "s' = t"
      by (simp_all add: delete_org_def bindE_def retE_def failE_def split: if_splits)
    with wr_ok [OF delete_org [OF assms(1)] assms(2)] q Inr show ?thesis by (cases b) simp_all
  qed
qed

subsection \<open>Enrollment tokens\<close>

lemma create_token_Inr:
  assumes K: "mesh_crates_ok K" and inv: "invar s"
    and run: "create_token K M b now k c l mu ex s = (Inr t, s')"
  shows "invar s' \<and> k \<in> dom (a_orgs (\<alpha> s)) \<and> (k, c) \<in> dom (a_formations (\<alpha> s)) \<and>
    tok_token_id t = ''peat_'' @ mc_hex_encode K b \<and>
    tok_org_id t = k \<and> tok_app_id t = c \<and> tok_uses t = 0 \<and> \<not> tok_revoked t \<and>
    tok_max_uses t = mu \<and> tok_expires_at t = ex \<and>
    \<alpha> s' = (\<alpha> s)\<lparr>a_tokens := (a_tokens (\<alpha> s))((k, tok_token_id t) \<mapsto> t)\<rparr>"
proof -
  from run obtain org f where org: "get_org M k s = Inr org" "get_formation M k c s = Inr f"
    and t: "t = \<lparr>tok_token_id = ''peat_'' @ mc_hex_encode K b, tok_org_id = k, tok_app_id = c,
      tok_label = l, tok_max_uses = mu, tok_uses = 0, tok_expires_at = ex, tok_created_at = now,
      tok_revoked = False\<rparr>"
    and put: "be_create_token (tm_store M) t s = (Inr (), s')"
    by (auto simp: create_token_def Let_def op_iffs)
  have "nul_free (tok_org_id t)" "nul_free (tok_token_id t)"
    using get_org_Inr(3) [OF inv org(1)] token_id_nul_free [OF K, of b] by (simp_all add: t)
  from wr_ok [OF create_token [OF this] inv put] get_org_Inr(1) [OF inv org(1)]
    get_formation_Inr [OF inv org(2)]
  show ?thesis by (auto simp: t)
qed

lemma create_token_Inl:
  assumes K: "mesh_crates_ok K" and inv: "invar s"
    and run: "create_token K M b now k c l mu ex s = (Inl e, s')"
  shows "\<alpha> s' = \<alpha> s"
proof -
  let ?t = "\<lparr>tok_token_id = ''peat_'' @ mc_hex_encode K b, tok_org_id = k, tok_app_id = c,
      tok_label = l, tok_max_uses = mu, tok_uses = 0, tok_expires_at = ex, tok_created_at = now,
      tok_revoked = False\<rparr>"
  from run have "s' = s \<or> (is_ok (get_org M k s) \<and> be_create_token (tm_store M) ?t s = (Inl e, s'))"
    by (auto simp: create_token_def Let_def op_iffs)
  then show ?thesis
  proof
    assume *: "is_ok (get_org M k s) \<and> be_create_token (tm_store M) ?t s = (Inl e, s')"
    then have "nul_free k" using get_org_Inr(3) [OF inv] by (auto simp: is_ok_def split: sum.splits)
    with * wr_err [OF create_token [of ?t] inv] token_id_nul_free [OF K, of b] show ?thesis by simp
  qed simp
qed

lemma delete_token_result:
  assumes "invar s" and "delete_token M k c s = (r, s')"
  shows "\<alpha> s' = \<alpha> s \<or> \<alpha> s' = (\<alpha> s)\<lparr>a_tokens := (a_tokens (\<alpha> s))((k, c) := None)\<rparr>"
proof -
  obtain q t where q: "be_delete_token (tm_store M) k c s = (q, t)"
    by (cases "be_delete_token (tm_store M) k c s")
  have "s' = t" using assms(2) q by (auto simp: delete_token_def op_defs split: sum.splits if_splits)
  with q wr_ok [OF delete_token assms(1)] wr_err [OF delete_token assms(1)] show ?thesis
    by (cases q) blast+
qed

lemma update_token_run:
  assumes inv: "invar s" and t: "a_tokens (\<alpha> s) (k, c) = Some t0"
    and id: "tok_org_id t = k" "tok_token_id t = c"
    and run: "be_update_token (tm_store M) t s = (r, s')"
  shows "invar s' \<and> \<alpha> s' =
    (case r of Inl e \<Rightarrow> \<alpha> s | Inr _ \<Rightarrow> (\<alpha> s)\<lparr>a_tokens := (a_tokens (\<alpha> s))((k, c) \<mapsto> t)\<rparr>)"
proof -
  have "nul_free (tok_org_id t)" "nul_free (tok_token_id t)"
    using wf [OF inv] t id by (auto simp: abs_wf_def)
  note w = update_token [OF this]
  show ?thesis
  proof (cases r)
    case (Inl e)
    with wr_err [OF w inv] run show ?thesis by simp
  next
    case (Inr x)
    with wr_ok [OF w inv] run t id show ?thesis by auto
  qed
qed

lemma consume_token_result:
  assumes inv: "invar s" and run: "validate_and_consume_token M now k app c s = (r, s')"
  shows "invar s' \<and>
    (case r of
       Inl e \<Rightarrow> \<alpha> s' = \<alpha> s
     | Inr t \<Rightarrow> \<exists>t0. a_tokens (\<alpha> s) (k, c) = Some t0 \<and> check_token now app c t0 = Inr () \<and>
         t = t0\<lparr>tok_uses := tok_uses t0 + 1\<rparr> \<and>
         \<alpha> s' = (\<alpha> s)\<lparr>a_tokens := (a_tokens (\<alpha> s))((k, c) \<mapsto> t)\<rparr>)"
proof (cases "get_token M k c s")
  case (Inl e)
  with run have "r = Inl e" "s' = s" by (simp_all add: validate_and_consume_token_def op_steps)
  with inv show ?thesis by simp
next
  case (Inr t0)
  note t0 = get_token_Inr [OF inv Inr]
  show ?thesis
  proof (cases "check_token now app c t0")
    case (Inl e)
    with Inr run inv show ?thesis by (auto simp: validate_and_consume_token_def op_steps)
  next
    case (Inr u)
    let ?t = "t0\<lparr>tok_uses := tok_uses t0 + 1\<rparr>"
    obtain q u' where upd: "be_update_token (tm_store M) ?t s = (q, u')"
      by (cases "be_update_token (tm_store M) ?t s")
    with run Inr \<open>get_token M k c s = Inr t0\<close> have "u' = s'" "r = mapR (\<lambda>_. ?t) q"
      by (auto simp: validate_and_consume_token_def op_defs Let_def split: sum.splits)
    with update_token_run [OF inv t0(1) _ _ upd] t0 Inr show ?thesis
      by (auto split: sum.splits)
  qed
qed

lemma revoke_token_Inr:
  assumes inv: "invar s" and run: "revoke_token M k c s = (Inr t, s')"
  shows "invar s' \<and> (\<exists>t0. a_tokens (\<alpha> s) (k, c) = Some t0 \<and> \<not> tok_revoked t0 \<and>
    t = t0\<lparr>tok_revoked := True\<rparr> \<and>
    \<alpha> s' = (\<alpha> s)\<lparr>a_tokens := (a_tokens (\<alpha> s))((k, c) \<mapsto> t)\<rparr>)"
proof -
  from run obtain t0 where t0: "get_token M k c s = Inr t0" "\<not> tok_revoked t0"
    "t = t0\<lparr>tok_revoked := True\<rparr>" "be_update_token (tm_store M) t s = (Inr (), s')"
    by (auto simp: revoke_token_def Let_def op_iffs split: if_splits)
  from update_token_run [OF inv _ _ _ t0(4)] get_token_Inr [OF inv t0(1)] t0 show ?thesis by auto
qed

lemma revoke_token_Inl:
  assumes inv: "invar s" and run: "revoke_token M k c s = (Inl e, s')"
  shows "\<alpha> s' = \<alpha> s"
proof -
  from run consider "s' = s" | t0 where "get_token M k c s = Inr t0"
    "be_update_token (tm_store M) (t0\<lparr>tok_revoked := True\<rparr>) s = (Inl e, s')"
    by (auto simp: revoke_token_def Let_def op_iffs split: if_splits)
  then show ?thesis
  proof cases
    case 2
    from update_token_run [OF inv get_token_Inr(1) [OF inv 2(1)] _ _ 2(2)] get_token_Inr [OF inv 2(1)]
    show ?thesis by simp
  qed simp
qed

subsection \<open>Formations, genesis and quotas\<close>

lemma create_formation_Inr:
  assumes inv: "invar s" and run: "create_formation K M en r k c pol s = (Inr f, s')"
  defines "g \<equiv> mc_genesis_create K en c (mesh_policy pol)"
  shows "\<exists>org existing stored.
    a_orgs (\<alpha> s) k = Some org \<and> is_identifier c \<and>
    lists_rows (a_formations (\<alpha> s)) k existing \<and>
    (of_nat (length existing) :: u32) < max_formations (org_quotas org) \<and>
    a_formations (\<alpha> s) (k, c) = None \<and>
    f = \<lparr>form_app_id = c, form_mesh_id = mc_mesh_id K g, form_enrollment_policy = pol\<rparr> \<and>
    (if tm_encrypt_enabled M then seal (mc_aead K) (tm_key_provider M) r (mc_encode K g) = Inr stored
     else stored = mc_encode K g) \<and>
    invar s' \<and>
    \<alpha> s' = (\<alpha> s)\<lparr>a_formations := (a_formations (\<alpha> s))((k, c) \<mapsto> f),
                 a_genesis := (a_genesis (\<alpha> s))((k, c) \<mapsto> stored)\<rparr>"
proof -
  from run obtain org existing stored s1 where
    id: "is_identifier c" and org: "get_org M k s = Inr org"
    and ex: "be_list_formations (tm_store M) k s = Inr existing"
    and quota: "\<not> max_formations (org_quotas org) \<le> (of_nat (length existing) :: u32)"
    and none: "be_get_formation (tm_store M) k c s = Inr None"
    and f: "f = \<lparr>form_app_id = c, form_mesh_id = mc_mesh_id K g, form_enrollment_policy = pol\<rparr>"
    and stored: "(if tm_encrypt_enabled M then seal (mc_aead K) (tm_key_provider M) r (mc_encode K g)
                  else Inr (mc_encode K g)) = Inr stored"
    and w1: "be_create_formation (tm_store M) k f s = (Inr (), s1)"
    and w2: "be_store_genesis (tm_store M) k c stored s1 = (Inr (), s')"
    by (auto simp: create_formation_def g_def Let_def op_iffs validate_identifier_iff split: if_splits)
  note nk = get_org_Inr(3) [OF inv org] and nc = identifier_nul_free [OF id]
  have "nul_free (form_app_id f)" by (simp add: f nc)
  note s1 = wr_ok [OF create_formation [OF nk this] inv w1]
  note s2 = wr_ok [OF store_genesis [OF nk nc] conjunct1 [OF s1] w2]
  have "\<alpha> s' = (\<alpha> s)\<lparr>a_formations := (a_formations (\<alpha> s))((k, c) \<mapsto> f),
                 a_genesis := (a_genesis (\<alpha> s))((k, c) \<mapsto> stored)\<rparr>"
    using s1 s2 by (simp add: f)
  with get_org_Inr(1) [OF inv org] id rdD [OF list_formations inv ex] quota
    rdD [OF get_formation inv none] f stored s2 show ?thesis
    by (intro exI [of _ org] exI [of _ existing] exI [of _ stored]) (auto split: if_splits)
qed

lemma load_genesis_stored:
  assumes inv: "invar s" and g: "a_genesis (\<alpha> s) (k, c) = Some stored"
    and ok: "load_genesis K M e k c s = Inr x"
  shows "\<exists>p. mc_decode K p = Inr x \<and>
    (if tm_encrypt_enabled M then \<exists>d. open_envelope (mc_aead K) (tm_key_provider M) e stored = Inr d \<and>
       p = (case d of Some q \<Rightarrow> q | None \<Rightarrow> stored)
     else p = stored)"
proof -
  from ok obtain r where r: "be_get_genesis (tm_store M) k c s = Inr r"
    by (auto simp: load_genesis_def result_iffs)
  with rdD [OF get_genesis inv r] g ok show ?thesis
    by (auto simp: load_genesis_def result_iffs split: if_splits)
qed

lemma create_sink_Inr:
  assumes K: "mesh_crates_ok K" and inv: "invar s"
    and run: "create_sink K M b now k st s = (Inr x, s')"
  shows "\<exists>org existing. a_orgs (\<alpha> s) k = Some org \<and> lists_rows (a_sinks (\<alpha> s)) k existing \<and>
    (of_nat (length existing) :: u32) < max_cdc_sinks (org_quotas org) \<and>
    validate_sink_type st = Inr () \<and> sink_org_id x = k \<and> sink_sink_type x = st \<and> sink_enabled x \<and>
    invar s' \<and> \<alpha> s' = (\<alpha> s)\<lparr>a_sinks := (a_sinks (\<alpha> s))((k, sink_sink_id x) \<mapsto> x)\<rparr>"
proof -
  from run obtain org existing where
    v: "validate_sink_type st = Inr ()" and org: "get_org M k s = Inr org"
    and ex: "be_list_sinks (tm_store M) k s = Inr existing"
    and quota: "\<not> max_cdc_sinks (org_quotas org) \<le> (of_nat (length existing) :: u32)"
    and x: "x = \<lparr>sink_sink_id = mc_hex_encode K b, sink_org_id = k, sink_sink_type = st,
      sink_enabled = True, sink_created_at = now\<rparr>"
    and put: "be_create_sink (tm_store M) x s = (Inr (), s')"
    by (auto simp: create_sink_def Let_def op_iffs split: if_splits)
  have "nul_free (sink_org_id x)" "nul_free (sink_sink_id x)"
    using get_org_Inr(3) [OF inv org] hex_nul_free [OF K] by (simp_all add: x)
  from wr_ok [OF create_sink [OF this] inv put] get_org_Inr(1) [OF inv org]
    rdD [OF list_sinks inv ex] quota v show ?thesis
    by (intro exI [of _ org] exI [of _ existing]) (auto simp: x)
qed

lemma count_recent_Inr:
  assumes inv: "invar s" and k: "nul_free k" and run: "count_recent_enrollments M k since s = Inr n"
    and fin: "finite (audit_matches (\<alpha> s) k None)"
    and small: "card (audit_matches (\<alpha> s) k None) < usize_MAX"
  shows "n = card {e \<in> audit_matches (\<alpha> s) k None. since \<le> aud_timestamp_ms e}"
proof -
  from run obtain es where es: "be_list_audit (tm_store M) k None usize_MAX s = Inr es"
    and n: "n = length (filter (\<lambda>e. since \<le> aud_timestamp_ms e) es)"
    by (auto simp: count_recent_enrollments_def result_iffs)
  have "audit_page (\<alpha> s) k None usize_MAX es"
    using rdD [OF list_audit [OF k] inv es] by (simp add: usize_MAX_def)
  then have d: "distinct es" and sub: "set es \<subseteq> audit_matches (\<alpha> s) k None"
    and full: "length es < usize_MAX \<longrightarrow> set es = audit_matches (\<alpha> s) k None"
    by (simp_all add: audit_page_def)
  have "length es < usize_MAX"
    using card_mono [OF fin sub] small distinct_card [OF d] by simp
  with full have "{e \<in> audit_matches (\<alpha> s) k None. since \<le> aud_timestamp_ms e} =
      set (filter (\<lambda>e. since \<le> aud_timestamp_ms e) es)"
    by auto
  then show ?thesis using distinct_card [OF distinct_filter [OF d]] by (simp add: n)
qed

subsection \<open>The life of a token\<close>

lemma exec_token_fixed:
  assumes K: "mesh_crates_ok K" and q: "request_ok q" "\<not> makes_token K k c q" "\<not> consumes_token k c q"
    and inv: "invar s" and run: "exec K M q s = (r, s')"
  shows "token_fixed k c (\<alpha> s) (\<alpha> s')"
proof (cases "token_request q")
  case False
  with keepsD [OF quiet_exec [OF K q(1)] inv run] show ?thesis
    by (simp add: quiet_def token_fixed_def split: option.splits)
next
  case True
  then show ?thesis
  proof (cases q)
    case (DeleteOrg j)
    with delete_org_result [of j s r s'] q(1) run inv
    have "\<alpha> s' = \<alpha> s \<or> org_removed j (\<alpha> s) (\<alpha> s')" by (auto split: sum.splits)
    then have "a_tokens (\<alpha> s') (k, c) = None \<or> a_tokens (\<alpha> s') (k, c) = a_tokens (\<alpha> s) (k, c)"
      by (cases "j = k") (auto simp: org_removed_def drops_rows_def)
    then show ?thesis by (auto simp: token_fixed_def split: option.splits)
  next
    case (CreateToken b now j app l mu ex)
    with run obtain x where x: "create_token K M b now j app l mu ex s = (x, s')"
      by (auto simp: mapE_eq)
    show ?thesis
    proof (cases x)
      case (Inl e)
      with create_token_Inl [OF K inv] x show ?thesis by (simp add: token_fixed_def split: option.splits)
    next
      case (Inr t)
      with x have "create_token K M b now j app l mu ex s = (Inr t, s')" by simp
      from create_token_Inr [OF K inv this] q(2) CreateToken show ?thesis
        by (auto simp: token_fixed_def split: option.splits)
    qed
  next
    case (RevokeToken j d)
    with run obtain x where x: "revoke_token M j d s = (x, s')" by (auto simp: mapE_eq)
    show ?thesis
    proof (cases x)
      case (Inl e)
      with revoke_token_Inl [OF inv] x show ?thesis by (simp add: token_fixed_def split: option.splits)
    next
      case (Inr t)
      with revoke_token_Inr [OF inv] x show ?thesis
        by (fastforce simp: token_fixed_def split: option.splits)
    qed
  next
    case (DeleteToken j d)
    with delete_token_result [OF inv] run show ?thesis
      by (fastforce simp: token_fixed_def split: option.splits)
  next
    case (ConsumeToken now j app d)
    with run obtain x where x: "validate_and_consume_token M now j app d s = (x, s')"
      by (auto simp: mapE_eq)
    with consume_token_result [OF inv x] q(3) ConsumeToken show ?thesis
      by (fastforce simp: token_fixed_def split: option.splits sum.splits)
  qed simp_all
qed

lemma consume_uses_left:
  assumes inv: "invar s" and run: "validate_and_consume_token M now k app c s = (Inr t, s')"
    and lim: "token_limited k c (\<alpha> s)"
  shows "uses_left k c (\<alpha> s) = Suc (uses_left k c (\<alpha> s'))" and "token_limited k c (\<alpha> s')"
proof -
  from consume_token_result [OF inv run] obtain t0 where t0: "a_tokens (\<alpha> s) (k, c) = Some t0"
    "check_token now app c t0 = Inr ()" "t = t0\<lparr>tok_uses := tok_uses t0 + 1\<rparr>"
    "\<alpha> s' = (\<alpha> s)\<lparr>a_tokens := (a_tokens (\<alpha> s))((k, c) \<mapsto> t)\<rparr>"
    by auto
  from lim t0(1) obtain m where m: "tok_max_uses t0 = Some m" by (auto simp: token_limited_def)
  with t0(2) have less: "tok_uses t0 < m"
    by (auto simp: check_token_def split: if_splits option.splits)
  then have lt: "unat (tok_uses t0) < unat m" by (simp add: word_less_nat_alt)
  note unat_u32_Suc [OF less]
  with t0 m lt show "uses_left k c (\<alpha> s) = Suc (uses_left k c (\<alpha> s'))"
    by (simp add: uses_left_def)
  show "token_limited k c (\<alpha> s')" using t0 m by (simp add: token_limited_def)
qed

lemma granted_bound:
  assumes K: "mesh_crates_ok K" and qs: "\<forall>q \<in> set qs. request_ok q \<and> \<not> makes_token K k c q"
    and inv: "invar s" and lim: "token_limited k c (\<alpha> s)"
  shows "granted K M k c qs s \<le> uses_left k c (\<alpha> s)"
  using qs inv lim
proof (induction qs arbitrary: s)
  case (Cons q qs)
  obtain r s' where run: "exec K M q s = (r, s')" by (cases "exec K M q s")
  have inv': "invar s'" using keepsD [OF keeps_exec [OF K] _ run] Cons.prems by simp
  note IH = Cons.IH [OF _ inv']
  show ?case
  proof (cases "consumes_token k c q \<and> is_ok r")
    case True
    then obtain now app t where "q = ConsumeToken now k app c"
      and "validate_and_consume_token M now k app c s = (Inr t, s')"
      using run by (cases q) (auto simp: mapE_eq is_ok_def result_iffs split: sum.splits)
    from consume_uses_left [OF Cons.prems(2) this(2) Cons.prems(3)] IH Cons.prems(1) run True
    show ?thesis by simp
  next
    case False
    have "token_fixed k c (\<alpha> s) (\<alpha> s')"
    proof (cases "consumes_token k c q")
      case True
      then obtain now app e where "validate_and_consume_token M now k app c s = (Inl e, s')"
        using run False by (cases q) (auto simp: mapE_eq is_ok_def result_iffs split: sum.splits)
      from consume_token_result [OF Cons.prems(2) this] show ?thesis
        by (simp add: token_fixed_def split: option.splits)
    next
      case False
      with exec_token_fixed [OF K _ _ _ Cons.prems(2) run] Cons.prems(1) show ?thesis by simp
    qed
    then have "uses_left k c (\<alpha> s') \<le> uses_left k c (\<alpha> s)" "token_limited k c (\<alpha> s')"
      using Cons.prems(3)
      by (auto simp: token_fixed_def uses_left_def token_limited_def split: option.splits)
    with IH Cons.prems(1) run False show ?thesis by auto
  qed
qed simp

end

end
