(* ===== verification/Tasks.thy ===== *)
theory Tasks
  imports Tenant_Contract
begin

text \<open>
  Requests that run at the same time (\<open>src/tenant/manager.rs\<close> under the tokio runtime). A method of the manager gives
  up control at every \<open>.await\<close> on its store, so a task is a tree: it is done, or it waits for one call to the
  store, which is a transaction, and goes on with what that call returned. The tasks of a pool take turns in any order.
  Each method is written again call by call; without interruption it is the method of \<open>Tenant\<close>.
\<close>

section \<open>Tasks\<close>

datatype ('s, 'e, 'a) task = Done "'e + 'a" | Await "'s \<Rightarrow> 's" "'s \<Rightarrow> ('s, 'e, 'a) task"

text \<open>\<open>store.m().await?\<close>, and \<open>?\<close> on a value.\<close>

definition call :: "('s, 'e, 'r) op \<Rightarrow> ('r \<Rightarrow> ('s, 'e, 'a) task) \<Rightarrow> ('s, 'e, 'a) task" where
  "call m k = Await (\<lambda>s. snd (m s)) (\<lambda>s. case fst (m s) of Inl e \<Rightarrow> Done (Inl e) | Inr x \<Rightarrow> k x)"

definition attempt :: "'e + 'r \<Rightarrow> ('r \<Rightarrow> ('s, 'e, 'a) task) \<Rightarrow> ('s, 'e, 'a) task" where
  "attempt r k = (case r of Inl e \<Rightarrow> Done (Inl e) | Inr x \<Rightarrow> k x)"

section \<open>The methods, call by call\<close>

definition get_org_then ::
  "('s, 'n) tenant_manager \<Rightarrow> string \<Rightarrow> (organization \<Rightarrow> ('s, err, 'a) task) \<Rightarrow> ('s, err, 'a) task" where
  "get_org_then M org_id k =
     call (readE (be_get_org (tm_store M) org_id)) (\<lambda>r. attempt (ok_or r (OrgNotFound org_id)) k)"

definition get_formation_then ::
  "('s, 'n) tenant_manager \<Rightarrow> string \<Rightarrow> string \<Rightarrow> (formation_config \<Rightarrow> ('s, err, 'a) task) \<Rightarrow> ('s, err, 'a) task" where
  "get_formation_then M org_id app_id k =
     call (readE (be_get_formation (tm_store M) org_id app_id)) (\<lambda>r.
       attempt (ok_or r (FormationNotFound app_id org_id)) k)"

definition get_token_then ::
  "('s, 'n) tenant_manager \<Rightarrow> string \<Rightarrow> string \<Rightarrow> (enrollment_token \<Rightarrow> ('s, err, 'a) task) \<Rightarrow> ('s, err, 'a) task" where
  "get_token_then M org_id token_id k =
     call (readE (be_get_token (tm_store M) org_id token_id)) (\<lambda>r.
       attempt (ok_or r (TokenNotFound token_id org_id)) k)"

definition get_sink_then ::
  "('s, 'n) tenant_manager \<Rightarrow> string \<Rightarrow> string \<Rightarrow> (cdc_sink_config \<Rightarrow> ('s, err, 'a) task) \<Rightarrow> ('s, err, 'a) task" where
  "get_sink_then M org_id sink_id k =
     call (readE (be_get_sink (tm_store M) org_id sink_id)) (\<lambda>r.
       attempt (ok_or r (SinkNotFound sink_id org_id)) k)"

definition get_idp_then ::
  "('s, 'n) tenant_manager \<Rightarrow> string \<Rightarrow> string \<Rightarrow> (idp_config \<Rightarrow> ('s, err, 'a) task) \<Rightarrow> ('s, err, 'a) task" where
  "get_idp_then M org_id idp_id k =
     call (readE (be_get_idp (tm_store M) org_id idp_id)) (\<lambda>r.
       attempt (ok_or r (IdpNotFound idp_id org_id)) k)"

definition create_org_task ::
  "('s, 'n) tenant_manager \<Rightarrow> u64 \<Rightarrow> string \<Rightarrow> string \<Rightarrow> ('s, err, organization) task" where
  "create_org_task M now org_id display_name =
     attempt (validate_identifier org_id ''org_id'') (\<lambda>_.
     attempt (validate_display_name display_name) (\<lambda>_.
     call (readE (be_get_org (tm_store M) org_id)) (\<lambda>r.
       if r \<noteq> None then Done (Inl (OrgExists org_id))
       else
         let org = \<lparr>org_org_id = org_id, org_display_name = display_name,
                    org_quotas = default_quotas, org_created_at = now\<rparr>
         in call (be_create_org (tm_store M) org) (\<lambda>_. Done (Inr org)))))"

definition update_org_task ::
  "('s, 'n) tenant_manager \<Rightarrow> string \<Rightarrow> string option \<Rightarrow> org_quotas option \<Rightarrow> ('s, err, organization) task" where
  "update_org_task M org_id display_name quotas =
     get_org_then M org_id (\<lambda>org0.
       let org1 = (case display_name of None \<Rightarrow> org0 | Some name \<Rightarrow> org0\<lparr>org_display_name := name\<rparr>);
           org2 = (case quotas of None \<Rightarrow> org1 | Some q \<Rightarrow> org1\<lparr>org_quotas := q\<rparr>)
       in call (be_update_org (tm_store M) org2) (\<lambda>_. Done (Inr org2)))"

definition delete_org_task :: "('s, 'n) tenant_manager \<Rightarrow> string \<Rightarrow> ('s, err, unit) task" where
  "delete_org_task M org_id =
     call (be_delete_org (tm_store M) org_id) (\<lambda>found.
       if \<not> found then Done (Inl (OrgNotFound org_id)) else Done (Inr ()))"

definition create_formation_task ::
  "('k, 'g) mesh_crates \<Rightarrow> ('s, 'n) tenant_manager \<Rightarrow> bytes \<Rightarrow> 'n seal_env
     \<Rightarrow> string \<Rightarrow> string \<Rightarrow> enrollment_policy \<Rightarrow> ('s, err, formation_config) task" where
  "create_formation_task K M entropy r org_id app_id policy =
     attempt (validate_identifier app_id ''app_id'') (\<lambda>_.
     get_org_then M org_id (\<lambda>org.
     call (readE (be_list_formations (tm_store M) org_id)) (\<lambda>existing.
       if max_formations (org_quotas org) \<le> (of_nat (length existing) :: u32)
       then Done (Inl (FormationQuota org_id (max_formations (org_quotas org))))
       else
     call (readE (be_get_formation (tm_store M) org_id app_id)) (\<lambda>f.
       if f \<noteq> None then Done (Inl (FormationExists app_id org_id))
       else
         let genesis = mc_genesis_create K entropy app_id (mesh_policy policy);
             mesh_id = mc_mesh_id K genesis;
             encoded = mc_encode K genesis
         in attempt (if tm_encrypt_enabled M
                     then seal (mc_aead K) (tm_key_provider M) r encoded
                     else Inr encoded) (\<lambda>stored_bytes.
            let formation = \<lparr>form_app_id = app_id, form_mesh_id = mesh_id,
                             form_enrollment_policy = policy\<rparr>
            in call (be_create_formation (tm_store M) org_id formation) (\<lambda>_.
               call (be_store_genesis (tm_store M) org_id app_id stored_bytes) (\<lambda>_.
                 Done (Inr formation))))))))"

definition delete_formation_task :: "('s, 'n) tenant_manager \<Rightarrow> string \<Rightarrow> string \<Rightarrow> ('s, err, unit) task" where
  "delete_formation_task M org_id app_id =
     call (be_delete_formation (tm_store M) org_id app_id) (\<lambda>found.
       if \<not> found then Done (Inl (FormationNotFound app_id org_id))
       else call (ignoreE (be_delete_genesis (tm_store M) org_id app_id)) (\<lambda>_. Done (Inr ())))"

definition create_token_task ::
  "('k, 'g) mesh_crates \<Rightarrow> ('s, 'n) tenant_manager \<Rightarrow> bytes \<Rightarrow> u64 \<Rightarrow> string \<Rightarrow> string \<Rightarrow> string
     \<Rightarrow> u32 option \<Rightarrow> u64 option \<Rightarrow> ('s, err, enrollment_token) task" where
  "create_token_task K M buf now org_id app_id label max_uses expires_at =
     attempt (validate_non_empty label ''label'') (\<lambda>_.
     get_org_then M org_id (\<lambda>_.
     get_formation_then M org_id app_id (\<lambda>_.
       let token_id = ''peat_'' @ mc_hex_encode K buf;
           token = \<lparr>tok_token_id = token_id, tok_org_id = org_id, tok_app_id = app_id,
                    tok_label = label, tok_max_uses = max_uses, tok_uses = 0,
                    tok_expires_at = expires_at, tok_created_at = now, tok_revoked = False\<rparr>
       in call (be_create_token (tm_store M) token) (\<lambda>_. Done (Inr token)))))"

definition revoke_token_task :: "('s, 'n) tenant_manager \<Rightarrow> string \<Rightarrow> string \<Rightarrow> ('s, err, enrollment_token) task" where
  "revoke_token_task M org_id token_id =
     get_token_then M org_id token_id (\<lambda>token0.
       if tok_revoked token0 then Done (Inl (TokenAlreadyRevoked token_id))
       else
         let token = token0\<lparr>tok_revoked := True\<rparr>
         in call (be_update_token (tm_store M) token) (\<lambda>_. Done (Inr token)))"

definition delete_token_task :: "('s, 'n) tenant_manager \<Rightarrow> string \<Rightarrow> string \<Rightarrow> ('s, err, unit) task" where
  "delete_token_task M org_id token_id =
     call (be_delete_token (tm_store M) org_id token_id) (\<lambda>found.
       if \<not> found then Done (Inl (TokenNotFound token_id org_id)) else Done (Inr ()))"

definition consume_token_task ::
  "('s, 'n) tenant_manager \<Rightarrow> u64 \<Rightarrow> string \<Rightarrow> string \<Rightarrow> string \<Rightarrow> ('s, err, enrollment_token) task" where
  "consume_token_task M now org_id app_id token_id =
     get_token_then M org_id token_id (\<lambda>token0.
     attempt (check_token now app_id token_id token0) (\<lambda>_.
       let token = token0\<lparr>tok_uses := tok_uses token0 + 1\<rparr>
       in call (be_update_token (tm_store M) token) (\<lambda>_. Done (Inr token))))"

definition create_sink_task ::
  "('k, 'g) mesh_crates \<Rightarrow> ('s, 'n) tenant_manager \<Rightarrow> bytes \<Rightarrow> u64 \<Rightarrow> string \<Rightarrow> cdc_sink_type
     \<Rightarrow> ('s, err, cdc_sink_config) task" where
  "create_sink_task K M buf now org_id sink_type =
     attempt (validate_sink_type sink_type) (\<lambda>_.
     get_org_then M org_id (\<lambda>org.
     call (readE (be_list_sinks (tm_store M) org_id)) (\<lambda>existing.
       if max_cdc_sinks (org_quotas org) \<le> (of_nat (length existing) :: u32)
       then Done (Inl (SinkQuota org_id (max_cdc_sinks (org_quotas org))))
       else
         let sink = \<lparr>sink_sink_id = mc_hex_encode K buf, sink_org_id = org_id,
                     sink_sink_type = sink_type, sink_enabled = True, sink_created_at = now\<rparr>
         in call (be_create_sink (tm_store M) sink) (\<lambda>_. Done (Inr sink)))))"

definition toggle_sink_task ::
  "('s, 'n) tenant_manager \<Rightarrow> string \<Rightarrow> string \<Rightarrow> bool \<Rightarrow> ('s, err, cdc_sink_config) task" where
  "toggle_sink_task M org_id sink_id enabled =
     get_sink_then M org_id sink_id (\<lambda>sink0.
       let sink = sink0\<lparr>sink_enabled := enabled\<rparr>
       in call (be_update_sink (tm_store M) sink) (\<lambda>_. Done (Inr sink)))"

definition delete_sink_task :: "('s, 'n) tenant_manager \<Rightarrow> string \<Rightarrow> string \<Rightarrow> ('s, err, unit) task" where
  "delete_sink_task M org_id sink_id =
     call (be_delete_sink (tm_store M) org_id sink_id) (\<lambda>found.
       if \<not> found then Done (Inl (SinkNotFound sink_id org_id)) else Done (Inr ()))"

definition create_idp_task ::
  "('k, 'g) mesh_crates \<Rightarrow> ('s, 'n) tenant_manager \<Rightarrow> bytes \<Rightarrow> u64 \<Rightarrow> string \<Rightarrow> string \<Rightarrow> string \<Rightarrow> string
     \<Rightarrow> ('s, err, idp_config) task" where
  "create_idp_task K M buf now org_id issuer_url client_id client_secret =
     attempt (validate_issuer_url issuer_url) (\<lambda>_.
     attempt (validate_non_empty client_id ''client_id'') (\<lambda>_.
     attempt (validate_non_empty client_secret ''client_secret'') (\<lambda>_.
     get_org_then M org_id (\<lambda>_.
       let idp = \<lparr>idp_idp_id = mc_hex_encode K buf, idp_org_id = org_id,
                  idp_issuer_url = issuer_url, idp_client_id = client_id,
                  idp_client_secret = client_secret, idp_enabled = True, idp_created_at = now\<rparr>
       in call (be_create_idp (tm_store M) idp) (\<lambda>_. Done (Inr idp))))))"

definition toggle_idp_task ::
  "('s, 'n) tenant_manager \<Rightarrow> string \<Rightarrow> string \<Rightarrow> bool \<Rightarrow> ('s, err, idp_config) task" where
  "toggle_idp_task M org_id idp_id enabled =
     get_idp_then M org_id idp_id (\<lambda>idp0.
       let idp = idp0\<lparr>idp_enabled := enabled\<rparr>
       in call (be_update_idp (tm_store M) idp) (\<lambda>_. Done (Inr idp)))"

definition delete_idp_task :: "('s, 'n) tenant_manager \<Rightarrow> string \<Rightarrow> string \<Rightarrow> ('s, err, unit) task" where
  "delete_idp_task M org_id idp_id =
     call (be_delete_idp (tm_store M) org_id idp_id) (\<lambda>found.
       if \<not> found then Done (Inl (IdpNotFound idp_id org_id)) else Done (Inr ()))"

definition create_policy_rule_task ::
  "('k, 'g) mesh_crates \<Rightarrow> ('s, 'n) tenant_manager \<Rightarrow> bytes \<Rightarrow> string \<Rightarrow> string \<Rightarrow> string \<Rightarrow> mesh_tier
     \<Rightarrow> u32 \<Rightarrow> u32 \<Rightarrow> ('s, err, policy_rule) task" where
  "create_policy_rule_task K M buf org_id claim_key claim_value tier permissions priority =
     get_org_then M org_id (\<lambda>_.
       let rule = \<lparr>rule_rule_id = mc_hex_encode K buf, rule_org_id = org_id,
                   rule_claim_key = claim_key, rule_claim_value = claim_value, rule_tier = tier,
                   rule_permissions = permissions, rule_priority = priority\<rparr>
       in call (be_create_policy_rule (tm_store M) rule) (\<lambda>_. Done (Inr rule)))"

definition delete_policy_rule_task :: "('s, 'n) tenant_manager \<Rightarrow> string \<Rightarrow> string \<Rightarrow> ('s, err, unit) task" where
  "delete_policy_rule_task M org_id rule_id =
     call (be_delete_policy_rule (tm_store M) org_id rule_id) (\<lambda>found.
       if \<not> found then Done (Inl (RuleNotFound rule_id org_id)) else Done (Inr ()))"

definition append_audit_task :: "('s, 'n) tenant_manager \<Rightarrow> audit_entry \<Rightarrow> ('s, err, unit) task" where
  "append_audit_task M entry = call (be_append_audit (tm_store M) entry) (\<lambda>_. Done (Inr ()))"

definition set_cursor_task ::
  "('s, 'n) tenant_manager \<Rightarrow> string \<Rightarrow> string \<Rightarrow> string \<Rightarrow> string \<Rightarrow> ('s, err, unit) task" where
  "set_cursor_task M org_id app_id document_id change_hash =
     call (be_set_cursor (tm_store M) org_id app_id document_id change_hash) (\<lambda>_. Done (Inr ()))"

abbreviation drop_value :: "('s, err, 'a) task \<Rightarrow> ('s, err, unit) task" where
  "drop_value t \<equiv> map_task id (\<lambda>_. ()) t"

fun task_of :: "('k, 'g) mesh_crates \<Rightarrow> ('s, 'n) tenant_manager \<Rightarrow> 'n request \<Rightarrow> ('s, err, unit) task" where
  "task_of K M (CreateOrg now k name) = drop_value (create_org_task M now k name)"
| "task_of K M (UpdateOrg k name q) = drop_value (update_org_task M k name q)"
| "task_of K M (DeleteOrg k) = delete_org_task M k"
| "task_of K M (CreateFormation en r k c pol) = drop_value (create_formation_task K M en r k c pol)"
| "task_of K M (DeleteFormation k c) = delete_formation_task M k c"
| "task_of K M (CreateToken b now k c l mu ex) = drop_value (create_token_task K M b now k c l mu ex)"
| "task_of K M (RevokeToken k c) = drop_value (revoke_token_task M k c)"
| "task_of K M (DeleteToken k c) = delete_token_task M k c"
| "task_of K M (ConsumeToken now k app c) = drop_value (consume_token_task M now k app c)"
| "task_of K M (CreateSink b now k st) = drop_value (create_sink_task K M b now k st)"
| "task_of K M (ToggleSink k c en) = drop_value (toggle_sink_task M k c en)"
| "task_of K M (DeleteSink k c) = delete_sink_task M k c"
| "task_of K M (CreateIdp b now k u ci cs) = drop_value (create_idp_task K M b now k u ci cs)"
| "task_of K M (ToggleIdp k c en) = drop_value (toggle_idp_task M k c en)"
| "task_of K M (DeleteIdp k c) = delete_idp_task M k c"
| "task_of K M (CreateRule b k ck cv t pm pr) = drop_value (create_policy_rule_task K M b k ck cv t pm pr)"
| "task_of K M (DeleteRule k c) = delete_policy_rule_task M k c"
| "task_of K M (AppendAudit e) = append_audit_task M e"
| "task_of K M (SetCursor k c d h) = set_cursor_task M k c d h"

lemma attempt_Inr [simp]: "attempt (Inr x) k = k x"
  by (simp add: attempt_def)

lemma map_task_call: "map_task id g (call m k) = call m (\<lambda>x. map_task id g (k x))"
  by (simp add: call_def o_def fun_eq_iff split: sum.split)

lemma map_task_attempt: "map_task id g (attempt r k) = attempt r (\<lambda>x. map_task id g (k x))"
  by (simp add: attempt_def split: sum.split)

section \<open>A task by itself\<close>

primrec alone :: "('s, 'e, 'a) task \<Rightarrow> ('s, 'e, 'a) op" where
  "alone (Done r) s = (r, s)"
| "alone (Await f n) s = alone (n s) (f s)"

lemma alone_call [simp]: "alone (call m k) = bindE m (\<lambda>x. alone (k x))"
  by (rule ext) (simp add: call_def bindE_def split: prod.splits sum.splits)

lemma alone_attempt [simp]: "alone (attempt r k) = bindE (liftE r) (\<lambda>x. alone (k x))"
  by (rule ext) (simp add: attempt_def bindE_def liftE_def split: sum.splits)

lemma alone_Done: "alone (Done r) = liftE r"
  by (rule ext) (simp add: liftE_def)

lemma map_sum_results: "map_sum h g r = mapR g (map_err h r)"
  by (cases r) simp_all

lemma alone_map_task: "alone (map_task h g t) = mapE g (mapErrE h (alone t))"
proof (rule ext)
  show "alone (map_task h g t) s = mapE g (mapErrE h (alone t)) s" for s
    by (induction t arbitrary: s) (simp_all add: mapE_def mapErrE_def map_sum_results)
qed

lemma map_err_id: "map_err id r = r"
  by (cases r) simp_all

lemma alone_map [simp]: "alone (map_task id g t) = mapE g (alone t)"
  by (rule ext) (simp add: alone_map_task mapE_def mapErrE_def map_err_id split: prod.split)

lemma bindE_readE_liftE: "bindE (readE f) (\<lambda>r. bindE (liftE (g r)) h) = bindE (readE (\<lambda>s. bindR (f s) g)) h"
proof (rule ext)
  show "bindE (readE f) (\<lambda>r. bindE (liftE (g r)) h) s = bindE (readE (\<lambda>s. bindR (f s) g)) h s" for s
    by (cases "f s") (simp_all add: bindE_def readE_def liftE_def)
qed

lemma alone_gets [simp]:
  "alone (get_org_then M k f) = bindE (readE (Tenant.get_org M k)) (\<lambda>x. alone (f x))"
  "alone (get_formation_then M k c g) = bindE (readE (Tenant.get_formation M k c)) (\<lambda>x. alone (g x))"
  "alone (get_token_then M k c h) = bindE (readE (Tenant.get_token M k c)) (\<lambda>x. alone (h x))"
  "alone (get_sink_then M k c i) = bindE (readE (Tenant.get_sink M k c)) (\<lambda>x. alone (i x))"
  "alone (get_idp_then M k c j) = bindE (readE (Tenant.get_idp M k c)) (\<lambda>x. alone (j x))"
  by (simp_all add: get_org_then_def get_formation_then_def get_token_then_def get_sink_then_def get_idp_then_def
      bindE_readE_liftE Tenant.get_org_def [abs_def] Tenant.get_formation_def [abs_def] Tenant.get_token_def [abs_def]
      Tenant.get_sink_def [abs_def] Tenant.get_idp_def [abs_def])

lemma liftE_results: "liftE (Inr x) = retE x" "liftE (Inl e) = failE e"
  by (simp_all add: liftE_def retE_def failE_def)

lemma bindE_retE: "bindE m retE = m"
  by (rule ext) (simp add: bindE_def retE_def split: prod.split sum.split)

lemmas task_defs =
  create_org_task_def update_org_task_def delete_org_task_def create_formation_task_def delete_formation_task_def
  create_token_task_def revoke_token_task_def delete_token_task_def consume_token_task_def create_sink_task_def
  toggle_sink_task_def delete_sink_task_def create_idp_task_def toggle_idp_task_def delete_idp_task_def
  create_policy_rule_task_def delete_policy_rule_task_def append_audit_task_def set_cursor_task_def

lemmas method_defs =
  Tenant.create_org_def Tenant.update_org_def Tenant.delete_org_def Tenant.create_formation_def
  Tenant.delete_formation_def Tenant.create_token_def Tenant.revoke_token_def Tenant.delete_token_def
  validate_and_consume_token_def Tenant.create_sink_def toggle_sink_def Tenant.delete_sink_def Tenant.create_idp_def
  toggle_idp_def Tenant.delete_idp_def Tenant.create_policy_rule_def Tenant.delete_policy_rule_def
  Tenant.append_audit_def Tenant.set_cursor_def

lemma alone_task_of: "alone (task_of K M q) = exec K M q"
  by (cases q)
    (simp_all add: task_defs method_defs Let_def seqE_def alone_Done liftE_results bindE_retE if_distrib [of alone]
      cong: if_cong)

section \<open>Tasks that take turns\<close>

type_synonym ('s, 'e, 'a) pool = "'s \<times> ('s, 'e, 'a) task list"

inductive turn :: "('s, 'e, 'a) pool \<Rightarrow> ('s, 'e, 'a) pool \<Rightarrow> bool" where
  turn: "i < length ts \<Longrightarrow> ts ! i = Await f n \<Longrightarrow> turn (s, ts) (f s, ts[i := n s])"

inductive_cases turnE: "turn (s, ts) p"

text \<open>The same along a schedule, which names the task whose turn it is; a task that is done lets its turn pass.\<close>

fun take_turn :: "nat \<Rightarrow> ('s, 'e, 'a) pool \<Rightarrow> ('s, 'e, 'a) pool" where
  "take_turn i (s, ts) =
     (if i < length ts then
        (case ts ! i of Done r \<Rightarrow> (s, ts) | Await f n \<Rightarrow> (f s, ts[i := n s]))
      else (s, ts))"

lemma take_turn_call:
  "i < length ts \<Longrightarrow> ts ! i = call m k \<Longrightarrow> m s = (Inr x, s') \<Longrightarrow> take_turn i (s, ts) = (s', ts[i := k x])"
  by (simp add: call_def)

definition run_schedule :: "nat list \<Rightarrow> ('s, 'e, 'a) pool \<Rightarrow> ('s, 'e, 'a) pool" where
  "run_schedule sched p = fold take_turn sched p"

lemma take_turn_turns: "turn\<^sup>*\<^sup>* p (take_turn i p)"
  by (cases "(i, p)" rule: take_turn.cases) (auto split: task.split intro: turn.intros r_into_rtranclp)

lemma run_schedule_turns: "turn\<^sup>*\<^sup>* p (run_schedule sched p)"
  unfolding run_schedule_def
proof (induction sched arbitrary: p)
  case (Cons i sched)
  from take_turn_turns Cons.IH show ?case by simp (rule rtranclp_trans)
qed simp

lemma turns_schedule: "turn\<^sup>*\<^sup>* p p' \<Longrightarrow> \<exists>sched. p' = run_schedule sched p"
proof (induction rule: rtranclp_induct)
  case base
  have "p = run_schedule [] p" by (simp add: run_schedule_def)
  then show ?case ..
next
  case (step p' p'')
  then obtain sched where "p' = run_schedule sched p" by blast
  moreover from step(2) have "\<exists>i. p'' = take_turn i p'"
  proof cases
    case (turn i ts f n s)
    then have "p'' = take_turn i p'" by simp
    then show ?thesis ..
  qed
  then obtain i where "p'' = take_turn i p'" ..
  ultimately have "p'' = run_schedule (sched @ [i]) p" by (simp add: run_schedule_def)
  then show ?case ..
qed

text \<open>
  An invariant of the store that every call of every task keeps, and what it says of the results: then it holds after
  every turn, and every task that is done has such a result.
\<close>

primrec guards :: "('s \<Rightarrow> bool) \<Rightarrow> ('e + 'a \<Rightarrow> bool) \<Rightarrow> ('s, 'e, 'a) task \<Rightarrow> bool" where
  "guards I Q (Done r) \<longleftrightarrow> Q r"
| "guards I Q (Await f n) \<longleftrightarrow> (\<forall>s. I s \<longrightarrow> I (f s) \<and> guards I Q (n s))"

lemma turns_guarded:
  assumes "turn\<^sup>*\<^sup>* (s, ts) (s', ts')" and "I s" and "list_all2 (guards I) Qs ts"
  shows "I s' \<and> list_all2 (guards I) Qs ts'"
  using assms
proof (induction "(s', ts')" arbitrary: s' ts' rule: rtranclp_induct)
  case (step p)
  then obtain u us where p: "p = (u, us)" and IH: "I u" "list_all2 (guards I) Qs us" by (cases p) auto
  from step(2) [unfolded p] obtain i f n where t: "i < length us" "us ! i = Await f n" "s' = f u" "ts' = us[i := n u]"
    by (elim turnE) simp
  with IH(2) have "guards I (Qs ! i) (Await f n)" by (metis list_all2_conv_all_nth)
  with IH t show ?case by (auto simp: list_all2_conv_all_nth nth_list_update)
qed simp

lemma guards_weaken: "guards I Q t \<Longrightarrow> (\<And>r. Q r \<Longrightarrow> R r) \<Longrightarrow> guards I R t"
  by (induction t) auto

lemma guards_call:
  assumes "\<And>s r s'. I s \<Longrightarrow> m s = (r, s') \<Longrightarrow> I s'" and "\<And>e. Q (Inl e)"
    and "\<And>s x s'. I s \<Longrightarrow> m s = (Inr x, s') \<Longrightarrow> guards I Q (k x)"
  shows "guards I Q (call m k)"
  unfolding call_def guards.simps
proof (intro allI impI)
  fix s assume "I s"
  then show "I (snd (m s)) \<and> guards I Q (case fst (m s) of Inl e \<Rightarrow> Done (Inl e) | Inr x \<Rightarrow> k x)"
    using assms by (cases "m s") (auto split: sum.split)
qed

lemma guards_attempt:
  "(\<And>e. Q (Inl e)) \<Longrightarrow> (\<And>x. r = Inr x \<Longrightarrow> guards I Q (k x)) \<Longrightarrow> guards I Q (attempt r k)"
  by (cases r) (simp_all add: attempt_def)

lemma guards_map: "guards I Q (map_task h g t) \<longleftrightarrow> guards I (\<lambda>r. Q (map_sum h g r)) t"
  by (induction t) simp_all

text \<open>How many turns a task takes at most.\<close>

fun within :: "nat \<Rightarrow> ('s, 'e, 'a) task \<Rightarrow> bool" where
  "within n (Done r) = True"
| "within 0 (Await f k) = False"
| "within (Suc n) (Await f k) = (\<forall>s. within n (k s))"

lemma within_mono: "within m t \<Longrightarrow> m \<le> n \<Longrightarrow> within n t"
proof (induction m t arbitrary: n rule: within.induct)
  case (3 m f k)
  then show ?case by (cases n) auto
qed simp_all

lemma within_call: "(\<And>x. within n (k x)) \<Longrightarrow> within (Suc n) (call m k)"
  by (simp add: call_def split: sum.split)

lemma within_attempt: "(\<And>x. within n (k x)) \<Longrightarrow> within n (attempt r k)"
  by (simp add: attempt_def split: sum.split)

lemma within_map [simp]: "within n (map_task h g t) \<longleftrightarrow> within n t"
  by (induction n t rule: within.induct) simp_all

lemma within_gets:
  "(\<And>x. within n (f x)) \<Longrightarrow> within (Suc n) (get_org_then M k f)"
  "(\<And>x. within n (g x)) \<Longrightarrow> within (Suc n) (get_formation_then M k c g)"
  "(\<And>x. within n (h x)) \<Longrightarrow> within (Suc n) (get_token_then M k c h)"
  "(\<And>x. within n (i x)) \<Longrightarrow> within (Suc n) (get_sink_then M k c i)"
  "(\<And>x. within n (j x)) \<Longrightarrow> within (Suc n) (get_idp_then M k c j)"
  unfolding get_org_then_def get_formation_then_def get_token_then_def get_sink_then_def get_idp_then_def
  by (intro within_call within_attempt; assumption)+

lemmas within_rules = within_call within_attempt within_gets

definition MAX_CALLS :: nat where
  "MAX_CALLS = 5"

lemma within_task_of: "within MAX_CALLS (task_of K M q)"
  unfolding MAX_CALLS_def numeral_eq_Suc pred_numeral_simps arith_simps BitM.simps
  by (cases q) (auto simp: task_defs Let_def intro!: within_rules)

section \<open>Schedules\<close>

lemma run_schedule_Nil [simp]: "run_schedule [] p = p"
  by (simp add: run_schedule_def)

lemma run_schedule_Cons [simp]: "run_schedule (i # sched) p = run_schedule sched (take_turn i p)"
  by (simp add: run_schedule_def)

lemma run_schedule_append: "run_schedule (xs @ ys) p = run_schedule ys (run_schedule xs p)"
  by (simp add: run_schedule_def)

lemma take_turn_length [simp]: "length (snd (take_turn i p)) = length (snd p)"
  by (cases "(i, p)" rule: take_turn.cases) (simp split: task.split)

lemma take_turn_within:
  assumes "j < length (snd p)" and "within n (snd p ! j)"
  shows "within (if i = j then n - 1 else n) (snd (take_turn i p) ! j)"
proof (cases p)
  case (Pair s ts)
  with assms show ?thesis by (cases n; cases "ts ! i") (auto simp: nth_list_update)
qed

lemma run_schedule_within:
  "j < length (snd p) \<Longrightarrow> within n (snd p ! j) \<Longrightarrow>
     within (n - count_list sched j) (snd (run_schedule sched p) ! j)"
proof (induction sched arbitrary: p n)
  case (Cons i sched)
  let ?n = "if i = j then n - 1 else n"
  have "n - count_list (i # sched) j = ?n - count_list sched j" by simp
  with take_turn_within [OF Cons.prems, of i] Cons.IH [of "take_turn i p" ?n] Cons.prems(1) show ?case by simp
qed simp

lemma run_schedule_length: "length (snd (run_schedule sched p)) = length (snd p)"
  by (induction sched arbitrary: p) simp_all

lemma within_0: "within 0 t \<longleftrightarrow> (\<exists>r. t = Done r)"
  by (cases t) simp_all

lemma turns_of_one:
  "i < length ts \<Longrightarrow> within n (ts ! i) \<Longrightarrow>
     run_schedule (replicate n i) (s, ts) = (snd (alone (ts ! i) s), ts[i := Done (fst (alone (ts ! i) s))])"
proof (induction n arbitrary: s ts)
  case 0
  then show ?case by (auto simp: within_0) (metis list_update_id)
next
  case (Suc n)
  show ?case
  proof (cases "ts ! i")
    case (Done r)
    with Suc.IH [of ts s] Suc.prems show ?thesis by simp
  next
    case (Await f k)
    with Suc.IH [of "ts[i := k s]" "f s"] Suc.prems show ?thesis by simp
  qed
qed

text \<open>One task after the other is one of the schedules.\<close>

primrec alone_all :: "('s, 'e, 'a) task list \<Rightarrow> 's \<Rightarrow> ('e + 'a) list \<times> 's" where
  "alone_all [] s = ([], s)"
| "alone_all (t # ts) s =
     (case alone t s of (r, s') \<Rightarrow> (case alone_all ts s' of (rs, s'') \<Rightarrow> (r # rs, s'')))"

definition one_by_one :: "nat \<Rightarrow> nat \<Rightarrow> nat \<Rightarrow> nat list" where
  "one_by_one n i m = concat (map (replicate n) [i..<m])"

lemma run_one_by_one:
  "length ds = i \<Longrightarrow> m = i + length ts \<Longrightarrow> (\<And>t. t \<in> set ts \<Longrightarrow> within n t) \<Longrightarrow>
     run_schedule (one_by_one n i m) (s, map Done ds @ ts) =
       (snd (alone_all ts s), map Done (ds @ fst (alone_all ts s)))"
proof (induction ts arbitrary: ds i s)
  case Nil
  then show ?case by (simp add: one_by_one_def)
next
  case (Cons t ts)
  let ?ts = "map Done ds @ t # ts"
  obtain r s' where t: "alone t s = (r, s')" by fastforce
  have "i < m" using Cons.prems by simp
  then have "one_by_one n i m = replicate n i @ one_by_one n (Suc i) m"
    by (simp add: one_by_one_def upt_conv_Cons)
  moreover have "?ts ! i = t" using Cons.prems by (simp add: nth_append)
  moreover have "?ts[i := Done r] = map Done (ds @ [r]) @ ts"
    using Cons.prems by (simp add: list_update_append)
  ultimately have "run_schedule (one_by_one n i m) (s, ?ts) =
      run_schedule (one_by_one n (Suc i) m) (s', map Done (ds @ [r]) @ ts)"
    using turns_of_one [of i ?ts n s] Cons.prems t by (simp add: run_schedule_append)
  also have "\<dots> = (snd (alone_all (t # ts) s), map Done (ds @ fst (alone_all (t # ts) s)))"
    using Cons.IH [of "ds @ [r]" "Suc i" s'] Cons.prems t by (simp split: prod.split)
  finally show ?case .
qed

section \<open>What the tasks keep of the tokens\<close>

definition revoked_or_gone :: "string \<Rightarrow> string \<Rightarrow> abs_store \<Rightarrow> bool" where
  "revoked_or_gone k c a = (case a_tokens a (k, c) of None \<Rightarrow> True | Some t \<Rightarrow> tok_revoked t)"

definition counters_bounded :: "abs_store \<Rightarrow> bool" where
  "counters_bounded a \<longleftrightarrow>
     (\<forall>kc t m. a_tokens a kc = Some t \<longrightarrow> tok_max_uses t = Some m \<longrightarrow> tok_uses t \<le> m)"

lemma org_removed_token:
  assumes "org_removed k a a'"
  shows "a_tokens a' (j, c) = None \<or> a_tokens a' (j, c) = a_tokens a (j, c)"
proof -
  from assms have "drops_rows k (a_tokens a) (a_tokens a')" by (simp add: org_removed_def)
  then show ?thesis by (cases "j = k") (auto simp: drops_rows_def)
qed

lemma revoked_or_gone_removed: "org_removed j a a' \<Longrightarrow> revoked_or_gone k c a \<Longrightarrow> revoked_or_gone k c a'"
  using org_removed_token [of j a a' k c] by (auto simp: revoked_or_gone_def)

lemma counters_bounded_removed: "org_removed j a a' \<Longrightarrow> counters_bounded a \<Longrightarrow> counters_bounded a'"
  unfolding counters_bounded_def using org_removed_token [of j a a'] by (metis option.distinct(1) surj_pair)

lemma revoked_or_gone_quiet: "quiet j a a' \<Longrightarrow> revoked_or_gone k c a \<Longrightarrow> revoked_or_gone k c a'"
  by (simp add: quiet_def revoked_or_gone_def)

lemma counters_bounded_quiet: "quiet j a a' \<Longrightarrow> counters_bounded a \<Longrightarrow> counters_bounded a'"
  by (simp add: quiet_def counters_bounded_def)

lemma check_token_room:
  assumes "check_token now app c t = Inr ()" and "tok_max_uses t = Some m"
  shows "tok_uses t + 1 \<le> m"
proof -
  from assms have "tok_uses t < m" by (auto simp: check_token_def not_le split: if_splits option.splits)
  then show ?thesis by (rule inc_le)
qed

section \<open>Tasks of a manager on a backend that keeps the contract\<close>

context tenant_service
begin

definition holds :: "(abs_store \<Rightarrow> bool) \<Rightarrow> 's \<Rightarrow> bool" where
  "holds P s \<longleftrightarrow> invar s \<and> P (\<alpha> s)"

definition stable :: "(abs_store \<Rightarrow> abs_store \<Rightarrow> bool) \<Rightarrow> (abs_store \<Rightarrow> bool) \<Rightarrow> bool" where
  "stable R P \<longleftrightarrow> (\<forall>a a'. R a a' \<longrightarrow> P a \<longrightarrow> P a')"

lemma stable_quiet: "stable (others_same k) P \<Longrightarrow> stable (quiet k) P"
  unfolding stable_def quiet_def by blast

lemma guards_write:
  assumes "keeps R m" and "stable R P" and "\<And>e. Q (Inl e)"
    and "\<And>s x s'. holds P s \<Longrightarrow> m s = (Inr x, s') \<Longrightarrow> guards (holds P) Q (k x)"
  shows "guards (holds P) Q (call m k)"
proof (rule guards_call [OF _ assms(3,4)])
  show "holds P s'" if "holds P s" "m s = (r, s')" for s r s'
    using keepsD [OF assms(1) _ that(2)] that(1) assms(2) by (auto simp: holds_def stable_def)
qed

lemma guards_read:
  assumes "\<And>e. Q (Inl e)" and "\<And>s x. holds P s \<Longrightarrow> f s = Inr x \<Longrightarrow> guards (holds P) Q (k x)"
  shows "guards (holds P) Q (call (readE f) k)"
  by (rule guards_call) (auto simp: readE_eq assms)

lemma guards_get_org:
  assumes "\<And>e. Q (Inl e)"
    and "\<And>s x. holds P s \<Longrightarrow> a_orgs (\<alpha> s) k = Some x \<Longrightarrow> org_org_id x = k \<Longrightarrow> nul_free k \<Longrightarrow> guards (holds P) Q (f x)"
  shows "guards (holds P) Q (get_org_then M k f)"
  unfolding get_org_then_def
proof (intro guards_read guards_attempt assms(1))
  fix s r x
  assume s: "holds P s" and run: "be_get_org (tm_store M) k s = Inr r" "ok_or r (OrgNotFound k) = Inr x"
  then have "Tenant.get_org M k s = Inr x" by (simp add: Tenant.get_org_def)
  with s show "guards (holds P) Q (f x)"
    using get_org_Inr [of s k x] by (auto simp: holds_def intro: assms(2) [of s])
qed

lemma guards_get_formation:
  assumes "\<And>e. Q (Inl e)" and "\<And>x. guards (holds P) Q (f x)"
  shows "guards (holds P) Q (get_formation_then M k c f)"
  unfolding get_formation_then_def by (intro guards_read guards_attempt assms)

lemma guards_get_token:
  assumes "\<And>e. Q (Inl e)"
    and "\<And>s x. holds P s \<Longrightarrow> a_tokens (\<alpha> s) (k, c) = Some x \<Longrightarrow> tok_org_id x = k \<Longrightarrow> tok_token_id x = c \<Longrightarrow>
      nul_free k \<Longrightarrow> nul_free c \<Longrightarrow> guards (holds P) Q (f x)"
  shows "guards (holds P) Q (get_token_then M k c f)"
  unfolding get_token_then_def
proof (intro guards_read guards_attempt assms(1))
  fix s r x
  assume s: "holds P s" and run: "be_get_token (tm_store M) k c s = Inr r" "ok_or r (TokenNotFound c k) = Inr x"
  then have "Tenant.get_token M k c s = Inr x" by (simp add: Tenant.get_token_def)
  with s show "guards (holds P) Q (f x)"
    using get_token_Inr [of s k c x] by (auto simp: holds_def intro: assms(2) [of s])
qed

lemma guards_get_sink:
  assumes "\<And>e. Q (Inl e)"
    and "\<And>x. sink_org_id x = k \<Longrightarrow> sink_sink_id x = c \<Longrightarrow> nul_free k \<Longrightarrow> nul_free c \<Longrightarrow> guards (holds P) Q (f x)"
  shows "guards (holds P) Q (get_sink_then M k c f)"
  unfolding get_sink_then_def
proof (intro guards_read guards_attempt assms(1))
  fix s r x
  assume s: "holds P s" and run: "be_get_sink (tm_store M) k c s = Inr r" "ok_or r (SinkNotFound c k) = Inr x"
  then have "Tenant.get_sink M k c s = Inr x" by (simp add: Tenant.get_sink_def)
  with s show "guards (holds P) Q (f x)"
    using get_sink_Inr [of s k c x] by (auto simp: holds_def intro: assms(2))
qed

lemma guards_get_idp:
  assumes "\<And>e. Q (Inl e)"
    and "\<And>x. idp_org_id x = k \<Longrightarrow> idp_idp_id x = c \<Longrightarrow> nul_free k \<Longrightarrow> nul_free c \<Longrightarrow> guards (holds P) Q (f x)"
  shows "guards (holds P) Q (get_idp_then M k c f)"
  unfolding get_idp_then_def
proof (intro guards_read guards_attempt assms(1))
  fix s r x
  assume s: "holds P s" and run: "be_get_idp (tm_store M) k c s = Inr r" "ok_or r (IdpNotFound c k) = Inr x"
  then have "Tenant.get_idp M k c s = Inr x" by (simp add: Tenant.get_idp_def)
  with s show "guards (holds P) Q (f x)"
    using get_idp_Inr [of s k c x] by (auto simp: holds_def intro: assms(2))
qed

lemmas guards_gets = guards_get_org guards_get_formation guards_get_token guards_get_sink guards_get_idp

text \<open>Requests that are not about tokens, with any condition their writes respect.\<close>

lemma guards_delete:
  assumes "keeps R m" and "stable R P"
  shows "guards (holds P) (\<lambda>_. True) (call m (\<lambda>found. if \<not> found then Done (Inl e) else Done (Inr ())))"
  by (rule guards_write [OF assms]) auto

lemmas guards_rules = guards_attempt guards_read guards_gets

abbreviation kept :: "(abs_store \<Rightarrow> bool) \<Rightarrow> ('s, 'e, 'a) task \<Rightarrow> bool" where
  "kept P \<equiv> guards (holds P) (\<lambda>_. True)"

lemma quiet_tasks:
  assumes P: "stable (quiet k) P"
  shows "kept P (create_org_task M now k name)"
    and "kept P (update_org_task M k display_name quotas)"
    and "kept P (create_formation_task K M en r k c pol)"
    and "kept P (delete_formation_task M k c)"
    and "mesh_crates_ok K \<Longrightarrow> kept P (create_sink_task K M b now k st)"
    and "kept P (toggle_sink_task M k c on)"
    and "kept P (delete_sink_task M k c)"
    and "mesh_crates_ok K \<Longrightarrow> kept P (create_idp_task K M b now k u ci cs)"
    and "kept P (toggle_idp_task M k c on)"
    and "kept P (delete_idp_task M k c)"
    and "mesh_crates_ok K \<Longrightarrow> kept P (create_policy_rule_task K M b k ck cv t pm pr)"
    and "kept P (delete_policy_rule_task M k c)"
    and "nul_free k \<Longrightarrow> aud_org_id e = k \<Longrightarrow> kept P (append_audit_task M e)"
    and "nul_free k \<Longrightarrow> nul_free c \<Longrightarrow> kept P (set_cursor_task M k c d h)"
  unfolding task_defs Let_def
  by (auto simp: P validate_identifier_iff identifier_nul_free hex_nul_free split: option.split
      intro!: guards_rules guards_delete guards_write [OF _ P] keeps_storage keeps_ignore)

lemma token_tasks:
  assumes P: "stable (others_same k) P"
  shows "nul_free k \<Longrightarrow> kept P (delete_org_task M k)"
    and "mesh_crates_ok K \<Longrightarrow> kept P (create_token_task K M b now k c l mu ex)"
    and "kept P (revoke_token_task M k c)"
    and "kept P (delete_token_task M k c)"
    and "kept P (consume_token_task M now k app c)"
  unfolding task_defs Let_def
  by (auto simp: P token_id_nul_free [simplified]
      intro!: guards_rules guards_delete guards_write [OF _ P] keeps_storage)

lemma kept_map [simp]: "kept P (map_task h g t) \<longleftrightarrow> kept P t"
  by (simp add: guards_map)

lemma quiet_task:
  assumes "mesh_crates_ok K" and "request_ok q" and "\<not> token_request q" and "stable (quiet (request_org q)) P"
  shows "kept P (task_of K M q)"
  using assms(1-3) quiet_tasks [OF assms(4)] by (cases q) simp_all

lemma kept_task:
  assumes "mesh_crates_ok K" and "request_ok q" and P: "stable (others_same (request_org q)) P"
  shows "kept P (task_of K M q)"
proof (cases "token_request q")
  case True
  with assms(1,2) token_tasks [OF P] show ?thesis by (cases q) simp_all
next
  case False
  from quiet_task [OF assms(1,2) this stable_quiet [OF P]] show ?thesis .
qed

lemma kept_pool:
  assumes "turn\<^sup>*\<^sup>* (s, us) (s', ts)" and "holds P s" and "\<And>u. u \<in> set us \<Longrightarrow> kept P u"
  shows "holds P s'"
proof -
  have "list_all2 (guards (holds P)) (replicate (length us) (\<lambda>_. True)) us"
    using assms(3) by (simp add: list_all2_conv_all_nth)
  from turns_guarded [OF assms(1,2) this] show ?thesis by simp
qed

subsection \<open>Revocation and counters\<close>

lemma keeps_cond:
  assumes "wr invar \<alpha> m T" and "\<And>a x a'. T a x a' \<Longrightarrow> P a \<Longrightarrow> P a'"
  shows "keeps (\<lambda>a a'. P a \<longrightarrow> P a') m"
  by (rule keeps_wr [OF assms(1)]) (auto simp: reflp_def intro: assms(2))

lemma stable_cond: "stable (\<lambda>a a'. P a \<longrightarrow> P a') P"
  by (simp add: stable_def)

lemmas guards_token_write = guards_write [OF keeps_cond stable_cond]

lemma revoked_tasks:
  assumes "mesh_crates_ok K" and "request_ok q" and "\<not> makes_token K k c q"
  shows "guards (holds (revoked_or_gone k c)) (\<lambda>r. consumes_token k c q \<longrightarrow> \<not> is_ok r) (task_of K M q)"
proof (cases "token_request q")
  case False
  then have "\<not> consumes_token k c q" by (cases q) simp_all
  with quiet_task [OF assms(1,2) False] revoked_or_gone_quiet show ?thesis by (auto simp: stable_def)
next
  case True
  let ?P = "revoked_or_gone k c"
  show ?thesis
  proof (cases q)
    case (DeleteOrg j)
    with assms(2) show ?thesis
      by (auto simp: delete_org_task_def intro!: guards_token_write [OF delete_org] elim: revoked_or_gone_removed)
  next
    case (DeleteToken j d)
    then show ?thesis
      by (auto simp: delete_token_task_def revoked_or_gone_def intro!: guards_token_write [OF delete_token])
  next
    case (RevokeToken j d)
    then show ?thesis
      by (auto simp: revoke_token_task_def guards_map revoked_or_gone_def Let_def
          intro!: guards_rules guards_token_write [OF update_token])
  next
    case (CreateToken b now j app l mu ex)
    with assms show ?thesis
      by (auto simp: create_token_task_def guards_map revoked_or_gone_def Let_def token_id_nul_free [simplified]
          intro!: guards_rules guards_token_write [OF create_token])
  next
    case (ConsumeToken now j app d)
    then show ?thesis
      by (auto simp: consume_token_task_def guards_map revoked_or_gone_def Let_def holds_def check_token_def
          split: if_splits intro!: guards_rules guards_token_write [OF update_token])
  qed (use True in simp_all)
qed

lemma counter_tasks:
  assumes "mesh_crates_ok K" and "request_ok q"
  shows "kept counters_bounded (task_of K M q)"
proof (cases "token_request q")
  case False
  with quiet_task [OF assms False] counters_bounded_quiet show ?thesis by (auto simp: stable_def)
next
  case True
  show ?thesis
  proof (cases q)
    case (DeleteOrg j)
    with assms(2) show ?thesis
      by (auto simp: delete_org_task_def intro!: guards_token_write [OF delete_org] elim: counters_bounded_removed)
  next
    case (DeleteToken j d)
    then show ?thesis
      by (auto simp: delete_token_task_def counters_bounded_def split: if_splits intro!: guards_token_write [OF delete_token])
  next
    case (RevokeToken j d)
    then show ?thesis
      by (auto simp: revoke_token_task_def counters_bounded_def Let_def holds_def split: if_splits
          intro!: guards_rules guards_token_write [OF update_token])
  next
    case (CreateToken b now j app l mu ex)
    with assms show ?thesis
      by (auto simp: create_token_task_def counters_bounded_def Let_def token_id_nul_free [simplified] split: if_splits
          intro!: guards_rules guards_token_write [OF create_token])
  next
    case (ConsumeToken now j app d)
    then show ?thesis
      by (auto simp: consume_token_task_def counters_bounded_def Let_def holds_def check_token_room
          split: if_splits intro!: guards_rules guards_token_write [OF update_token])
  qed (use True in simp_all)
qed

end

end
