(* ===== verification/Enroll.thy ===== *)
theory Enroll
  imports Tenant_Contract
begin

text \<open>
  Enrollment (\<open>src/api/enroll.rs\<close>): the handler of \<open>POST /:org_id/formations/:app_id/enroll\<close> and what
  it calls, over a tenant manager. Parameters stand for what the code reaches outside: the HTTP client
  that talks to the identity provider, the hex crate, certificate issuance in \<open>peat_mesh\<close>, and the
  text of a JSON number. The clock is read for the rate limit, for the token and for the audit entry, and
  random bytes once; those are arguments.
\<close>

section \<open>Requests, responses, errors\<close>

text \<open>An error of the API: its HTTP status, and the error it reports or its own message.\<close>

type_synonym api_error = "nat \<times> (err + string)"

definition bad_request :: "err \<Rightarrow> api_error" where
  "bad_request e = (400, Inl e)"

definition unauthorized :: "string \<Rightarrow> api_error" where
  "unauthorized msg = (401, Inr msg)"

definition forbidden :: "string \<Rightarrow> api_error" where
  "forbidden msg = (403, Inr msg)"

definition too_many_requests :: "string \<Rightarrow> api_error" where
  "too_many_requests msg = (429, Inr msg)"

definition internal :: "err \<Rightarrow> api_error" where
  "internal e = (500, Inl e)"

record enroll_request =
  er_token :: "string option"
  er_public_key :: "string option"
  er_node_id :: "string option"

record enrollment_response =
  resp_decision :: enrollment_decision
  resp_audit_id :: string
  resp_certificate :: "string option"
  resp_mesh_id :: "string option"
  resp_authority_public_key :: "string option"

type_synonym 'j claims = "(string \<times> 'j json) list"

record ('g, 'j) enroll_crates =
  ec_hex_decode :: "string \<Rightarrow> err + bytes"
  ec_issue_certificate :: "'g \<Rightarrow> bytes \<Rightarrow> string \<Rightarrow> wire_tier \<Rightarrow> u8 \<Rightarrow> u64 \<Rightarrow> bytes"
  ec_authority_public_key :: "'g \<Rightarrow> bytes"
  ec_wire_bits :: wire_bits
  ec_number_text :: "'j \<Rightarrow> string"
  ec_discover :: "string \<Rightarrow> err + 'j json"
  ec_introspect :: "string \<Rightarrow> string \<Rightarrow> string \<Rightarrow> string \<Rightarrow> err + 'j claims http_response"
  ec_userinfo :: "string \<Rightarrow> string \<Rightarrow> err + 'j claims http_response"

section \<open>Helpers\<close>

definition validate_public_key :: "('g, 'j) enroll_crates \<Rightarrow> string \<Rightarrow> api_error + unit" where
  "validate_public_key H pk_hex =
     (case ec_hex_decode H pk_hex of
        Inl _ \<Rightarrow> Inl (bad_request (Io ''Invalid public_key: not valid hex''))
      | Inr bs \<Rightarrow>
          if length bs \<noteq> 32 then Inl (bad_request (Io ''Invalid public_key: expected 32 bytes''))
          else Inr ())"

text \<open>
  \<open>extract_bearer\<close>: the \<open>Authorization\<close> header (as text, if it is text) wins over the body.
\<close>

definition extract_bearer :: "string option \<Rightarrow> enroll_request option \<Rightarrow> string option" where
  "extract_bearer authorization body =
     (case Option.bind authorization (\<lambda>val. strip_prefix val ''Bearer '') of
        Some token \<Rightarrow> Some token
      | None \<Rightarrow> Option.bind body er_token)"

text \<open>RFC 7662: the \<open>active\<close> field is required, and only \<open>true\<close> will do.\<close>

definition check_active :: "'j claims \<Rightarrow> err + 'j claims" where
  "check_active body =
     (case map_of body ''active'' of
        Some (JBool True) \<Rightarrow> Inr body
      | Some (JBool False) \<Rightarrow> Inl (Io ''Token is not active (revoked or expired)'')
      | _ \<Rightarrow> Inl (Io ''Introspection response missing required active field''))"

lemma check_active_Inr: "check_active b = Inr cs \<longleftrightarrow> cs = b \<and> map_of b ''active'' = Some (JBool True)"
  by (auto simp: check_active_def split: option.splits json.splits bool.splits)

definition introspect_oidc_token ::
  "('g, 'j) enroll_crates \<Rightarrow> string \<Rightarrow> string \<Rightarrow> string \<Rightarrow> string \<Rightarrow> err + 'j claims" where
  "introspect_oidc_token H issuer_url client_id client_secret bearer =
     (let discovery_url = trim_end_matches issuer_url CHR ''/'' @ ''/.well-known/openid-configuration'' in
      bindR (ec_discover H discovery_url) (\<lambda>discovery.
        case Option.bind (json_get discovery ''introspection_endpoint'') as_str of
          Some introspection_url \<Rightarrow>
            bindR (ec_introspect H introspection_url client_id client_secret bearer) (\<lambda>resp.
            bindR (ensure (is_success (hr_status resp)) (HttpStatus (hr_status resp))) (\<lambda>_.
              bindR (hr_json resp) check_active))
        | None \<Rightarrow>
            bindR (ok_or (Option.bind (json_get discovery ''userinfo_endpoint'') as_str)
                     (Io ''IdP has neither introspection nor userinfo endpoint'')) (\<lambda>userinfo_url.
            bindR (ec_userinfo H userinfo_url bearer) (\<lambda>resp.
            bindR (ensure (is_success (hr_status resp)) (HttpStatus (hr_status resp))) (\<lambda>_.
              hr_json resp)))))"

text \<open>Whether a rule matches a claim's value.\<close>

fun claim_matches :: "('j \<Rightarrow> string) \<Rightarrow> policy_rule \<Rightarrow> 'j json \<Rightarrow> bool" where
  "claim_matches num rule (JString s) = (s = rule_claim_value rule)"
| "claim_matches num rule (JBool b) =
     ((rule_claim_value rule = ''true'' \<and> b) \<or> (rule_claim_value rule = ''false'' \<and> \<not> b))"
| "claim_matches num rule (JArray arr) =
     list_ex (\<lambda>v. case as_str v of Some s \<Rightarrow> s = rule_claim_value rule | None \<Rightarrow> False) arr"
| "claim_matches num rule (JNumber n) = (num n = rule_claim_value rule)"
| "claim_matches num rule _ = False"

definition rule_applies :: "('j \<Rightarrow> string) \<Rightarrow> 'j claims \<Rightarrow> policy_rule \<Rightarrow> bool" where
  "rule_applies num cs rule =
     (case map_of cs (rule_claim_key rule) of
        None \<Rightarrow> False
      | Some claim_val \<Rightarrow> claim_matches num rule claim_val)"

fun first_match :: "('j \<Rightarrow> string) \<Rightarrow> 'j claims \<Rightarrow> policy_rule list \<Rightarrow> enrollment_decision" where
  "first_match num cs [] = Approved Endpoint 0"
| "first_match num cs (r # rs) =
     (if rule_applies num cs r then Approved (rule_tier r) (rule_permissions r)
      else first_match num cs rs)"

definition evaluate_policy ::
  "('j \<Rightarrow> string) \<Rightarrow> policy_rule list \<Rightarrow> 'j claims \<Rightarrow> enrollment_decision" where
  "evaluate_policy num rules cs = first_match num cs (sort_key rule_priority rules)"

definition build_audit ::
  "u64 \<Rightarrow> string \<Rightarrow> string \<Rightarrow> string \<Rightarrow> string \<Rightarrow> string \<Rightarrow> enrollment_decision \<Rightarrow> audit_entry" where
  "build_audit now audit_id org_id app_id idp_id subject decision =
     \<lparr>aud_audit_id = audit_id, aud_org_id = org_id, aud_app_id = app_id, aud_idp_id = idp_id,
      aud_subject = subject, aud_decision = decision, aud_timestamp_ms = now\<rparr>"

definition generate_id :: "('k, 'g) mesh_crates \<Rightarrow> bytes \<Rightarrow> string" where
  "generate_id K buf = mc_hex_encode K buf"

definition cert_validity_ms :: u64 where
  "cert_validity_ms = 24 * 60 * 60 * 1000"

definition try_issue_certificate ::
  "('k, 'g) mesh_crates \<Rightarrow> ('g, 'j) enroll_crates \<Rightarrow> ('s, 'n) tenant_manager \<Rightarrow> 'n call_env
     \<Rightarrow> string \<Rightarrow> string \<Rightarrow> enrollment_decision \<Rightarrow> enroll_request option \<Rightarrow> 's
     \<Rightarrow> string option \<times> string option \<times> string option" where
  "try_issue_certificate K H M e org_id app_id decision body s =
     (case decision of
        Denied _ \<Rightarrow> (None, None, None)
      | Approved tier perms \<Rightarrow>
     (case body of
        None \<Rightarrow> (None, None, None)
      | Some b \<Rightarrow>
     (case (er_public_key b, er_node_id b) of
        (Some public_key_hex, Some node_id) \<Rightarrow>
     (case ec_hex_decode H public_key_hex of
        Inl _ \<Rightarrow> (None, None, None)
      | Inr pk_bytes \<Rightarrow>
          if length pk_bytes \<noteq> 32 then (None, None, None)
          else
     (case load_genesis K M e org_id app_id s of
        Inl _ \<Rightarrow> (None, None, None)
      | Inr genesis \<Rightarrow>
          let cert = ec_issue_certificate H genesis pk_bytes node_id (to_mesh_tier tier)
                       (to_mesh (ec_wire_bits H) perms) cert_validity_ms
          in (Some (mc_hex_encode K cert), Some (mc_mesh_id K genesis),
              Some (mc_hex_encode K (ec_authority_public_key H genesis)))))
      | _ \<Rightarrow> (None, None, None))))"

section \<open>The handler\<close>

text \<open>The decision under the formation's policy, with the identity it is recorded under.\<close>

definition decide_controlled ::
  "('g, 'j) enroll_crates \<Rightarrow> ('s, 'n) tenant_manager \<Rightarrow> u64 \<Rightarrow> string \<Rightarrow> string \<Rightarrow> string
     \<Rightarrow> ('s, api_error, enrollment_decision \<times> string \<times> string) op" where
  "decide_controlled H M now org_id app_id bearer =
     (if starts_with bearer ''peat_'' then
        (\<lambda>s. case validate_and_consume_token M now org_id app_id bearer s of
           (Inr token, s') \<Rightarrow>
             (Inr (Approved Endpoint 0, ''token'', ''token:'' @ tok_token_id token), s')
         | (Inl _, s') \<Rightarrow>
             (Inl (unauthorized ''Enrollment token is invalid, revoked, or expired''), s'))
      else
        bindE (mapErrE bad_request (readE (list_idps M org_id))) (\<lambda>idps.
        bindE (liftE (ok_or (find idp_enabled idps)
                 (bad_request (Io ''No enabled identity provider configured'')))) (\<lambda>idp.
        bindE (liftE (map_err (\<lambda>_. unauthorized ''Token validation failed'')
                 (introspect_oidc_token H (idp_issuer_url idp) (idp_client_id idp)
                    (idp_client_secret idp) bearer))) (\<lambda>cs.
        let subject = (case Option.bind (map_of cs ''sub'') as_str of None \<Rightarrow> ''unknown'' | Some x \<Rightarrow> x)
        in bindE (mapErrE bad_request (readE (list_policy_rules M org_id))) (\<lambda>rules.
             retE (evaluate_policy (ec_number_text H) rules cs, idp_idp_id idp, subject))))))"

definition decide ::
  "('g, 'j) enroll_crates \<Rightarrow> ('s, 'n) tenant_manager \<Rightarrow> u64 \<Rightarrow> string \<Rightarrow> string \<Rightarrow> string option
     \<Rightarrow> enroll_request option \<Rightarrow> enrollment_policy
     \<Rightarrow> ('s, api_error, enrollment_decision \<times> string \<times> string) op" where
  "decide H M now org_id app_id authorization body policy =
     (case policy of
        Open \<Rightarrow> retE (Approved Endpoint 0, ''none'', ''anonymous'')
      | Controlled \<Rightarrow>
          bindE (liftE (ok_or (extract_bearer authorization body)
                   (unauthorized ''Missing bearer token''))) (\<lambda>bearer.
            decide_controlled H M now org_id app_id bearer)
      | Strict \<Rightarrow> failE (500, Inr ''unreachable''))"

text \<open>\<open>saturating_sub\<close> on \<open>u64\<close>.\<close>

definition saturating_sub :: "u64 \<Rightarrow> u64 \<Rightarrow> u64" where
  "saturating_sub a b = (if b \<le> a then a - b else 0)"

record 'n enroll_env =
  ee_now_limit :: u64
  ee_now_token :: u64
  ee_now_audit :: u64
  ee_audit_buf :: bytes
  ee_call :: "'n call_env"

text \<open>After the decision: the audit entry (a failure to store it is only logged), the denial, the certificate.\<close>

definition settle ::
  "('k, 'g) mesh_crates \<Rightarrow> ('g, 'j) enroll_crates \<Rightarrow> ('s, 'n) tenant_manager \<Rightarrow> 'n enroll_env
     \<Rightarrow> string \<Rightarrow> string \<Rightarrow> enroll_request option \<Rightarrow> enrollment_decision \<Rightarrow> string \<Rightarrow> string
     \<Rightarrow> ('s, api_error, enrollment_response) op" where
  "settle K H M v org_id app_id body decision idp_id subject =
     (let audit_id = generate_id K (ee_audit_buf v);
          entry = build_audit (ee_now_audit v) audit_id org_id app_id idp_id subject decision
      in seqE (ignoreE (append_audit M entry))
           (case decision of
              Denied reason \<Rightarrow> failE (forbidden reason)
            | Approved tier permissions \<Rightarrow>
                readE (\<lambda>s.
                  case try_issue_certificate K H M (ee_call v) org_id app_id decision body s of
                    (certificate, mesh_id, authority_public_key) \<Rightarrow>
                      Inr \<lparr>resp_decision = decision, resp_audit_id = audit_id,
                           resp_certificate = certificate, resp_mesh_id = mesh_id,
                           resp_authority_public_key = authority_public_key\<rparr>)))"

definition enroll ::
  "('k, 'g) mesh_crates \<Rightarrow> ('g, 'j) enroll_crates \<Rightarrow> ('s, 'n) tenant_manager \<Rightarrow> 'n enroll_env
     \<Rightarrow> string \<Rightarrow> string \<Rightarrow> string option \<Rightarrow> enroll_request option
     \<Rightarrow> ('s, api_error, enrollment_response) op" where
  "enroll K H M v org_id app_id authorization body =
     bindE (mapErrE bad_request (readE (get_org M org_id))) (\<lambda>org.
     bindE (mapErrE bad_request (readE (get_formation M org_id app_id))) (\<lambda>formation.
     seqE (liftE (case Option.bind body er_public_key of
                    None \<Rightarrow> Inr () | Some pk \<Rightarrow> validate_public_key H pk))
    (bindE (mapErrE internal (readE (count_recent_enrollments M org_id
              (saturating_sub (ee_now_limit v) 3600000)))) (\<lambda>recent.
       if max_enrollments_per_hour (org_quotas org) \<le> (of_nat recent :: u32)
       then failE (too_many_requests ''Enrollment rate limit exceeded'')
       else if form_enrollment_policy formation = Strict
       then failE (forbidden ''Formation requires explicit admin approval (Strict policy)'')
       else
     bindE (decide H M (ee_now_token v) org_id app_id authorization body
              (form_enrollment_policy formation)) (\<lambda>(decision, idp_id, subject).
       settle K H M v org_id app_id body decision idp_id subject)))))"

section \<open>The policy engine\<close>

lemma first_match_find:
  "first_match num cs rs =
     (case find (rule_applies num cs) rs of
        None \<Rightarrow> Approved Endpoint 0
      | Some r \<Rightarrow> Approved (rule_tier r) (rule_permissions r))"
  by (induction rs) auto

lemma evaluate_policy_cases:
  obtains (rule) r where "r \<in> set rules" "rule_applies num cs r"
      "evaluate_policy num rules cs = Approved (rule_tier r) (rule_permissions r)"
      "\<forall>q \<in> set rules. rule_applies num cs q \<longrightarrow> rule_priority r \<le> rule_priority q"
    | (none) "\<forall>q \<in> set rules. \<not> rule_applies num cs q"
      "evaluate_policy num rules cs = Approved Endpoint 0"
proof (cases "find (rule_applies num cs) (sort_key rule_priority rules)")
  case None
  then have "evaluate_policy num rules cs = Approved Endpoint 0"
    by (simp add: evaluate_policy_def first_match_find)
  moreover from None have "\<forall>q \<in> set rules. \<not> rule_applies num cs q"
    by (auto simp: find_None_iff)
  ultimately show ?thesis by (intro none)
next
  case (Some r)
  let ?rs = "sort_key rule_priority rules"
  from Some obtain i where i: "i < length ?rs" "rule_applies num cs (?rs ! i)" "r = ?rs ! i"
    "\<forall>j < i. \<not> rule_applies num cs (?rs ! j)"
    by (auto simp: find_Some_iff)
  have "rule_priority r \<le> rule_priority q" if "q \<in> set rules" "rule_applies num cs q" for q
  proof -
    from that(1) have "q \<in> set ?rs" by simp
    then obtain j where j: "j < length ?rs" "?rs ! j = q" by (metis in_set_conv_nth)
    with that(2) i(4) have "i \<le> j" by (metis not_le)
    with j i show ?thesis
      using sorted_nth_mono [of "map rule_priority ?rs" i j] by simp
  qed
  moreover have "r \<in> set rules" using i by (metis nth_mem set_sort)
  ultimately show ?thesis
    using i Some by (intro rule) (auto simp: evaluate_policy_def first_match_find)
qed

lemma evaluate_policy_approves: "\<exists>t p. evaluate_policy num rules cs = Approved t p"
  by (cases rule: evaluate_policy_cases [of rules num cs]) auto

section \<open>What an enrollment needs and does\<close>

text \<open>A credential that the gateway accepts for the decision \<open>d\<close>, read off the stored data.\<close>

definition vouched ::
  "('g, 'j) enroll_crates \<Rightarrow> u64 \<Rightarrow> abs_store \<Rightarrow> string \<Rightarrow> string \<Rightarrow> string \<Rightarrow> enrollment_decision \<Rightarrow> bool" where
  "vouched H now a k c bearer d \<longleftrightarrow>
     (starts_with bearer ''peat_'' \<and> d = Approved Endpoint 0 \<and>
        (\<exists>t. a_tokens a (k, bearer) = Some t \<and> check_token now c bearer t = Inr ())) \<or>
     (\<not> starts_with bearer ''peat_'' \<and>
        (\<exists>i cs rules. a_idps a (k, idp_idp_id i) = Some i \<and> idp_enabled i \<and>
           introspect_oidc_token H (idp_issuer_url i) (idp_client_id i) (idp_client_secret i) bearer = Inr cs \<and>
           set rules = rows_of (a_rules a) k \<and> d = evaluate_policy (ec_number_text H) rules cs))"

definition enrollment_allowed ::
  "('g, 'j) enroll_crates \<Rightarrow> u64 \<Rightarrow> abs_store \<Rightarrow> string \<Rightarrow> string \<Rightarrow> string option \<Rightarrow> enroll_request option
     \<Rightarrow> enrollment_policy \<Rightarrow> enrollment_decision \<Rightarrow> bool" where
  "enrollment_allowed H now a k c auth body pol d \<longleftrightarrow>
     (case pol of
        Open \<Rightarrow> d = Approved Endpoint 0
      | Controlled \<Rightarrow> (\<exists>bearer. extract_bearer auth body = Some bearer \<and> vouched H now a k c bearer d)
      | Strict \<Rightarrow> False)"

text \<open>Enrollment on any tenant service.\<close>

locale enrollment_service = tenant_service M \<alpha> invar
  for M :: "('s, 'n) tenant_manager" and \<alpha> :: "'s \<Rightarrow> abs_store" and invar :: "'s \<Rightarrow> bool"
begin

lemma decide_controlled_Inr:
  assumes inv: "invar s" and run: "decide_controlled H M now k c bearer s = (Inr (d, i, sub), s1)"
  shows "vouched H now (\<alpha> s) k c bearer d \<and> invar s1 \<and> others_same k (\<alpha> s) (\<alpha> s1) \<and>
    a_audit (\<alpha> s1) = a_audit (\<alpha> s) \<and> (\<exists>t p. d = Approved t p)"
proof (cases "starts_with bearer ''peat_''")
  case True
  with run obtain t where t: "validate_and_consume_token M now k c bearer s = (Inr t, s1)"
    and d: "d = Approved Endpoint 0"
    by (auto simp: decide_controlled_def split: prod.splits sum.splits)
  from keepsD [OF keeps_consume_token inv t] consume_token_result [OF inv t] d True show ?thesis
    by (auto simp: vouched_def)
next
  case False
  with run obtain idps j cs rules where
    idps: "list_idps M k s = Inr idps" "find idp_enabled idps = Some j"
    and cs: "introspect_oidc_token H (idp_issuer_url j) (idp_client_id j) (idp_client_secret j) bearer = Inr cs"
    and rules: "list_policy_rules M k s = Inr rules"
    and d: "d = evaluate_policy (ec_number_text H) rules cs" and s1: "s1 = s"
    by (auto simp: decide_controlled_def Let_def op_iffs result_iffs)
  have "lists_rows (a_idps (\<alpha> s)) k idps" "lists_rows (a_rules (\<alpha> s)) k rules"
    using idps(1) rules rdD [OF list_idps inv] rdD [OF list_policy_rules inv]
    by (auto simp: list_idps_def list_policy_rules_def result_iffs)
  moreover have "j \<in> set idps" "idp_enabled j"
    using idps(2) by (auto simp: find_Some_iff)
  moreover have "idp_idp_id x = y" if "a_idps (\<alpha> s) (k, y) = Some x" for x y
    using wf [OF inv] that by (auto simp: abs_wf_def)
  ultimately have "vouched H now (\<alpha> s) k c bearer d"
    using False cs d unfolding vouched_def lists_rows_def rows_of_def by blast
  with s1 inv d evaluate_policy_approves [of "ec_number_text H" rules cs] show ?thesis by simp
qed

lemma decide_controlled_Inl:
  assumes inv: "invar s" and run: "decide_controlled H M now k c bearer s = (Inl e, s1)"
  shows "invar s1 \<and> \<alpha> s1 = \<alpha> s"
proof (cases "starts_with bearer ''peat_''")
  case True
  with run obtain e' where "validate_and_consume_token M now k c bearer s = (Inl e', s1)"
    by (auto simp: decide_controlled_def split: prod.splits sum.splits)
  from consume_token_result [OF inv this] show ?thesis by simp
next
  case False
  with run have "s1 = s"
    by (auto simp: decide_controlled_def Let_def op_iffs result_iffs)
  with inv show ?thesis by simp
qed

lemma decide_Inr:
  assumes "invar s" and "decide H M now k c auth body pol s = (Inr (d, i, sub), s1)"
  shows "enrollment_allowed H now (\<alpha> s) k c auth body pol d \<and> invar s1 \<and> others_same k (\<alpha> s) (\<alpha> s1) \<and>
    a_audit (\<alpha> s1) = a_audit (\<alpha> s) \<and> (\<exists>t p. d = Approved t p)"
  using assms
  by (cases pol) (auto simp: decide_def enrollment_allowed_def op_iffs result_iffs
      dest!: decide_controlled_Inr [OF assms(1)])

lemma decide_Inl:
  assumes "invar s" and "decide H M now k c auth body pol s = (Inl e, s1)"
  shows "invar s1 \<and> \<alpha> s1 = \<alpha> s"
  using assms
  by (cases pol) (auto simp: decide_def op_iffs result_iffs dest!: decide_controlled_Inl [OF assms(1)])

lemma settle_Inr:
  "settle K H M v k c body d i sub s = (Inr resp, s') \<longleftrightarrow>
     (\<exists>t p. d = Approved t p) \<and> resp_decision resp = d \<and>
     resp_audit_id resp = generate_id K (ee_audit_buf v) \<and>
     (resp_certificate resp, resp_mesh_id resp, resp_authority_public_key resp) =
       try_issue_certificate K H M (ee_call v) k c d body s' \<and>
     s' = snd (append_audit M (build_audit (ee_now_audit v) (generate_id K (ee_audit_buf v)) k c i sub d) s)"
  by (cases d; cases resp)
     (auto simp: settle_def op_iffs Let_def split: prod.splits)

lemma settle_Inl: "settle K H M v k c body d i sub s = (Inl e, s') \<Longrightarrow> \<exists>reason. d = Denied reason"
  by (cases d) (auto simp: settle_def op_iffs Let_def split: prod.splits)

lemma enroll_Inr:
  assumes inv: "invar s" and run: "enroll K H M v k c auth body s = (Inr resp, s')"
  obtains org f recent i sub s1 where
    "a_orgs (\<alpha> s) k = Some org" "a_formations (\<alpha> s) (k, c) = Some f" "nul_free k"
    "count_recent_enrollments M k (saturating_sub (ee_now_limit v) 3600000) s = Inr recent"
    "\<not> max_enrollments_per_hour (org_quotas org) \<le> (of_nat recent :: u32)"
    "form_enrollment_policy f \<noteq> Strict"
    "decide H M (ee_now_token v) k c auth body (form_enrollment_policy f) s = (Inr (resp_decision resp, i, sub), s1)"
    "s' = snd (append_audit M (build_audit (ee_now_audit v) (resp_audit_id resp) k c i sub
       (resp_decision resp)) s1)"
    "(resp_certificate resp, resp_mesh_id resp, resp_authority_public_key resp) =
       try_issue_certificate K H M (ee_call v) k c (resp_decision resp) body s'"
proof -
  from run obtain org f recent d i sub s1 where *:
    "get_org M k s = Inr org" "get_formation M k c s = Inr f"
    "count_recent_enrollments M k (saturating_sub (ee_now_limit v) 3600000) s = Inr recent"
    "\<not> max_enrollments_per_hour (org_quotas org) \<le> (of_nat recent :: u32)"
    "form_enrollment_policy f \<noteq> Strict"
    "decide H M (ee_now_token v) k c auth body (form_enrollment_policy f) s = (Inr (d, i, sub), s1)"
    and d: "resp_decision resp = d"
    and s': "s' = snd (append_audit M (build_audit (ee_now_audit v) (resp_audit_id resp) k c i sub d) s1)"
    and cert: "(resp_certificate resp, resp_mesh_id resp, resp_authority_public_key resp) =
       try_issue_certificate K H M (ee_call v) k c d body s'"
    by (fastforce simp: enroll_def op_iffs result_iffs settle_Inr split: if_splits prod.splits)
  show ?thesis
    by (rule that [OF get_org_Inr(1) [OF inv *(1)] get_formation_Inr [OF inv *(2)]
          get_org_Inr(3) [OF inv *(1)] *(3-5)]) (use * d s' cert in simp_all)
qed

lemma enroll_Inl:
  assumes inv: "invar s" and run: "enroll K H M v k c auth body s = (Inl e, s')"
  shows "invar s' \<and> \<alpha> s' = \<alpha> s"
proof -
  from run consider "s' = s"
    | (no) pol where "decide H M (ee_now_token v) k c auth body pol s = (Inl e, s')"
    | (denied) pol reason i sub s1 where
        "decide H M (ee_now_token v) k c auth body pol s = (Inr (Denied reason, i, sub), s1)"
    by (auto simp: enroll_def op_iffs result_iffs split: if_splits dest!: settle_Inl)
  then show ?thesis
  proof cases
    case no
    with decide_Inl [OF inv] show ?thesis by blast
  next
    case denied
    with decide_Inr [OF inv denied] show ?thesis by simp
  qed (use inv in simp)
qed

text \<open>What an approved enrollment leaves behind: at most one audit entry more, that of the decision.\<close>

lemma enroll_effect:
  assumes inv: "invar s" and run: "enroll K H M v k c auth body s = (Inr resp, s')"
  shows "invar s' \<and> others_same k (\<alpha> s) (\<alpha> s') \<and>
    (a_audit (\<alpha> s') = a_audit (\<alpha> s) \<or>
     (\<exists>i sub. a_audit (\<alpha> s') = (a_audit (\<alpha> s))((k, ee_now_audit v, resp_audit_id resp) \<mapsto>
        build_audit (ee_now_audit v) (resp_audit_id resp) k c i sub (resp_decision resp))))"
proof -
  from enroll_Inr [OF inv run] obtain pol i sub s1 where k: "nul_free k"
    and d: "decide H M (ee_now_token v) k c auth body pol s =
      (Inr (resp_decision resp, i, sub), s1)"
    and s': "s' = snd (append_audit M (build_audit (ee_now_audit v) (resp_audit_id resp) k c i sub
       (resp_decision resp)) s1)"
    by metis
  let ?e = "build_audit (ee_now_audit v) (resp_audit_id resp) k c i sub (resp_decision resp)"
  note d = decide_Inr [OF inv d]
  obtain r where r: "be_append_audit (tm_store M) ?e s1 = (r, s')"
    using s' by (cases "be_append_audit (tm_store M) ?e s1") (simp add: append_audit_def)
  have e: "nul_free (aud_org_id ?e)" using k by (simp add: build_audit_def)
  show ?thesis
  proof (cases r)
    case (Inl x)
    with wr_err [OF append_audit [OF e], of s1 x s'] r d show ?thesis by simp
  next
    case (Inr x)
    with wr_ok [OF append_audit [OF e], of s1 x s'] r d have "invar s'"
      and s': "\<alpha> s' = (\<alpha> s1)\<lparr>a_audit :=
        (a_audit (\<alpha> s1))((k, ee_now_audit v, resp_audit_id resp) \<mapsto> ?e)\<rparr>"
      by (auto simp: build_audit_def)
    moreover have "others_same k (\<alpha> s1) (\<alpha> s')" unfolding s' by (rule others_same_upd)
    ultimately show ?thesis using d by (auto intro: others_same_trans)
  qed
qed

end

end
