(* ===== verification/Enroll_Tasks.thy ===== *)
theory Enroll_Tasks
  imports Tasks Enroll
begin

text \<open>
  Enrollments (\<open>src/api/enroll.rs\<close>) that run at the same time as each other and as the requests of the manager: the
  handler call by call, and jobs of both kinds. Requests to the identity provider do not touch the store, so they are
  part of the turn before them.
\<close>

section \<open>Calling a method from a handler\<close>

primrec then_task :: "('s, 'e, 'a) task \<Rightarrow> ('e + 'a \<Rightarrow> ('s, 'f, 'b) task) \<Rightarrow> ('s, 'f, 'b) task" where
  "then_task (Done r) k = k r"
| "then_task (Await f n) k = Await f (\<lambda>s. then_task (n s) k)"

text \<open>\<open>mgr.m().await.map_err(h)?\<close>\<close>

definition await :: "('e \<Rightarrow> 'f) \<Rightarrow> ('s, 'e, 'a) task \<Rightarrow> ('a \<Rightarrow> ('s, 'f, 'b) task) \<Rightarrow> ('s, 'f, 'b) task" where
  "await h t k = then_task t (\<lambda>r. attempt (map_err h r) k)"

lemma alone_then: "alone (then_task t k) s = (case alone t s of (r, s') \<Rightarrow> alone (k r) s')"
  by (induction t arbitrary: s) simp_all

lemma alone_await [simp]: "alone (await h t k) = bindE (mapErrE h (alone t)) (\<lambda>x. alone (k x))"
  by (rule ext)
    (auto simp: await_def alone_then bindE_def mapErrE_def liftE_def split: prod.split sum.split)

lemma guards_then:
  "guards I Q t \<Longrightarrow> (\<And>r. Q r \<Longrightarrow> guards I R (k r)) \<Longrightarrow> guards I R (then_task t k)"
  by (induction t) auto

lemma guards_await:
  assumes "guards I Q t" and "\<And>e. R (Inl e)" and "\<And>x. Q (Inr x) \<Longrightarrow> guards I R (k x)"
  shows "guards I R (await h t k)"
  unfolding await_def
proof (rule guards_then [OF assms(1)])
  fix r
  assume "Q r"
  then show "guards I R (attempt (map_err h r) k)"
    by (cases r) (auto simp: attempt_def assms(2) intro: assms(3))
qed

lemma within_then_add: "within m t \<Longrightarrow> (\<And>r. within n (k r)) \<Longrightarrow> within (m + n) (then_task t k)"
proof (induction m t rule: within.induct)
  case (1 m r)
  then show ?case using within_mono [of n "k r" "m + n"] by simp
qed simp_all

lemma within_then: "within m t \<Longrightarrow> m \<le> l \<Longrightarrow> (\<And>r. within (l - m) (k r)) \<Longrightarrow> within l (then_task t k)"
  using within_then_add [of m t "l - m" k] by simp

lemma within_await: "within m t \<Longrightarrow> m \<le> l \<Longrightarrow> (\<And>x. within (l - m) (k x)) \<Longrightarrow> within l (await h t k)"
  unfolding await_def by (intro within_then within_attempt)

section \<open>The manager's reads\<close>

definition get_org_task :: "('s, 'n) tenant_manager \<Rightarrow> string \<Rightarrow> ('s, err, organization) task" where
  "get_org_task M org_id = get_org_then M org_id (\<lambda>x. Done (Inr x))"

definition get_formation_task :: "('s, 'n) tenant_manager \<Rightarrow> string \<Rightarrow> string \<Rightarrow> ('s, err, formation_config) task" where
  "get_formation_task M org_id app_id = get_formation_then M org_id app_id (\<lambda>x. Done (Inr x))"

definition list_idps_task :: "('s, 'n) tenant_manager \<Rightarrow> string \<Rightarrow> ('s, err, idp_config list) task" where
  "list_idps_task M org_id =
     get_org_then M org_id (\<lambda>_. call (readE (be_list_idps (tm_store M) org_id)) (\<lambda>x. Done (Inr x)))"

definition list_policy_rules_task :: "('s, 'n) tenant_manager \<Rightarrow> string \<Rightarrow> ('s, err, policy_rule list) task" where
  "list_policy_rules_task M org_id =
     get_org_then M org_id (\<lambda>_. call (readE (be_list_policy_rules (tm_store M) org_id)) (\<lambda>x. Done (Inr x)))"

definition count_recent_enrollments_task ::
  "('s, 'n) tenant_manager \<Rightarrow> string \<Rightarrow> u64 \<Rightarrow> ('s, err, nat) task" where
  "count_recent_enrollments_task M org_id since_ms =
     call (readE (be_list_audit (tm_store M) org_id None usize_MAX)) (\<lambda>entries.
       Done (Inr (length (filter (\<lambda>e. since_ms \<le> aud_timestamp_ms e) entries))))"

definition load_genesis_task ::
  "('k, 'g) mesh_crates \<Rightarrow> ('s, 'n) tenant_manager \<Rightarrow> 'n call_env \<Rightarrow> string \<Rightarrow> string \<Rightarrow> ('s, err, 'g) task" where
  "load_genesis_task K M e org_id app_id =
     call (readE (be_get_genesis (tm_store M) org_id app_id)) (\<lambda>r.
     attempt (ok_or r (GenesisNotFound app_id org_id)) (\<lambda>stored.
     attempt (if tm_encrypt_enabled M then
                mapR (\<lambda>d. case d of Some decrypted \<Rightarrow> decrypted | None \<Rightarrow> stored)
                  (open_envelope (mc_aead K) (tm_key_provider M) e stored)
              else Inr stored) (\<lambda>plaintext.
       Done (map_err (\<lambda>_. GenesisDecode app_id) (mc_decode K plaintext)))))"

lemma bindE_readE_read: "bindE (readE f) (\<lambda>x. readE (g x)) = readE (\<lambda>s. bindR (f s) (\<lambda>x. g x s))"
proof (rule ext)
  show "bindE (readE f) (\<lambda>x. readE (g x)) s = readE (\<lambda>s. bindR (f s) (\<lambda>x. g x s)) s" for s
    by (cases "f s") (simp_all add: bindE_def readE_def)
qed

lemma bindE_readE_lift: "bindE (readE f) (\<lambda>x. liftE (g x)) = readE (\<lambda>s. bindR (f s) g)"
  using bindE_readE_read [of f "\<lambda>x s. g x"] by (simp add: readE_def liftE_def)

lemma bindE_readE_ret: "bindE (readE f) (\<lambda>x. retE (g x)) = readE (\<lambda>s. bindR (f s) (\<lambda>x. Inr (g x)))"
  using bindE_readE_lift [of f "\<lambda>x. Inr (g x)"] by (simp add: liftE_results)

lemma bindE_liftE_lift: "bindE (liftE r) (\<lambda>x. liftE (g x)) = liftE (bindR r g)"
  by (cases r) (simp_all add: bindE_def liftE_def)

lemma mapR_bindR: "mapR g r = bindR r (\<lambda>x. Inr (g x))"
  by (cases r) simp_all

lemma alone_reads:
  "alone (get_org_task M k) = readE (get_org M k)"
  "alone (get_formation_task M k c) = readE (get_formation M k c)"
  "alone (list_idps_task M k) = readE (list_idps M k)"
  "alone (list_policy_rules_task M k) = readE (list_policy_rules M k)"
  "alone (count_recent_enrollments_task M k t) = readE (count_recent_enrollments M k t)"
  "alone (load_genesis_task K M e k c) = readE (load_genesis K M e k c)"
  by (simp_all add: get_org_task_def get_formation_task_def list_idps_task_def list_policy_rules_task_def
      count_recent_enrollments_task_def load_genesis_task_def alone_Done liftE_results bindE_retE bindE_readE_read
      bindE_readE_lift bindE_readE_ret bindE_liftE_lift mapR_bindR list_idps_def [abs_def] list_policy_rules_def [abs_def]
      count_recent_enrollments_def [abs_def] load_genesis_def [abs_def] del: alone.simps)

section \<open>The handler, call by call\<close>

definition try_issue_certificate_task ::
  "('k, 'g) mesh_crates \<Rightarrow> ('g, 'j) enroll_crates \<Rightarrow> ('s, 'n) tenant_manager \<Rightarrow> 'n call_env
     \<Rightarrow> string \<Rightarrow> string \<Rightarrow> enrollment_decision \<Rightarrow> enroll_request option
     \<Rightarrow> (string option \<times> string option \<times> string option \<Rightarrow> ('s, 'e, 'a) task) \<Rightarrow> ('s, 'e, 'a) task" where
  "try_issue_certificate_task K H M e org_id app_id decision body k =
     (case decision of
        Denied _ \<Rightarrow> k (None, None, None)
      | Approved tier perms \<Rightarrow>
     (case body of
        None \<Rightarrow> k (None, None, None)
      | Some b \<Rightarrow>
     (case (er_public_key b, er_node_id b) of
        (Some public_key_hex, Some node_id) \<Rightarrow>
     (case ec_hex_decode H public_key_hex of
        Inl _ \<Rightarrow> k (None, None, None)
      | Inr pk_bytes \<Rightarrow>
          if length pk_bytes \<noteq> 32 then k (None, None, None)
          else then_task (load_genesis_task K M e org_id app_id) (\<lambda>r.
     (case r of
        Inl _ \<Rightarrow> k (None, None, None)
      | Inr genesis \<Rightarrow>
          let cert = ec_issue_certificate H genesis pk_bytes node_id (to_mesh_tier tier)
                       (to_mesh (ec_wire_bits H) perms) cert_validity_ms
          in k (Some (mc_hex_encode K cert), Some (mc_mesh_id K genesis),
                Some (mc_hex_encode K (ec_authority_public_key H genesis))))))
      | _ \<Rightarrow> k (None, None, None))))"

definition decide_controlled_task ::
  "('g, 'j) enroll_crates \<Rightarrow> ('s, 'n) tenant_manager \<Rightarrow> u64 \<Rightarrow> string \<Rightarrow> string \<Rightarrow> string
     \<Rightarrow> (enrollment_decision \<times> string \<times> string \<Rightarrow> ('s, api_error, 'a) task) \<Rightarrow> ('s, api_error, 'a) task" where
  "decide_controlled_task H M now org_id app_id bearer k =
     (if starts_with bearer ''peat_'' then
        then_task (consume_token_task M now org_id app_id bearer) (\<lambda>r.
          case r of
            Inr token \<Rightarrow> k (Approved Endpoint 0, ''token'', ''token:'' @ tok_token_id token)
          | Inl _ \<Rightarrow> Done (Inl (unauthorized ''Enrollment token is invalid, revoked, or expired'')))
      else
        await bad_request (list_idps_task M org_id) (\<lambda>idps.
        attempt (ok_or (find idp_enabled idps)
                 (bad_request (Io ''No enabled identity provider configured''))) (\<lambda>idp.
        attempt (map_err (\<lambda>_. unauthorized ''Token validation failed'')
                 (introspect_oidc_token H (idp_issuer_url idp) (idp_client_id idp)
                    (idp_client_secret idp) bearer)) (\<lambda>cs.
        let subject = (case Option.bind (map_of cs ''sub'') as_str of None \<Rightarrow> ''unknown'' | Some x \<Rightarrow> x)
        in await bad_request (list_policy_rules_task M org_id) (\<lambda>rules.
             k (evaluate_policy (ec_number_text H) rules cs, idp_idp_id idp, subject))))))"

definition decide_task ::
  "('g, 'j) enroll_crates \<Rightarrow> ('s, 'n) tenant_manager \<Rightarrow> u64 \<Rightarrow> string \<Rightarrow> string \<Rightarrow> string option
     \<Rightarrow> enroll_request option \<Rightarrow> enrollment_policy
     \<Rightarrow> (enrollment_decision \<times> string \<times> string \<Rightarrow> ('s, api_error, 'a) task) \<Rightarrow> ('s, api_error, 'a) task" where
  "decide_task H M now org_id app_id authorization body policy k =
     (case policy of
        Open \<Rightarrow> k (Approved Endpoint 0, ''none'', ''anonymous'')
      | Controlled \<Rightarrow>
          attempt (ok_or (extract_bearer authorization body)
                   (unauthorized ''Missing bearer token'')) (\<lambda>bearer.
            decide_controlled_task H M now org_id app_id bearer k)
      | Strict \<Rightarrow> Done (Inl (500, Inr ''unreachable'')))"

definition settle_task ::
  "('k, 'g) mesh_crates \<Rightarrow> ('g, 'j) enroll_crates \<Rightarrow> ('s, 'n) tenant_manager \<Rightarrow> 'n enroll_env
     \<Rightarrow> string \<Rightarrow> string \<Rightarrow> enroll_request option \<Rightarrow> enrollment_decision \<Rightarrow> string \<Rightarrow> string
     \<Rightarrow> ('s, api_error, enrollment_response) task" where
  "settle_task K H M v org_id app_id body decision idp_id subject =
     (let audit_id = generate_id K (ee_audit_buf v);
          entry = build_audit (ee_now_audit v) audit_id org_id app_id idp_id subject decision
      in then_task (append_audit_task M entry) (\<lambda>_.
           case decision of
             Denied reason \<Rightarrow> Done (Inl (forbidden reason))
           | Approved tier permissions \<Rightarrow>
               try_issue_certificate_task K H M (ee_call v) org_id app_id decision body
                 (\<lambda>(certificate, mesh_id, authority_public_key).
                    Done (Inr \<lparr>resp_decision = decision, resp_audit_id = audit_id,
                               resp_certificate = certificate, resp_mesh_id = mesh_id,
                               resp_authority_public_key = authority_public_key\<rparr>))))"

definition enroll_task ::
  "('k, 'g) mesh_crates \<Rightarrow> ('g, 'j) enroll_crates \<Rightarrow> ('s, 'n) tenant_manager \<Rightarrow> 'n enroll_env
     \<Rightarrow> string \<Rightarrow> string \<Rightarrow> string option \<Rightarrow> enroll_request option
     \<Rightarrow> ('s, api_error, enrollment_response) task" where
  "enroll_task K H M v org_id app_id authorization body =
     await bad_request (get_org_task M org_id) (\<lambda>org.
     await bad_request (get_formation_task M org_id app_id) (\<lambda>formation.
     attempt (case Option.bind body er_public_key of
                None \<Rightarrow> Inr () | Some pk \<Rightarrow> validate_public_key H pk) (\<lambda>_.
     await internal (count_recent_enrollments_task M org_id
              (saturating_sub (ee_now_limit v) 3600000)) (\<lambda>recent.
       if max_enrollments_per_hour (org_quotas org) \<le> (of_nat recent :: u32)
       then Done (Inl (too_many_requests ''Enrollment rate limit exceeded''))
       else if form_enrollment_policy formation = Strict
       then Done (Inl (forbidden ''Formation requires explicit admin approval (Strict policy)''))
       else
     decide_task H M (ee_now_token v) org_id app_id authorization body
              (form_enrollment_policy formation) (\<lambda>(decision, idp_id, subject).
       settle_task K H M v org_id app_id body decision idp_id subject)))))"

lemma alone_try_issue_certificate:
  "alone (try_issue_certificate_task K H M e k c d body f) s =
     alone (f (try_issue_certificate K H M e k c d body s)) s"
  by (auto simp: try_issue_certificate_task_def try_issue_certificate_def alone_then alone_reads readE_def Let_def
      split: enrollment_decision.split option.split sum.split)

lemma alone_consume: "alone (consume_token_task M now k app c) = validate_and_consume_token M now k app c"
  by (simp add: consume_token_task_def validate_and_consume_token_def Let_def seqE_def alone_Done liftE_results del: alone.simps)

lemma alone_append_audit: "alone (append_audit_task M e) = append_audit M e"
  by (simp add: append_audit_task_def append_audit_def alone_Done liftE_results bindE_retE del: alone.simps)

lemma alone_settle: "alone (settle_task K H M v k c body d i sub) = settle K H M v k c body d i sub"
  by (rule ext)
    (auto simp: settle_task_def settle_def Let_def alone_then alone_append_audit alone_try_issue_certificate
      seqE_def bindE_def ignoreE_def readE_def failE_def split: enrollment_decision.split prod.split)

lemma bindE_assoc: "bindE (bindE m g) h = bindE m (\<lambda>x. bindE (g x) h)"
  by (rule ext) (simp add: bindE_def split: prod.split sum.split)

lemma retE_bindE: "bindE (retE x) h = h x"
  by (rule ext) (simp add: bindE_def retE_def)

lemma alone_decide_controlled:
  "alone (decide_controlled_task H M now k c b f) = bindE (decide_controlled H M now k c b) (\<lambda>x. alone (f x))"
proof (cases "starts_with b ''peat_''")
  case True
  then show ?thesis
    by (intro ext) (auto simp: decide_controlled_task_def decide_controlled_def alone_then alone_consume bindE_def
        split: prod.split sum.split)
next
  case False
  from False show ?thesis
    by (simp add: decide_controlled_task_def decide_controlled_def alone_reads Let_def bindE_assoc retE_bindE)
qed

lemma alone_enroll_task: "alone (enroll_task K H M v k c auth body) = enroll K H M v k c auth body"
  by (rule ext)
    (auto simp: enroll_task_def enroll_def alone_reads decide_task_def decide_def alone_decide_controlled alone_settle
      alone_Done liftE_results bindE_def seqE_def retE_def failE_def liftE_def mapErrE_def readE_def
      split: prod.split sum.split enrollment_policy.split)

section \<open>How many turns an enrollment takes\<close>

lemma within_reads:
  "within 1 (get_org_task M k)" "within 1 (get_formation_task M k c)" "within 2 (list_idps_task M k)"
  "within 2 (list_policy_rules_task M k)" "within 1 (count_recent_enrollments_task M k t)"
  "within 1 (load_genesis_task K M e k c)" "within 2 (consume_token_task M now k c b)" "within 1 (append_audit_task M a)"
  unfolding One_nat_def numeral_2_eq_2
  by (auto simp: get_org_task_def get_formation_task_def list_idps_task_def list_policy_rules_task_def
      count_recent_enrollments_task_def load_genesis_task_def consume_token_task_def append_audit_task_def Let_def
      intro!: within_rules)

lemma within_try_issue:
  "(\<And>x. within n (f x)) \<Longrightarrow> within (1 + n) (try_issue_certificate_task K H M e k c d body f)"
  using within_mono [of n _ "1 + n"]
  by (auto simp: try_issue_certificate_task_def Let_def split: enrollment_decision.split option.split sum.split
      intro!: within_then [OF within_reads(6)])

lemma within_settle: "within 2 (settle_task K H M v k c body d i sub)"
  unfolding settle_task_def Let_def
  by (rule within_then [OF within_reads(8)])
    (auto intro: within_try_issue [where n = 0, simplified] split: enrollment_decision.split)

lemma within_decide:
  assumes "\<And>x. within n (f x)"
  shows "within (4 + n) (decide_task H M now k c auth body pol f)"
proof -
  note f = within_mono [OF assms]
  have "within (4 + n) (decide_controlled_task H M now k c b f)" for b
    unfolding decide_controlled_task_def Let_def
    by (auto intro!: within_then [OF within_reads(7)] within_await [OF within_reads(3)] within_attempt
        within_await [OF within_reads(4)] f split: sum.split)
  then show ?thesis
    unfolding decide_task_def by (auto intro!: within_attempt f split: enrollment_policy.split)
qed

definition MAX_ENROLL_CALLS :: nat where
  "MAX_ENROLL_CALLS = 9"

lemma within_enroll: "within MAX_ENROLL_CALLS (enroll_task K H M v k c auth body)"
proof -
  have d: "within (4 + 2) (decide_task H M now k c auth body pol (\<lambda>(d, i, sub). settle_task K H M v k c body d i sub))"
    for now pol
    by (rule within_decide) (simp add: within_settle split: prod.split)
  have "within 9 (enroll_task K H M v k c auth body)"
    unfolding enroll_task_def
    by (intro within_await [OF within_reads(1)] within_await [OF within_reads(2)] within_attempt
        within_await [OF within_reads(5)]) (use d in auto)
  then show ?thesis by (simp add: MAX_ENROLL_CALLS_def)
qed

section \<open>What an enrollment keeps\<close>

context tenant_service
begin

lemma guards_get_org_task: "guards (holds P) (\<lambda>r. is_ok r \<longrightarrow> nul_free k) (get_org_task M k)"
  unfolding get_org_task_def by (rule guards_get_org) simp_all

lemma kept_reads:
  "kept P (get_formation_task M k c)" "kept P (list_idps_task M k)" "kept P (list_policy_rules_task M k)"
  "kept P (count_recent_enrollments_task M k t)" "kept P (load_genesis_task K M e k c)"
  by (auto simp: get_formation_task_def list_idps_task_def list_policy_rules_task_def count_recent_enrollments_task_def
      load_genesis_task_def intro!: guards_rules)

lemma kept_try_issue:
  "(\<And>x. kept P (f x)) \<Longrightarrow> kept P (try_issue_certificate_task K H M e k c d body f)"
  by (auto simp: try_issue_certificate_task_def Let_def split: enrollment_decision.split option.split sum.split
      intro!: guards_then [OF kept_reads(5)])

lemma kept_settle:
  assumes "stable (quiet k) P" and "nul_free k"
  shows "kept P (settle_task K H M v k c body d i sub)"
  unfolding settle_task_def Let_def
  by (rule guards_then [OF quiet_tasks(13) [OF assms]])
    (auto simp: build_audit_def split: enrollment_decision.split intro!: kept_try_issue)

lemma kept_decide:
  assumes "\<And>now b. kept P (consume_token_task M now k c b)" and "\<And>x. kept P (f x)"
  shows "kept P (decide_task H M now k c auth body pol f)"
  unfolding decide_task_def decide_controlled_task_def Let_def
  by (auto intro!: guards_then [OF assms(1)] guards_await [OF kept_reads(2)] guards_await [OF kept_reads(3)] guards_attempt
      assms(2) split: enrollment_policy.split sum.split)

lemma kept_enroll:
  assumes "stable (quiet k) P" and "\<And>now b. kept P (consume_token_task M now k c b)"
  shows "kept P (enroll_task K H M v k c auth body)"
  unfolding enroll_task_def
  by (auto intro!: guards_await [OF guards_get_org_task] guards_await [OF kept_reads(1)] guards_await [OF kept_reads(4)]
      guards_attempt kept_decide assms kept_settle)

end

section \<open>Jobs\<close>

text \<open>What runs at the same time: requests of the manager and enrollments.\<close>

datatype 'n job = Manage "'n request" | Admit "'n enroll_env" string string "string option" "enroll_request option"

fun job_task ::
  "('k, 'g) mesh_crates \<Rightarrow> ('g, 'j) enroll_crates \<Rightarrow> ('s, 'n) tenant_manager \<Rightarrow> 'n job
     \<Rightarrow> ('s, err + api_error, unit + enrollment_response) task" where
  "job_task K H M (Manage q) = map_task Inl Inl (task_of K M q)"
| "job_task K H M (Admit v k c auth body) = map_task Inr Inr (enroll_task K H M v k c auth body)"

fun job_org :: "'n job \<Rightarrow> string" where
  "job_org (Manage q) = request_org q"
| "job_org (Admit v k c auth body) = k"

fun job_ok :: "'n job \<Rightarrow> bool" where
  "job_ok (Manage q) = request_ok q"
| "job_ok (Admit v k c auth body) = True"

text \<open>A job by itself, and jobs one after the other.\<close>

fun job_exec ::
  "('k, 'g) mesh_crates \<Rightarrow> ('g, 'j) enroll_crates \<Rightarrow> ('s, 'n) tenant_manager \<Rightarrow> 'n job
     \<Rightarrow> ('s, err + api_error, unit + enrollment_response) op" where
  "job_exec K H M (Manage q) = mapE Inl (mapErrE Inl (exec K M q))"
| "job_exec K H M (Admit v k c auth body) = mapE Inr (mapErrE Inr (enroll K H M v k c auth body))"

lemma alone_job: "alone (job_task K H M x) = job_exec K H M x"
  by (cases x) (simp_all add: alone_map_task alone_task_of alone_enroll_task)

lemma within_job: "within MAX_ENROLL_CALLS (job_task K H M x)"
  using within_mono [OF within_task_of, of MAX_ENROLL_CALLS]
  within_enroll by (cases x) (auto simp: MAX_CALLS_def MAX_ENROLL_CALLS_def)

primrec serve_jobs ::
  "('k, 'g) mesh_crates \<Rightarrow> ('g, 'j) enroll_crates \<Rightarrow> ('s, 'n) tenant_manager \<Rightarrow> 'n job list \<Rightarrow> 's
     \<Rightarrow> ((err + api_error) + (unit + enrollment_response)) list \<times> 's" where
  "serve_jobs K H M [] s = ([], s)"
| "serve_jobs K H M (x # xs) s =
     (case job_exec K H M x s of (r, s') \<Rightarrow> (case serve_jobs K H M xs s' of (rs, s'') \<Rightarrow> (r # rs, s'')))"

lemma alone_all_jobs: "alone_all (map (job_task K H M) xs) s = serve_jobs K H M xs s"
  by (induction xs arbitrary: s) (simp_all add: alone_job)

lemma serve_jobs_Manage: "snd (serve_jobs K H M (map Manage qs) s) = serve K M qs s"
  by (induction qs arbitrary: s) (simp_all add: mapE_def mapErrE_def case_prod_unfold)

lemma is_ok_map_sum [simp]: "is_ok (map_sum f g r) \<longleftrightarrow> is_ok r"
  by (cases r) simp_all

fun job_makes :: "('k, 'g) mesh_crates \<Rightarrow> string \<Rightarrow> string \<Rightarrow> 'n job \<Rightarrow> bool" where
  "job_makes K k c (Manage q) = makes_token K k c q"
| "job_makes K k c (Admit v j app auth body) = False"

fun job_consumes :: "string \<Rightarrow> string \<Rightarrow> 'n job \<Rightarrow> bool" where
  "job_consumes k c (Manage q) = consumes_token k c q"
| "job_consumes k c (Admit v j app auth body) = False"

section \<open>Jobs on a backend that keeps the contract\<close>

context tenant_service
begin

lemma kept_job:
  assumes "mesh_crates_ok K" and "job_ok x" and "stable (others_same (job_org x)) P"
  shows "kept P (job_task K H M x)"
proof (cases x)
  case (Manage q)
  with kept_task [OF assms(1), of q P] assms(2,3) show ?thesis by simp
next
  case (Admit v k c auth body)
  with kept_enroll [OF stable_quiet token_tasks(5)] assms(3) show ?thesis by simp
qed

lemma turns_isolation:
  assumes "mesh_crates_ok K" and "\<forall>x \<in> set jobs. job_ok x \<and> job_org x \<noteq> j" and "invar s"
    and "turn\<^sup>*\<^sup>* (s, map (job_task K H M) jobs) (s', ts)"
  shows "invar s' \<and> org_view j (\<alpha> s') = org_view j (\<alpha> s)"
proof -
  let ?P = "\<lambda>a. org_view j a = org_view j (\<alpha> s)"
  have "kept ?P u" if u: "u \<in> set (map (job_task K H M) jobs)" for u
  proof -
    from u obtain x where x: "x \<in> set jobs" "u = job_task K H M x" by auto
    with assms(2) have "stable (others_same (job_org x)) ?P" by (auto simp: stable_def others_same_def)
    with assms(2) x show ?thesis by (simp add: kept_job [OF assms(1)])
  qed
  from kept_pool [OF assms(4) _ this] assms(3) show ?thesis by (simp add: holds_def)
qed

lemma consume_keeps:
  assumes "mesh_crates_ok K"
  shows "kept (revoked_or_gone k c) (consume_token_task M now j app d)"
    and "kept counters_bounded (consume_token_task M now j app d)"
proof -
  have "guards (holds (revoked_or_gone k c)) (\<lambda>r. j = k \<and> d = c \<longrightarrow> \<not> is_ok r) (consume_token_task M now j app d)"
    using revoked_tasks [OF assms, of "ConsumeToken now j app d" k c] by (simp add: guards_map)
  then show "kept (revoked_or_gone k c) (consume_token_task M now j app d)" by (rule guards_weaken) simp
  show "kept counters_bounded (consume_token_task M now j app d)"
    using counter_tasks [OF assms, of "ConsumeToken now j app d"] by simp
qed

lemma revoked_job:
  assumes "mesh_crates_ok K" and "job_ok x" and "\<not> job_makes K k c x"
  shows "guards (holds (revoked_or_gone k c)) (\<lambda>r. job_consumes k c x \<longrightarrow> \<not> is_ok r) (job_task K H M x)"
proof (cases x)
  case (Manage q)
  with revoked_tasks [OF assms(1), of q k c] assms(2,3) Manage show ?thesis by (simp add: guards_map)
next
  case (Admit v j app auth body)
  have "stable (quiet j) (revoked_or_gone k c)" using revoked_or_gone_quiet by (auto simp: stable_def)
  from kept_enroll [OF this consume_keeps(1) [OF assms(1)]] Admit show ?thesis by simp
qed

lemma counters_job:
  assumes "mesh_crates_ok K" and "job_ok x"
  shows "kept counters_bounded (job_task K H M x)"
proof (cases x)
  case (Manage q)
  with counter_tasks [OF assms(1), of q] assms(2) show ?thesis by simp
next
  case (Admit v j app auth body)
  have "stable (quiet j) counters_bounded" using counters_bounded_quiet by (auto simp: stable_def)
  from kept_enroll [OF this consume_keeps(2) [OF assms(1)]] Admit show ?thesis by simp
qed

lemma turns_revoked:
  assumes "mesh_crates_ok K" and "\<forall>x \<in> set jobs. job_ok x \<and> \<not> job_makes K k c x"
    and "invar s" and "revoked_or_gone k c (\<alpha> s)" and "turn\<^sup>*\<^sup>* (s, map (job_task K H M) jobs) (s', ts)"
  shows "revoked_or_gone k c (\<alpha> s') \<and> length ts = length jobs \<and>
    (\<forall>i < length jobs. job_consumes k c (jobs ! i) \<longrightarrow> (\<forall>x. ts ! i \<noteq> Done (Inr x)))"
proof -
  let ?Qs = "map (\<lambda>x r. job_consumes k c x \<longrightarrow> \<not> is_ok r) jobs"
  have "list_all2 (guards (holds (revoked_or_gone k c))) ?Qs (map (job_task K H M) jobs)"
    using assms(2) by (simp add: list_all2_conv_all_nth revoked_job [OF assms(1)])
  from turns_guarded [OF assms(5) _ this] assms(3,4)
  have end_ok: "revoked_or_gone k c (\<alpha> s')" "list_all2 (guards (holds (revoked_or_gone k c))) ?Qs ts"
    by (simp_all add: holds_def)
  have "\<not> job_consumes k c (jobs ! i)" if "i < length jobs" "ts ! i = Done (Inr x)" for i x
    using list_all2_nthD [OF end_ok(2), of i] list_all2_lengthD [OF end_ok(2)] that by auto
  with end_ok list_all2_lengthD [OF end_ok(2)] show ?thesis by auto
qed

lemma turns_counters:
  assumes "mesh_crates_ok K" and "\<forall>x \<in> set jobs. job_ok x" and "invar s" and "counters_bounded (\<alpha> s)"
    and "turn\<^sup>*\<^sup>* (s, map (job_task K H M) jobs) (s', ts)"
  shows "counters_bounded (\<alpha> s')"
proof -
  have "kept counters_bounded u" if "u \<in> set (map (job_task K H M) jobs)" for u
    using that assms(2) by (auto simp: counters_job [OF assms(1)])
  from kept_pool [OF assms(5) _ this] assms(3,4) show ?thesis by (simp add: holds_def)
qed

end

end
