(* ===== verification/Redb.thy ===== *)
theory Redb
  imports Storage
begin

text \<open>
  The embedded storage backend (\<open>src/storage/redb_backend.rs\<close>). The crates it calls are
  parameters: the transactions of redb (a record \<open>redb\<close>, with the laws of an ordered transactional
  key-value store as the locale \<open>redb_engine\<close>) and the codec (the record \<open>serde\<close> of the theory
  \<open>Storage\<close>). Values at rest
  have an arbitrary type \<open>'w\<close>: the code never looks inside them.

  Every method is the method of the source; the theory then shows that they implement the abstract
  store, which is the interpretation \<open>redb\<close> of \<open>storage_contract\<close>.
\<close>

section \<open>The crate: redb transactions\<close>

datatype table =
    ORGS_TABLE | FORMATIONS_TABLE | TOKENS_TABLE | SINKS_TABLE | CURSORS_TABLE | IDPS_TABLE
  | POLICY_RULES_TABLE | AUDIT_TABLE | GENESIS_TABLE

text \<open>
  A transaction opens a table and then reads, scans or changes it; either step can fail, so the
  model's primitives open the table themselves. A scan yields rows that can each fail on their own.
\<close>

record ('db, 'x, 'w) redb =
  begin_read :: "'db \<Rightarrow> err + 'x"
  begin_write :: "'db \<Rightarrow> err + 'x"
  tx_get :: "'x \<Rightarrow> table \<Rightarrow> string \<Rightarrow> err + 'w option"
  tx_iter :: "'x \<Rightarrow> table \<Rightarrow> err + (err + string \<times> 'w) list"
  tx_insert :: "'x \<Rightarrow> table \<Rightarrow> string \<Rightarrow> 'w \<Rightarrow> err + 'x"
  tx_remove :: "'x \<Rightarrow> table \<Rightarrow> string \<Rightarrow> err + ('w option \<times> 'x)"
  commit :: "'x \<Rightarrow> err + 'db"

text \<open>
  A scan meets every row of the table once, in key order; reading a row yields it or an error.
\<close>

definition scan_of :: "('e + string \<times> 'w) list \<Rightarrow> (string \<times> 'w) list \<Rightarrow> (string \<rightharpoonup> 'w) \<Rightarrow> bool" where
  "scan_of es rows m \<longleftrightarrow>
     sorted_wrt (<) (map fst rows) \<and>
     (\<forall>k w. m k = Some w \<longleftrightarrow> (k, w) \<in> set rows) \<and>
     list_all2 (\<lambda>e r. e = Inr r \<or> \<not> is_ok e) es rows"

locale redb_engine =
  fixes E :: "('db, 'x, 'w) redb"
    and V :: "'db \<Rightarrow> table \<Rightarrow> string \<rightharpoonup> 'w"
    and X :: "'x \<Rightarrow> table \<Rightarrow> string \<rightharpoonup> 'w"
  assumes begin_read: "begin_read E db = Inr x \<Longrightarrow> X x = V db"
    and begin_write: "begin_write E db = Inr x \<Longrightarrow> X x = V db"
    and get: "tx_get E x t k = Inr r \<Longrightarrow> r = X x t k"
    and iter: "tx_iter E x t = Inr es \<Longrightarrow> \<exists>rows. scan_of es rows (X x t)"
    and insert: "tx_insert E x t k w = Inr x' \<Longrightarrow> X x' = (X x)(t := (X x t)(k \<mapsto> w))"
    and remove: "tx_remove E x t k = Inr (r, x') \<Longrightarrow>
      r = X x t k \<and> X x' = (X x)(t := (X x t)(k := None))"
    and commit: "commit E x = Inr db \<Longrightarrow> V db = X x"

section \<open>Keys\<close>

definition formation_key :: "string \<Rightarrow> string \<Rightarrow> string" where
  "formation_key org_id app_id = org_id @ nul # app_id"

definition formation_prefix :: "string \<Rightarrow> string" where
  "formation_prefix org_id = org_id @ [nul]"

definition token_key :: "string \<Rightarrow> string \<Rightarrow> string" where
  "token_key org_id token_id = org_id @ nul # token_id"

definition token_prefix :: "string \<Rightarrow> string" where
  "token_prefix org_id = org_id @ [nul]"

definition sink_key :: "string \<Rightarrow> string \<Rightarrow> string" where
  "sink_key org_id sink_id = org_id @ nul # sink_id"

definition sink_prefix :: "string \<Rightarrow> string" where
  "sink_prefix org_id = org_id @ [nul]"

definition cursor_key :: "string \<Rightarrow> string \<Rightarrow> string \<Rightarrow> string" where
  "cursor_key org_id app_id document_id = org_id @ nul # app_id @ nul # document_id"

definition idp_key :: "string \<Rightarrow> string \<Rightarrow> string" where
  "idp_key org_id idp_id = org_id @ nul # idp_id"

definition policy_rule_key :: "string \<Rightarrow> string \<Rightarrow> string" where
  "policy_rule_key org_id rule_id = org_id @ nul # rule_id"

definition audit_key :: "string \<Rightarrow> u64 \<Rightarrow> string \<Rightarrow> string" where
  "audit_key org_id timestamp_ms audit_id =
     org_id @ nul # pad_dec 20 (unat timestamp_ms) @ nul # audit_id"

lemmas pair_keys =
  formation_key_def token_key_def sink_key_def idp_key_def policy_rule_key_def

lemmas org_prefixes = formation_prefix_def token_prefix_def sink_prefix_def

section \<open>Transactions\<close>

text \<open>A write transaction: when any step fails it is dropped and the database is as before.\<close>

definition run_write ::
  "('db, 'x, 'w) redb \<Rightarrow> ('x \<Rightarrow> err + ('r \<times> 'x)) \<Rightarrow> ('db, err, 'r) op" where
  "run_write E body db =
     (case bindR (begin_write E db) (\<lambda>x. bindR (body x) (\<lambda>(r, x').
        mapR (\<lambda>db'. (r, db')) (commit E x'))) of
        Inl e \<Rightarrow> (Inl e, db)
      | Inr (r, db') \<Rightarrow> (Inr r, db'))"

definition put_row ::
  "('db, 'x, 'w) redb \<Rightarrow> table \<Rightarrow> string \<Rightarrow> 'w \<Rightarrow> ('db, err, unit) op" where
  "put_row E t k w = run_write E (\<lambda>x. mapR (\<lambda>x'. ((), x')) (tx_insert E x t k w))"

definition put_json ::
  "('db, 'x, 'w) redb \<Rightarrow> table \<Rightarrow> string \<Rightarrow> err + 'w \<Rightarrow> ('db, err, unit) op" where
  "put_json E t k r = bindE (liftE r) (\<lambda>w. put_row E t k w)"

definition remove_row ::
  "('db, 'x, 'w) redb \<Rightarrow> table \<Rightarrow> string \<Rightarrow> ('db, err, bool) op" where
  "remove_row E t k =
     run_write E (\<lambda>x. mapR (\<lambda>(v, x'). (v \<noteq> None, x')) (tx_remove E x t k))"

definition get_row ::
  "('db, 'x, 'w) redb \<Rightarrow> table \<Rightarrow> string \<Rightarrow> ('w \<Rightarrow> err + 'v) \<Rightarrow> 'db \<Rightarrow> err + 'v option" where
  "get_row E t k de db =
     bindR (begin_read E db) (\<lambda>x. bindR (tx_get E x t k) (\<lambda>r.
       case r of None \<Rightarrow> Inr None | Some w \<Rightarrow> mapR Some (de w)))"

text \<open>The loop of a listing: rows in key order, those whose key and value pass are kept.\<close>

fun scan_loop ::
  "('w \<Rightarrow> err + 'v) \<Rightarrow> (string \<Rightarrow> bool) \<Rightarrow> ('v \<Rightarrow> bool) \<Rightarrow> (err + string \<times> 'w) list \<Rightarrow> err + 'v list" where
  "scan_loop de keep sel [] = Inr []"
| "scan_loop de keep sel (Inl e # es) = Inl e"
| "scan_loop de keep sel (Inr (k, w) # es) =
     (if keep k then
        bindR (de w) (\<lambda>v. bindR (scan_loop de keep sel es) (\<lambda>vs.
          Inr (if sel v then v # vs else vs)))
      else scan_loop de keep sel es)"

definition scan_rows ::
  "('db, 'x, 'w) redb \<Rightarrow> table \<Rightarrow> ('w \<Rightarrow> err + 'v) \<Rightarrow> (string \<Rightarrow> bool) \<Rightarrow> ('v \<Rightarrow> bool) \<Rightarrow> 'db
     \<Rightarrow> err + 'v list" where
  "scan_rows E t de keep sel db =
     bindR (begin_read E db) (\<lambda>x. bindR (tx_iter E x t) (\<lambda>es. scan_loop de keep sel es))"

section \<open>Organizations\<close>

definition create_org :: "'w serde \<Rightarrow> ('db, 'x, 'w) redb \<Rightarrow> organization \<Rightarrow> ('db, err, unit) op" where
  "create_org S E org = put_json E ORGS_TABLE (org_org_id org) (ser_org S org)"

definition get_org ::
  "'w serde \<Rightarrow> ('db, 'x, 'w) redb \<Rightarrow> string \<Rightarrow> 'db \<Rightarrow> err + organization option" where
  "get_org S E org_id = get_row E ORGS_TABLE org_id (de_org S)"

definition list_orgs :: "'w serde \<Rightarrow> ('db, 'x, 'w) redb \<Rightarrow> 'db \<Rightarrow> err + organization list" where
  "list_orgs S E = scan_rows E ORGS_TABLE (de_org S) (\<lambda>_. True) (\<lambda>_. True)"

definition update_org :: "'w serde \<Rightarrow> ('db, 'x, 'w) redb \<Rightarrow> organization \<Rightarrow> ('db, err, unit) op" where
  "update_org S E org = create_org S E org"

text \<open>
  \<open>delete_org\<close>: the keys of the organization in a table are collected first (a row that cannot be
  read is skipped, \<open>entry.ok()?\<close>) and then removed one by one, table after table, in one
  transaction with the removal of the organization itself.
\<close>

fun purge_keys :: "string \<Rightarrow> (err + string \<times> 'w) list \<Rightarrow> string list" where
  "purge_keys p [] = []"
| "purge_keys p (Inl e # es) = purge_keys p es"
| "purge_keys p (Inr (k, w) # es) =
     (if starts_with k p then k # purge_keys p es else purge_keys p es)"

fun remove_keys ::
  "('db, 'x, 'w) redb \<Rightarrow> table \<Rightarrow> string list \<Rightarrow> 'x \<Rightarrow> err + 'x" where
  "remove_keys E t [] x = Inr x"
| "remove_keys E t (k # ks) x = bindR (tx_remove E x t k) (\<lambda>(_, x'). remove_keys E t ks x')"

fun purge_tables ::
  "('db, 'x, 'w) redb \<Rightarrow> string \<Rightarrow> table list \<Rightarrow> 'x \<Rightarrow> err + 'x" where
  "purge_tables E p [] x = Inr x"
| "purge_tables E p (t # ts) x =
     bindR (tx_iter E x t) (\<lambda>es. bindR (remove_keys E t (purge_keys p es) x) (\<lambda>x'.
       purge_tables E p ts x'))"

definition scoped_tables :: "table list" where
  "scoped_tables =
     [FORMATIONS_TABLE, TOKENS_TABLE, SINKS_TABLE, IDPS_TABLE, POLICY_RULES_TABLE, AUDIT_TABLE,
      GENESIS_TABLE, CURSORS_TABLE]"

definition delete_org :: "('db, 'x, 'w) redb \<Rightarrow> string \<Rightarrow> ('db, err, bool) op" where
  "delete_org E org_id =
     run_write E (\<lambda>x. bindR (tx_remove E x ORGS_TABLE org_id) (\<lambda>(v, x1).
       mapR (\<lambda>x2. (v \<noteq> None, x2)) (purge_tables E (formation_prefix org_id) scoped_tables x1)))"

section \<open>Formations\<close>

definition create_formation ::
  "'w serde \<Rightarrow> ('db, 'x, 'w) redb \<Rightarrow> string \<Rightarrow> formation_config \<Rightarrow> ('db, err, unit) op" where
  "create_formation S E org_id formation =
     put_json E FORMATIONS_TABLE (formation_key org_id (form_app_id formation))
       (ser_formation S formation)"

definition get_formation ::
  "'w serde \<Rightarrow> ('db, 'x, 'w) redb \<Rightarrow> string \<Rightarrow> string \<Rightarrow> 'db \<Rightarrow> err + formation_config option" where
  "get_formation S E org_id app_id =
     get_row E FORMATIONS_TABLE (formation_key org_id app_id) (de_formation S)"

definition list_formations ::
  "'w serde \<Rightarrow> ('db, 'x, 'w) redb \<Rightarrow> string \<Rightarrow> 'db \<Rightarrow> err + formation_config list" where
  "list_formations S E org_id =
     scan_rows E FORMATIONS_TABLE (de_formation S)
       (\<lambda>k. starts_with k (formation_prefix org_id)) (\<lambda>_. True)"

definition delete_formation ::
  "('db, 'x, 'w) redb \<Rightarrow> string \<Rightarrow> string \<Rightarrow> ('db, err, bool) op" where
  "delete_formation E org_id app_id = remove_row E FORMATIONS_TABLE (formation_key org_id app_id)"

section \<open>Enrollment tokens\<close>

definition create_token ::
  "'w serde \<Rightarrow> ('db, 'x, 'w) redb \<Rightarrow> enrollment_token \<Rightarrow> ('db, err, unit) op" where
  "create_token S E token =
     put_json E TOKENS_TABLE (token_key (tok_org_id token) (tok_token_id token)) (ser_token S token)"

definition get_token ::
  "'w serde \<Rightarrow> ('db, 'x, 'w) redb \<Rightarrow> string \<Rightarrow> string \<Rightarrow> 'db \<Rightarrow> err + enrollment_token option" where
  "get_token S E org_id token_id =
     get_row E TOKENS_TABLE (token_key org_id token_id) (de_token S)"

definition list_tokens ::
  "'w serde \<Rightarrow> ('db, 'x, 'w) redb \<Rightarrow> string \<Rightarrow> string \<Rightarrow> 'db \<Rightarrow> err + enrollment_token list" where
  "list_tokens S E org_id app_id =
     scan_rows E TOKENS_TABLE (de_token S) (\<lambda>k. starts_with k (token_prefix org_id))
       (\<lambda>t. tok_app_id t = app_id)"

definition update_token ::
  "'w serde \<Rightarrow> ('db, 'x, 'w) redb \<Rightarrow> enrollment_token \<Rightarrow> ('db, err, unit) op" where
  "update_token S E token = create_token S E token"

definition delete_token :: "('db, 'x, 'w) redb \<Rightarrow> string \<Rightarrow> string \<Rightarrow> ('db, err, bool) op" where
  "delete_token E org_id token_id = remove_row E TOKENS_TABLE (token_key org_id token_id)"

section \<open>CDC sinks\<close>

definition create_sink ::
  "'w serde \<Rightarrow> ('db, 'x, 'w) redb \<Rightarrow> cdc_sink_config \<Rightarrow> ('db, err, unit) op" where
  "create_sink S E sink =
     put_json E SINKS_TABLE (sink_key (sink_org_id sink) (sink_sink_id sink)) (ser_sink S sink)"

definition get_sink ::
  "'w serde \<Rightarrow> ('db, 'x, 'w) redb \<Rightarrow> string \<Rightarrow> string \<Rightarrow> 'db \<Rightarrow> err + cdc_sink_config option" where
  "get_sink S E org_id sink_id = get_row E SINKS_TABLE (sink_key org_id sink_id) (de_sink S)"

definition list_sinks ::
  "'w serde \<Rightarrow> ('db, 'x, 'w) redb \<Rightarrow> string \<Rightarrow> 'db \<Rightarrow> err + cdc_sink_config list" where
  "list_sinks S E org_id =
     scan_rows E SINKS_TABLE (de_sink S) (\<lambda>k. starts_with k (sink_prefix org_id)) (\<lambda>_. True)"

definition update_sink ::
  "'w serde \<Rightarrow> ('db, 'x, 'w) redb \<Rightarrow> cdc_sink_config \<Rightarrow> ('db, err, unit) op" where
  "update_sink S E sink = create_sink S E sink"

definition delete_sink :: "('db, 'x, 'w) redb \<Rightarrow> string \<Rightarrow> string \<Rightarrow> ('db, err, bool) op" where
  "delete_sink E org_id sink_id = remove_row E SINKS_TABLE (sink_key org_id sink_id)"

section \<open>Identity providers and policy rules\<close>

definition create_idp ::
  "'w serde \<Rightarrow> ('db, 'x, 'w) redb \<Rightarrow> idp_config \<Rightarrow> ('db, err, unit) op" where
  "create_idp S E idp =
     put_json E IDPS_TABLE (idp_key (idp_org_id idp) (idp_idp_id idp)) (ser_idp S idp)"

definition get_idp ::
  "'w serde \<Rightarrow> ('db, 'x, 'w) redb \<Rightarrow> string \<Rightarrow> string \<Rightarrow> 'db \<Rightarrow> err + idp_config option" where
  "get_idp S E org_id idp_id = get_row E IDPS_TABLE (idp_key org_id idp_id) (de_idp S)"

definition list_idps ::
  "'w serde \<Rightarrow> ('db, 'x, 'w) redb \<Rightarrow> string \<Rightarrow> 'db \<Rightarrow> err + idp_config list" where
  "list_idps S E org_id =
     scan_rows E IDPS_TABLE (de_idp S) (\<lambda>k. starts_with k (org_id @ [nul])) (\<lambda>_. True)"

definition update_idp ::
  "'w serde \<Rightarrow> ('db, 'x, 'w) redb \<Rightarrow> idp_config \<Rightarrow> ('db, err, unit) op" where
  "update_idp S E idp = create_idp S E idp"

definition delete_idp :: "('db, 'x, 'w) redb \<Rightarrow> string \<Rightarrow> string \<Rightarrow> ('db, err, bool) op" where
  "delete_idp E org_id idp_id = remove_row E IDPS_TABLE (idp_key org_id idp_id)"

definition create_policy_rule ::
  "'w serde \<Rightarrow> ('db, 'x, 'w) redb \<Rightarrow> policy_rule \<Rightarrow> ('db, err, unit) op" where
  "create_policy_rule S E rule =
     put_json E POLICY_RULES_TABLE (policy_rule_key (rule_org_id rule) (rule_rule_id rule))
       (ser_rule S rule)"

definition list_policy_rules ::
  "'w serde \<Rightarrow> ('db, 'x, 'w) redb \<Rightarrow> string \<Rightarrow> 'db \<Rightarrow> err + policy_rule list" where
  "list_policy_rules S E org_id =
     scan_rows E POLICY_RULES_TABLE (de_rule S) (\<lambda>k. starts_with k (org_id @ [nul])) (\<lambda>_. True)"

definition delete_policy_rule ::
  "('db, 'x, 'w) redb \<Rightarrow> string \<Rightarrow> string \<Rightarrow> ('db, err, bool) op" where
  "delete_policy_rule E org_id rule_id =
     remove_row E POLICY_RULES_TABLE (policy_rule_key org_id rule_id)"

section \<open>The audit log\<close>

definition append_audit ::
  "'w serde \<Rightarrow> ('db, 'x, 'w) redb \<Rightarrow> audit_entry \<Rightarrow> ('db, err, unit) op" where
  "append_audit S E entry =
     put_json E AUDIT_TABLE
       (audit_key (aud_org_id entry) (aud_timestamp_ms entry) (aud_audit_id entry))
       (ser_audit S entry)"

text \<open>
  The loop of \<open>list_audit\<close> over the rows in reverse key order; \<open>entries\<close> is the vector being
  filled. The limit is looked at after an entry was pushed.
\<close>

fun audit_loop ::
  "('w \<Rightarrow> err + audit_entry) \<Rightarrow> string \<Rightarrow> string option \<Rightarrow> nat \<Rightarrow> audit_entry list
     \<Rightarrow> (err + string \<times> 'w) list \<Rightarrow> err + audit_entry list" where
  "audit_loop de p app lim entries [] = Inr entries"
| "audit_loop de p app lim entries (Inl e # es) = Inl e"
| "audit_loop de p app lim entries (Inr (k, w) # es) =
     (if \<not> starts_with k p then audit_loop de p app lim entries es
      else bindR (de w) (\<lambda>e.
        if app \<noteq> None \<and> app \<noteq> Some (aud_app_id e) then audit_loop de p app lim entries es
        else if lim \<le> length (entries @ [e]) then Inr (entries @ [e])
        else audit_loop de p app lim (entries @ [e]) es))"

definition list_audit ::
  "'w serde \<Rightarrow> ('db, 'x, 'w) redb \<Rightarrow> string \<Rightarrow> string option \<Rightarrow> nat \<Rightarrow> 'db \<Rightarrow> err + audit_entry list" where
  "list_audit S E org_id app_id limit db =
     bindR (begin_read E db) (\<lambda>x. bindR (tx_iter E x AUDIT_TABLE) (\<lambda>es.
       audit_loop (de_audit S) (org_id @ [nul]) app_id limit [] (rev es)))"

section \<open>Genesis key material and CDC cursors\<close>

definition store_genesis ::
  "'w serde \<Rightarrow> ('db, 'x, 'w) redb \<Rightarrow> string \<Rightarrow> string \<Rightarrow> bytes \<Rightarrow> ('db, err, unit) op" where
  "store_genesis S E org_id app_id encoded =
     put_row E GENESIS_TABLE (formation_key org_id app_id) (val_bytes S encoded)"

definition get_genesis ::
  "'w serde \<Rightarrow> ('db, 'x, 'w) redb \<Rightarrow> string \<Rightarrow> string \<Rightarrow> 'db \<Rightarrow> err + bytes option" where
  "get_genesis S E org_id app_id =
     get_row E GENESIS_TABLE (formation_key org_id app_id) (\<lambda>w. Inr (bytes_val S w))"

definition delete_genesis :: "('db, 'x, 'w) redb \<Rightarrow> string \<Rightarrow> string \<Rightarrow> ('db, err, bool) op" where
  "delete_genesis E org_id app_id = remove_row E GENESIS_TABLE (formation_key org_id app_id)"

definition get_cursor ::
  "'w serde \<Rightarrow> ('db, 'x, 'w) redb \<Rightarrow> string \<Rightarrow> string \<Rightarrow> string \<Rightarrow> 'db \<Rightarrow> err + string option" where
  "get_cursor S E org_id app_id document_id =
     get_row E CURSORS_TABLE (cursor_key org_id app_id document_id) (\<lambda>w. Inr (str_val S w))"

definition set_cursor ::
  "'w serde \<Rightarrow> ('db, 'x, 'w) redb \<Rightarrow> string \<Rightarrow> string \<Rightarrow> string \<Rightarrow> string \<Rightarrow> ('db, err, unit) op" where
  "set_cursor S E org_id app_id document_id change_hash =
     put_row E CURSORS_TABLE (cursor_key org_id app_id document_id) (val_str S change_hash)"

section \<open>The backend\<close>

definition redb_backend :: "'w serde \<Rightarrow> ('db, 'x, 'w) redb \<Rightarrow> 'db backend" where
  "redb_backend S E =
     \<lparr>be_create_org = create_org S E, be_get_org = get_org S E, be_list_orgs = list_orgs S E,
      be_update_org = update_org S E, be_delete_org = delete_org E,
      be_create_formation = create_formation S E, be_get_formation = get_formation S E,
      be_list_formations = list_formations S E, be_delete_formation = delete_formation E,
      be_create_token = create_token S E, be_get_token = get_token S E,
      be_list_tokens = list_tokens S E, be_update_token = update_token S E,
      be_delete_token = delete_token E, be_create_sink = create_sink S E,
      be_get_sink = get_sink S E, be_list_sinks = list_sinks S E, be_update_sink = update_sink S E,
      be_delete_sink = delete_sink E, be_create_idp = create_idp S E, be_get_idp = get_idp S E,
      be_list_idps = list_idps S E, be_update_idp = update_idp S E, be_delete_idp = delete_idp E,
      be_create_policy_rule = create_policy_rule S E, be_list_policy_rules = list_policy_rules S E,
      be_delete_policy_rule = delete_policy_rule E, be_append_audit = append_audit S E,
      be_list_audit = list_audit S E, be_store_genesis = store_genesis S E,
      be_get_genesis = get_genesis S E, be_delete_genesis = delete_genesis E,
      be_get_cursor = get_cursor S E, be_set_cursor = set_cursor S E\<rparr>"

end
