(* ===== verification/Keyed_Table.thy ===== *)
theory Keyed_Table
  imports Redb
begin

text \<open>
  Tables keyed by composite keys. A row belongs to an organization and has an identifier within it;
  its key is text. The locale \<open>keyed_table\<close> states what the code relies on (valid identifiers
  have distinct keys, and a scan by an organization's prefix meets its own keys only); the facts on
  lookup, insertion, removal, scans and purges are proved once there and interpreted for the three
  shapes of key in the source: organization and identifier, audit keys, cursor keys.
\<close>

section \<open>Rows by owner and identifier\<close>

definition opt_ok :: "'e + 'a \<Rightarrow> 'a option" where
  "opt_ok r = (case r of Inl _ \<Rightarrow> None | Inr x \<Rightarrow> Some x)"

lemma opt_ok_simps [simp]: "opt_ok (Inl e) = None" "opt_ok (Inr x) = Some x"
  by (simp_all add: opt_ok_def)

lemma opt_ok_Some: "opt_ok r = Some x \<longleftrightarrow> r = Inr x"
  by (cases r) auto

text \<open>The abstract content of a table whose keys are \<open>key\<close> and whose values are decoded by \<open>de\<close>.\<close>

definition tab ::
  "(string \<Rightarrow> 'c \<Rightarrow> string) \<Rightarrow> (string \<Rightarrow> 'c \<Rightarrow> bool) \<Rightarrow> ('w \<Rightarrow> err + 'v) \<Rightarrow> (string \<rightharpoonup> 'w)
     \<Rightarrow> string \<times> 'c \<rightharpoonup> 'v" where
  "tab key kok de m = (\<lambda>(k, c). if kok k c then Option.bind (m (key k c)) (\<lambda>w. opt_ok (de w)) else None)"

text \<open>Every row has a valid key, its value decodes, and it fits its key (\<open>own\<close>).\<close>

definition rows_ok ::
  "(string \<Rightarrow> 'c \<Rightarrow> string) \<Rightarrow> (string \<Rightarrow> 'c \<Rightarrow> bool) \<Rightarrow> ('w \<Rightarrow> err + 'v) \<Rightarrow> (string \<Rightarrow> 'c \<Rightarrow> 'v \<Rightarrow> bool)
     \<Rightarrow> (string \<rightharpoonup> 'w) \<Rightarrow> bool" where
  "rows_ok key kok de own m \<longleftrightarrow>
     (\<forall>t w. m t = Some w \<longrightarrow> (\<exists>k c v. kok k c \<and> t = key k c \<and> de w = Inr v \<and> own k c v))"

text \<open>A map from which some keys with a given prefix were removed.\<close>

definition purged :: "string \<Rightarrow> (string \<rightharpoonup> 'w) \<Rightarrow> (string \<rightharpoonup> 'w) \<Rightarrow> bool" where
  "purged p m m' \<longleftrightarrow>
     (\<forall>t. m' t = m t \<or> (starts_with t p \<and> m' t = None))"

locale keyed_table =
  fixes key :: "string \<Rightarrow> 'c \<Rightarrow> string"
    and kok :: "string \<Rightarrow> 'c \<Rightarrow> bool"
  assumes inject: "kok k c \<Longrightarrow> kok j d \<Longrightarrow> key k c = key j d \<Longrightarrow> k = j \<and> c = d"
    and prefixed: "starts_with (key k c) (k @ [nul])"
    and owner: "kok k c \<Longrightarrow> nul_free j \<Longrightarrow> starts_with (key k c) (j @ [nul]) \<Longrightarrow> j = k"
begin

lemma tab_Some:
  assumes "rows_ok key kok de own m"
  shows "tab key kok de m (k, c) = Some v \<longleftrightarrow>
    kok k c \<and> (\<exists>w. m (key k c) = Some w \<and> de w = Inr v \<and> own k c v)"
proof
  assume "tab key kok de m (k, c) = Some v"
  then obtain w where w: "kok k c" "m (key k c) = Some w" "de w = Inr v"
    by (auto simp: tab_def bind_eq_Some_conv opt_ok_Some split: if_splits)
  then obtain j d v' where "kok j d" "key k c = key j d" "de w = Inr v'" "own j d v'"
    using assms unfolding rows_ok_def by blast
  with w inject show "kok k c \<and> (\<exists>w. m (key k c) = Some w \<and> de w = Inr v \<and> own k c v)"
    by fastforce
qed (auto simp: tab_def)

lemma rows_put:
  assumes "rows_ok key kok de own m" and "kok k c" and "de w = Inr v" and "own k c v"
  shows "rows_ok key kok de own (m(key k c \<mapsto> w))"
  unfolding rows_ok_def
proof (intro allI impI)
  fix t x
  assume t: "(m(key k c \<mapsto> w)) t = Some x"
  show "\<exists>k c v. kok k c \<and> t = key k c \<and> de x = Inr v \<and> own k c v"
  proof (cases "t = key k c")
    case True
    with t assms(2-4) show ?thesis by auto
  next
    case False
    with t assms(1) show ?thesis by (auto simp: rows_ok_def)
  qed
qed

lemma tab_put:
  assumes "kok k c" and "de w = Inr v"
  shows "tab key kok de (m(key k c \<mapsto> w)) = (tab key kok de m)((k, c) \<mapsto> v)"
proof
  fix kc :: "string \<times> 'c"
  obtain j d where [simp]: "kc = (j, d)" by (cases kc)
  show "tab key kok de (m(key k c \<mapsto> w)) kc = ((tab key kok de m)((k, c) \<mapsto> v)) kc"
    using assms inject [of k c j d] by (auto simp: tab_def)
qed

lemma rows_remove: "rows_ok key kok de own m \<Longrightarrow> rows_ok key kok de own (m(t := None))"
  by (auto simp: rows_ok_def)

lemma tab_remove:
  assumes "kok k c"
  shows "tab key kok de (m(key k c := None)) = (tab key kok de m)((k, c) := None)"
proof
  fix kc :: "string \<times> 'c"
  obtain j d where [simp]: "kc = (j, d)" by (cases kc)
  show "tab key kok de (m(key k c := None)) kc = ((tab key kok de m)((k, c) := None)) kc"
    using assms inject [of k c j d] by (auto simp: tab_def)
qed

lemma rows_purged: "rows_ok key kok de own m \<Longrightarrow> purged p m m' \<Longrightarrow> rows_ok key kok de own m'"
  unfolding rows_ok_def purged_def by (metis option.distinct(1))

lemma tab_purged:
  assumes "purged (k @ [nul]) m m'" and "nul_free k"
  shows "drops_rows k (tab key kok de m) (tab key kok de m')"
  unfolding drops_rows_def
proof (intro conjI allI impI)
  fix j c
  assume "j \<noteq> k"
  then have "kok j c \<Longrightarrow> m' (key j c) = m (key j c)"
    using assms owner [of j c k] by (auto simp: purged_def)
  then show "tab key kok de m' (j, c) = tab key kok de m (j, c)"
    by (auto simp: tab_def)
next
  fix c
  show "tab key kok de m' (k, c) = None \<or> tab key kok de m' (k, c) = tab key kok de m (k, c)"
  proof -
    have "m' (key k c) = m (key k c) \<or> m' (key k c) = None"
      using assms(1) by (auto simp: purged_def)
    then show ?thesis by (auto simp: tab_def)
  qed
qed

lemma tab_wiped:
  assumes "\<And>t. starts_with t (k @ [nul]) \<Longrightarrow> m t = None"
  shows "tab key kok de m (k, c) = None"
  using assms [OF prefixed] by (simp add: tab_def)

lemma prefix_rows:
  assumes "rows_ok key kok de own m" and "nul_free k"
    and "m t = Some w" and "starts_with t (k @ [nul])"
  shows "\<exists>c v. kok k c \<and> t = key k c \<and> de w = Inr v \<and> own k c v"
  using assms owner unfolding rows_ok_def by metis

end

text \<open>Keys that no other pair of texts shares, valid or not: a lookup needs no check.\<close>

locale unique_table = keyed_table +
  assumes unique: "kok k c \<Longrightarrow> key j d = key k c \<Longrightarrow> j = k \<and> d = c"
begin

lemma tab_get:
  assumes "rows_ok key kok de own m"
    and "case m (key k c) of None \<Rightarrow> r = None | Some w \<Rightarrow> \<exists>v. de w = Inr v \<and> r = Some v"
  shows "r = tab key kok de m (k, c)"
proof (cases "m (key k c)")
  case None
  with assms(2) show ?thesis by (simp add: tab_def)
next
  case (Some w)
  with assms obtain j d where "kok j d" "key k c = key j d"
    unfolding rows_ok_def by blast
  then have "kok k c" using unique by blast
  with Some assms(2) show ?thesis by (auto simp: tab_def)
qed

lemma tab_remove_any:
  assumes "rows_ok key kok de own m"
  shows "tab key kok de (m(key k c := None)) = (tab key kok de m)((k, c) := None)"
    and "m (key k c) \<noteq> None \<longleftrightarrow> (k, c) \<in> dom (tab key kok de m)"
proof -
  have key_ok: "m (key k c) \<noteq> None \<longleftrightarrow> (k, c) \<in> dom (tab key kok de m)"
  proof (cases "m (key k c)")
    case None
    then show ?thesis by (simp add: tab_def dom_def)
  next
    case (Some w)
    with assms obtain j d v where "kok j d" "key k c = key j d" "de w = Inr v"
      unfolding rows_ok_def by blast
    then have "kok k c" using unique by blast
    with Some \<open>de w = Inr v\<close> show ?thesis by (simp add: tab_def dom_def)
  qed
  then show "m (key k c) \<noteq> None \<longleftrightarrow> (k, c) \<in> dom (tab key kok de m)" .
  show "tab key kok de (m(key k c := None)) = (tab key kok de m)((k, c) := None)"
  proof (cases "kok k c")
    case True
    then show ?thesis by (rule tab_remove)
  next
    case False
    then have "tab key kok de m (k, c) = None" by (simp add: tab_def)
    with key_ok have "m (key k c) = None" by (simp add: dom_def)
    with \<open>tab key kok de m (k, c) = None\<close> show ?thesis
      by (simp add: fun_upd_idem)
  qed
qed

end

section \<open>The three shapes of key\<close>

definition pair_key :: "string \<Rightarrow> string \<Rightarrow> string" where
  "pair_key k c = k @ nul # c"

definition pair_ok :: "string \<Rightarrow> string \<Rightarrow> bool" where
  "pair_ok k c \<longleftrightarrow> nul_free k \<and> nul_free c"

definition audit_ok :: "string \<Rightarrow> u64 \<times> string \<Rightarrow> bool" where
  "audit_ok k c \<longleftrightarrow> nul_free k"

definition cursor_ok :: "string \<Rightarrow> string \<times> string \<Rightarrow> bool" where
  "cursor_ok k c \<longleftrightarrow> nul_free k \<and> nul_free (fst c)"

lemma pair_key_eqs:
  "formation_key = pair_key" "token_key = pair_key" "sink_key = pair_key" "idp_key = pair_key"
  "policy_rule_key = pair_key"
  by (simp_all add: fun_eq_iff pair_key_def pair_keys)

lemma nul_prefix_owner:
  assumes "nul_free k" and "nul_free j" and "starts_with (k @ nul # x) (j @ [nul])"
  shows "j = k"
proof -
  from assms(3) obtain r where "k @ nul # x = j @ nul # r"
    by (auto simp: starts_with_iff)
  then show ?thesis using nul_key_inject [OF assms(1,2)] by blast
qed

lemma unat_u64_bound: "unat (t :: u64) < 10 ^ 20"
proof -
  have "unat t < 2 ^ 64" using unsigned_less [of t] by simp
  then show ?thesis by simp
qed

lemma audit_key_inject:
  assumes "nul_free k" and "nul_free j" and "audit_key k t i = audit_key j u i'"
  shows "k = j \<and> t = u \<and> i = i'"
proof -
  have *: "k = j" "pad_dec 20 (unat t) @ nul # i = pad_dec 20 (unat u) @ nul # i'"
    using assms nul_key_inject by (auto simp: audit_key_def)
  then have "pad_dec 20 (unat t) = pad_dec 20 (unat u)" "i = i'"
    by (auto simp: append_eq_append_conv)
  then have "unat t = unat u"
    using pad_dec_eq_iff [OF unat_u64_bound unat_u64_bound] by blast
  with * \<open>i = i'\<close> show ?thesis by (simp add: word_unat_eq_iff)
qed

interpretation pair: unique_table pair_key pair_ok
proof
  fix k c j d
  assume "pair_ok k c" "pair_ok j d" "pair_key k c = pair_key j d"
  then show "k = j \<and> c = d"
    by (simp add: pair_ok_def pair_key_def nul_key_inject)
next
  fix k c j d
  assume "pair_ok k c" "pair_key j d = pair_key k c"
  then show "j = k \<and> d = c"
    using nul_key_unique [of k c j d] by (simp add: pair_ok_def pair_key_def)
qed (auto simp: pair_ok_def pair_key_def starts_with_def dest: nul_prefix_owner)

interpretation audit: keyed_table "\<lambda>k (t, i). audit_key k t i" audit_ok
proof
  fix k c j d
  assume "audit_ok k c" "audit_ok j d"
    "(case c of (t, i) \<Rightarrow> audit_key k t i) = (case d of (t, i) \<Rightarrow> audit_key j t i)"
  then show "k = j \<and> c = d"
    by (cases c; cases d) (auto simp: audit_ok_def dest: audit_key_inject)
qed (auto simp: audit_ok_def audit_key_def starts_with_def dest: nul_prefix_owner)

interpretation cursor: keyed_table "\<lambda>k (c, d). cursor_key k c d" cursor_ok
proof
  fix k c j d
  assume "cursor_ok k c" "cursor_ok j d"
    "(case c of (a, i) \<Rightarrow> cursor_key k a i) = (case d of (a, i) \<Rightarrow> cursor_key j a i)"
  then show "k = j \<and> c = d"
    by (cases c; cases d) (auto simp: cursor_ok_def cursor_key_def nul_key_inject)
qed (auto simp: cursor_ok_def cursor_key_def starts_with_def dest: nul_prefix_owner)

end
