(* ===== verification/Redb_Refine.thy ===== *)
theory Redb_Refine
  imports Keyed_Table
begin

text \<open>
  The redb backend implements the storage contract. \<open>redb_abs\<close> reads the nine tables as the
  abstract store, \<open>redb_inv\<close> is the invariant every method keeps (the crates obey their laws and
  every row sits under its own key), and the interpretation \<open>redb\<close> discharges one law of
  \<open>storage_contract\<close> for each method.
\<close>

section \<open>What a transaction does\<close>

definition the_ok :: "'e + 'a \<Rightarrow> 'a" where
  "the_ok r = the (opt_ok r)"

lemma the_ok_Inr [simp]: "the_ok (Inr x) = x"
  by (simp add: the_ok_def)

lemma scan_loop_rows:
  assumes "scan_loop de keep sel es = Inr vs"
    and "list_all2 (\<lambda>e r. e = Inr r \<or> \<not> is_ok e) es rows"
  shows "(\<forall>r \<in> set rows. keep (fst r) \<longrightarrow> is_ok (de (snd r))) \<and>
    vs = filter sel (map (\<lambda>r. the_ok (de (snd r))) (filter (\<lambda>r. keep (fst r)) rows))"
  using assms
proof (induction de keep sel es arbitrary: vs rows rule: scan_loop.induct)
  case (1 de keep sel)
  then show ?case by simp
next
  case (2 de keep sel e es)
  then show ?case by simp
next
  case (3 de keep sel k w es)
  from 3(4) obtain rows' where rows: "rows = (k, w) # rows'"
    and all: "list_all2 (\<lambda>e r. e = Inr r \<or> \<not> is_ok e) es rows'"
    by (auto simp: list_all2_Cons1)
  show ?case
  proof (cases "keep k")
    case True
    with 3(3) obtain v us where "de w = Inr v" "scan_loop de keep sel es = Inr us"
      "vs = (if sel v then v # us else us)"
      by (auto simp: result_iffs)
    with 3(1) [OF True this(2) all] True rows show ?thesis by auto
  next
    case False
    with 3(3) 3(2) [OF False _ all] rows show ?thesis by auto
  qed
qed

text \<open>An engine whose scans yield every row.\<close>

definition reads_all :: "('db, 'x, 'w) redb \<Rightarrow> bool" where
  "reads_all E \<longleftrightarrow> (\<forall>x t es. tx_iter E x t = Inr es \<longrightarrow> list_all is_ok es)"

context redb_engine
begin

lemma run_write_Inr:
  "run_write E body db = (Inr r, db') \<Longrightarrow>
     \<exists>x x'. X x = V db \<and> body x = Inr (r, x') \<and> X x' = V db'"
  unfolding run_write_def
  by (auto simp: result_iffs split: sum.splits) (metis begin_write commit)

lemma run_write_Inl: "run_write E body db = (Inl e, db') \<Longrightarrow> db' = db"
  by (auto simp: run_write_def split: sum.splits)

lemma put_row_Inr:
  "put_row E t k w db = (Inr u, db') \<Longrightarrow> V db' = (V db)(t := (V db t)(k \<mapsto> w))"
  unfolding put_row_def by (drule run_write_Inr) (auto simp: result_iffs dest: insert)

lemma put_row_Inl: "put_row E t k w db = (Inl e, db') \<Longrightarrow> db' = db"
  unfolding put_row_def by (rule run_write_Inl)

lemma remove_row_Inr:
  "remove_row E t k db = (Inr b, db') \<Longrightarrow>
     b = (V db t k \<noteq> None) \<and> V db' = (V db)(t := (V db t)(k := None))"
proof -
  assume "remove_row E t k db = (Inr b, db')"
  then obtain x x' r where "X x = V db" "tx_remove E x t k = Inr (r, x')" "b = (r \<noteq> None)"
    "X x' = V db'"
    unfolding remove_row_def by (auto dest!: run_write_Inr simp: result_iffs)
  with remove [of x t k r x'] show ?thesis by simp
qed

lemma remove_row_Inl: "remove_row E t k db = (Inl e, db') \<Longrightarrow> db' = db"
  unfolding remove_row_def by (rule run_write_Inl)

lemma get_row_Inr:
  "get_row E t k de db = Inr r \<Longrightarrow>
     (case V db t k of None \<Rightarrow> r = None | Some w \<Rightarrow> \<exists>v. de w = Inr v \<and> r = Some v)"
  by (auto simp: get_row_def result_iffs split: option.splits dest!: begin_read get)

lemma scan_rows_Inr:
  assumes "scan_rows E t de keep sel db = Inr vs"
  shows "\<exists>rows. sorted_wrt (<) (map fst rows) \<and> (\<forall>k w. V db t k = Some w \<longleftrightarrow> (k, w) \<in> set rows) \<and>
    (\<forall>r \<in> set rows. keep (fst r) \<longrightarrow> is_ok (de (snd r))) \<and>
    vs = filter sel (map (\<lambda>r. the_ok (de (snd r))) (filter (\<lambda>r. keep (fst r)) rows))"
proof -
  from assms obtain x es where x: "begin_read E db = Inr x" "tx_iter E x t = Inr es"
    and loop: "scan_loop de keep sel es = Inr vs"
    by (auto simp: scan_rows_def result_iffs)
  from iter [OF x(2)] obtain rows where "scan_of es rows (V db t)"
    using begin_read [OF x(1)] by auto
  with scan_loop_rows [OF loop] show ?thesis
    unfolding scan_of_def by blast
qed

lemma remove_keys_Inr:
  "remove_keys E t ks x = Inr x' \<Longrightarrow>
     X x' = (X x)(t := (\<lambda>k. if k \<in> set ks then None else X x t k))"
proof (induction ks arbitrary: x)
  case Nil
  then show ?case by simp
next
  case (Cons k ks)
  then obtain r y where y: "tx_remove E x t k = Inr (r, y)" "remove_keys E t ks y = Inr x'"
    by (auto simp: result_iffs)
  from Cons.IH [OF y(2)] remove [OF y(1)] show ?case
    by (auto simp: fun_eq_iff)
qed

lemma set_purge_keys: "k \<in> set (purge_keys p es) \<longleftrightarrow> starts_with k p \<and> (\<exists>w. Inr (k, w) \<in> set es)"
  by (induction p es rule: purge_keys.induct) auto

lemma purge_tables_Inr:
  assumes "purge_tables E p ts x = Inr x'" and "distinct ts"
  shows "(\<forall>t. t \<notin> set ts \<longrightarrow> X x' t = X x t) \<and> (\<forall>t \<in> set ts. purged p (X x t) (X x' t))"
  using assms
proof (induction ts arbitrary: x)
  case Nil
  then show ?case by simp
next
  case (Cons t ts)
  then obtain es y where es: "tx_iter E x t = Inr es"
    and y: "remove_keys E t (purge_keys p es) x = Inr y" and rest: "purge_tables E p ts y = Inr x'"
    by (auto simp: result_iffs)
  note step = remove_keys_Inr [OF y]
  have purge: "purged p (X x t) (X y t)"
    by (auto simp: step purged_def set_purge_keys)
  have ih: "(\<forall>t. t \<notin> set ts \<longrightarrow> X x' t = X y t) \<and> (\<forall>t \<in> set ts. purged p (X y t) (X x' t))"
    using Cons.IH [OF rest] Cons.prems(2) by simp
  have other: "X y u = X x u" if "u \<noteq> t" for u
    using that by (simp add: step)
  show ?case
  proof (intro conjI allI ballI impI)
    fix u
    assume "u \<notin> set (t # ts)"
    with ih other show "X x' u = X x u" by simp
  next
    fix u
    assume "u \<in> set (t # ts)"
    with ih purge other Cons.prems(2) show "purged p (X x u) (X x' u)"
      by (cases "u = t") auto
  qed
qed

lemma purge_tables_wipes:
  assumes "purge_tables E p ts x = Inr x'" and "distinct ts"
    and ok: "reads_all E"
  shows "\<forall>t \<in> set ts. \<forall>k. starts_with k p \<longrightarrow> X x' t k = None"
  using assms(1,2)
proof (induction ts arbitrary: x)
  case Nil
  then show ?case by simp
next
  case (Cons t ts)
  then obtain es y where es: "tx_iter E x t = Inr es"
    and y: "remove_keys E t (purge_keys p es) x = Inr y" and rest: "purge_tables E p ts y = Inr x'"
    by (auto simp: result_iffs)
  from iter [OF es] obtain rows where rows: "scan_of es rows (X x t)" by blast
  have "X y t k = None" if k: "starts_with k p" for k
  proof (cases "X x t k")
    case (Some w)
    with rows have "(k, w) \<in> set rows"
      and all: "list_all2 (\<lambda>e r. e = Inr r \<or> \<not> is_ok e) es rows"
      by (simp_all add: scan_of_def)
    then obtain i where i: "i < length rows" "rows ! i = (k, w)" by (auto simp: in_set_conv_nth)
    with all have "i < length es" "es ! i = Inr (k, w) \<or> \<not> is_ok (es ! i)"
      by (auto simp: list_all2_conv_all_nth)
    with ok es have "Inr (k, w) \<in> set es" unfolding reads_all_def by (metis nth_mem list_all_iff)
    with k show ?thesis by (auto simp: remove_keys_Inr [OF y] set_purge_keys)
  next
    case None
    then show ?thesis by (simp add: remove_keys_Inr [OF y])
  qed
  moreover have "X x' t = X y t"
    using purge_tables_Inr [OF rest] Cons.prems(2) by simp
  ultimately show ?case using Cons.IH [OF rest] Cons.prems(2) by simp
qed

end

section \<open>The abstraction and the invariant\<close>

type_synonym 'w tables = "table \<Rightarrow> string \<rightharpoonup> 'w"

definition de_raw :: "'w serde \<Rightarrow> 'w \<Rightarrow> err + bytes" where
  "de_raw S w = Inr (bytes_val S w)"

definition de_text :: "'w serde \<Rightarrow> 'w \<Rightarrow> err + string" where
  "de_text S w = Inr (str_val S w)"

definition redb_abs :: "'w serde \<Rightarrow> 'w tables \<Rightarrow> abs_store" where
  "redb_abs S v =
     \<lparr>a_orgs = (\<lambda>k. Option.bind (v ORGS_TABLE k) (\<lambda>w. opt_ok (de_org S w))),
      a_formations = tab pair_key pair_ok (de_formation S) (v FORMATIONS_TABLE),
      a_tokens = tab pair_key pair_ok (de_token S) (v TOKENS_TABLE),
      a_sinks = tab pair_key pair_ok (de_sink S) (v SINKS_TABLE),
      a_idps = tab pair_key pair_ok (de_idp S) (v IDPS_TABLE),
      a_rules = tab pair_key pair_ok (de_rule S) (v POLICY_RULES_TABLE),
      a_audit = tab (\<lambda>k (t, i). audit_key k t i) audit_ok (de_audit S) (v AUDIT_TABLE),
      a_genesis = tab pair_key pair_ok (de_raw S) (v GENESIS_TABLE),
      a_cursors = tab (\<lambda>k (c, d). cursor_key k c d) cursor_ok (de_text S) (v CURSORS_TABLE)\<rparr>"

definition orgs_ok :: "'w serde \<Rightarrow> (string \<rightharpoonup> 'w) \<Rightarrow> bool" where
  "orgs_ok S m \<longleftrightarrow>
     (\<forall>k w. m k = Some w \<longrightarrow> (\<exists>x. de_org S w = Inr x \<and> org_org_id x = k \<and> nul_free k))"

abbreviation own_formation :: "string \<Rightarrow> string \<Rightarrow> formation_config \<Rightarrow> bool" where
  "own_formation k c x \<equiv> form_app_id x = c"

abbreviation own_token :: "string \<Rightarrow> string \<Rightarrow> enrollment_token \<Rightarrow> bool" where
  "own_token k c x \<equiv> tok_org_id x = k \<and> tok_token_id x = c"

abbreviation own_sink :: "string \<Rightarrow> string \<Rightarrow> cdc_sink_config \<Rightarrow> bool" where
  "own_sink k c x \<equiv> sink_org_id x = k \<and> sink_sink_id x = c"

abbreviation own_idp :: "string \<Rightarrow> string \<Rightarrow> idp_config \<Rightarrow> bool" where
  "own_idp k c x \<equiv> idp_org_id x = k \<and> idp_idp_id x = c"

abbreviation own_rule :: "string \<Rightarrow> string \<Rightarrow> policy_rule \<Rightarrow> bool" where
  "own_rule k c x \<equiv> rule_org_id x = k \<and> rule_rule_id x = c"

abbreviation own_audit :: "string \<Rightarrow> u64 \<times> string \<Rightarrow> audit_entry \<Rightarrow> bool" where
  "own_audit k c x \<equiv> aud_org_id x = k \<and> (aud_timestamp_ms x, aud_audit_id x) = c"

abbreviation own_any :: "string \<Rightarrow> 'c \<Rightarrow> 'v \<Rightarrow> bool" where
  "own_any k c x \<equiv> True"

definition redb_rows :: "'w serde \<Rightarrow> 'w tables \<Rightarrow> bool" where
  "redb_rows S v \<longleftrightarrow>
     orgs_ok S (v ORGS_TABLE) \<and>
     rows_ok pair_key pair_ok (de_formation S) own_formation (v FORMATIONS_TABLE) \<and>
     rows_ok pair_key pair_ok (de_token S) own_token (v TOKENS_TABLE) \<and>
     rows_ok pair_key pair_ok (de_sink S) own_sink (v SINKS_TABLE) \<and>
     rows_ok pair_key pair_ok (de_idp S) own_idp (v IDPS_TABLE) \<and>
     rows_ok pair_key pair_ok (de_rule S) own_rule (v POLICY_RULES_TABLE) \<and>
     rows_ok (\<lambda>k (t, i). audit_key k t i) audit_ok (de_audit S) own_audit (v AUDIT_TABLE) \<and>
     rows_ok pair_key pair_ok (de_raw S) own_any (v GENESIS_TABLE) \<and>
     rows_ok (\<lambda>k (c, d). cursor_key k c d) cursor_ok (de_text S) own_any (v CURSORS_TABLE)"

definition redb_inv ::
  "'w serde \<Rightarrow> ('db, 'x, 'w) redb \<Rightarrow> ('db \<Rightarrow> 'w tables) \<Rightarrow> ('x \<Rightarrow> 'w tables) \<Rightarrow> 'db \<Rightarrow> bool" where
  "redb_inv S E V X db \<longleftrightarrow> serde_codec S \<and> redb_engine E V X \<and> redb_rows S (V db)"

lemma redb_invD:
  assumes "redb_inv S E V X db"
  shows "serde_codec S" and "redb_engine E V X" and "redb_rows S (V db)"
  using assms by (simp_all add: redb_inv_def)

lemma orgs_ok_get:
  "orgs_ok S m \<Longrightarrow> m k = Some w \<Longrightarrow> de_org S w = Inr x \<Longrightarrow> org_org_id x = k \<and> nul_free k"
  by (fastforce simp: orgs_ok_def)

lemma redb_wf: "redb_inv S E V X db \<Longrightarrow> abs_wf (redb_abs S (V db))"
  unfolding abs_wf_def redb_abs_def
  by (drule redb_invD(3))
    (auto simp: redb_rows_def pair.tab_Some audit.tab_Some pair_ok_def audit_ok_def
      bind_eq_Some_conv opt_ok_Some dest: orgs_ok_get)

section \<open>Lifting the transaction facts to the contract\<close>

lemma put_json_wr:
  assumes "\<And>v w. serde_codec S \<Longrightarrow> redb_rows S v \<Longrightarrow> r = Inr w \<Longrightarrow>
    redb_rows S (v(t := (v t)(k \<mapsto> w))) \<and> R (redb_abs S v) () (redb_abs S (v(t := (v t)(k \<mapsto> w))))"
  shows "wr (redb_inv S E V X) (\<lambda>db. redb_abs S (V db)) (put_json E t k r) R"
proof (rule wrI)
  fix s x s'
  assume inv: "redb_inv S E V X s" and run: "put_json E t k r s = (Inr x, s')"
  from run obtain w where "r = Inr w" "put_row E t k w s = (Inr x, s')"
    by (auto simp: put_json_def op_steps split: sum.splits)
  with redb_engine.put_row_Inr [OF redb_invD(2) [OF inv]] redb_invD [OF inv] assms
  show "redb_inv S E V X s' \<and> R (redb_abs S (V s)) x (redb_abs S (V s'))"
    by (simp add: redb_inv_def)
next
  fix s e s'
  assume inv: "redb_inv S E V X s" and run: "put_json E t k r s = (Inl e, s')"
  then have "s' = s"
    by (auto simp: put_json_def op_steps split: sum.splits
        dest: redb_engine.put_row_Inl [OF redb_invD(2) [OF inv]])
  with inv show "redb_inv S E V X s' \<and> redb_abs S (V s') = redb_abs S (V s)" by simp
qed

lemma put_row_wr:
  assumes "\<And>v. serde_codec S \<Longrightarrow> redb_rows S v \<Longrightarrow>
    redb_rows S (v(t := (v t)(k \<mapsto> w))) \<and> R (redb_abs S v) () (redb_abs S (v(t := (v t)(k \<mapsto> w))))"
  shows "wr (redb_inv S E V X) (\<lambda>db. redb_abs S (V db)) (put_row E t k w) R"
proof -
  have "put_row E t k w = put_json E t k (Inr w)"
    by (auto simp: put_json_def op_steps)
  with put_json_wr [of S "Inr w" t k R E V X] assms show ?thesis by auto
qed

lemma remove_row_wr:
  assumes "\<And>v. redb_rows S v \<Longrightarrow>
    redb_rows S (v(t := (v t)(k := None))) \<and>
    R (redb_abs S v) (v t k \<noteq> None) (redb_abs S (v(t := (v t)(k := None))))"
  shows "wr (redb_inv S E V X) (\<lambda>db. redb_abs S (V db)) (remove_row E t k) R"
proof (rule wrI)
  fix s x s'
  assume inv: "redb_inv S E V X s" and run: "remove_row E t k s = (Inr x, s')"
  with redb_engine.remove_row_Inr [OF redb_invD(2) [OF inv] run] redb_invD [OF inv] assms
  show "redb_inv S E V X s' \<and> R (redb_abs S (V s)) x (redb_abs S (V s'))"
    by (simp add: redb_inv_def)
next
  fix s e s'
  assume inv: "redb_inv S E V X s" and run: "remove_row E t k s = (Inl e, s')"
  with redb_engine.remove_row_Inl [OF redb_invD(2) [OF inv] run]
  show "redb_inv S E V X s' \<and> redb_abs S (V s') = redb_abs S (V s)" by simp
qed

lemma get_row_rd:
  assumes "\<And>v r. redb_rows S v \<Longrightarrow>
    (case v t k of None \<Rightarrow> r = None | Some w \<Rightarrow> \<exists>x. de w = Inr x \<and> r = Some x) \<Longrightarrow>
    Q (redb_abs S v) r"
  shows "rd (redb_inv S E V X) (\<lambda>db. redb_abs S (V db)) (get_row E t k de) Q"
  unfolding rd_def
  by (meson assms redb_engine.get_row_Inr redb_invD(2,3))

text \<open>The entries of one organization listed by a scan of its prefix.\<close>

lemma pair_scan:
  assumes rows: "rows_ok pair_key pair_ok de own m"
    and own: "\<And>c d x. own k c x \<Longrightarrow> own k d x \<Longrightarrow> c = d"
    and sorted: "sorted_wrt (<) (map fst rs)" and all: "\<And>t w. m t = Some w \<longleftrightarrow> (t, w) \<in> set rs"
    and vs: "vs = filter sel (map (\<lambda>r. the_ok (de (snd r)))
      (filter (\<lambda>r. starts_with (fst r) (k @ [nul])) rs))"
  shows "distinct vs \<and> set vs = {x \<in> rows_of (tab pair_key pair_ok de m) k. sel x}"
proof
  let ?rs = "filter (\<lambda>r. starts_with (fst r) (k @ [nul])) rs"
  have row: "\<exists>c v. pair_ok k c \<and> fst r = pair_key k c \<and> de (snd r) = Inr v \<and> own k c v"
    if "r \<in> set ?rs" for r
  proof -
    from that have r: "m (fst r) = Some (snd r)" "starts_with (fst r) (k @ [nul])"
      using all [of "fst r" "snd r"] by auto
    then obtain c where "fst r = pair_key k c"
      by (auto simp: starts_with_iff pair_key_def)
    moreover from rows r(1) obtain j d v where
      "pair_ok j d" "fst r = pair_key j d" "de (snd r) = Inr v" "own j d v"
      unfolding rows_ok_def by blast
    ultimately show ?thesis using pair.unique by metis
  qed
  have inj: "inj_on (\<lambda>r. the_ok (de (snd r))) (set ?rs)"
  proof (rule inj_onI)
    fix r q
    assume *: "r \<in> set ?rs" "q \<in> set ?rs" "the_ok (de (snd r)) = the_ok (de (snd q))"
    from row [OF *(1)] row [OF *(2)] *(3) own have "fst r = fst q" by force
    moreover from *(1,2) have "m (fst r) = Some (snd r)" "m (fst q) = Some (snd q)"
      using all [of "fst r" "snd r"] all [of "fst q" "snd q"] by simp_all
    ultimately show "r = q" by (simp add: prod_eq_iff)
  qed
  have "distinct rs"
    using sorted by (metis distinct_map strict_sorted_iff)
  with inj show "distinct vs" by (simp add: vs distinct_map)
  show "set vs = {x \<in> rows_of (tab pair_key pair_ok de m) k. sel x}"
  proof (intro set_eqI iffI)
    fix x
    assume "x \<in> set vs"
    then obtain r where r: "r \<in> set ?rs" "x = the_ok (de (snd r))" "sel x" by (auto simp: vs)
    with row [OF r(1)] all [of "fst r" "snd r"]
    show "x \<in> {x \<in> rows_of (tab pair_key pair_ok de m) k. sel x}"
      by (auto simp: rows_of_def pair.tab_Some [OF rows])
  next
    fix x
    assume "x \<in> {x \<in> rows_of (tab pair_key pair_ok de m) k. sel x}"
    then obtain c w where "m (pair_key k c) = Some w" "de w = Inr x" "sel x"
      by (auto simp: rows_of_def pair.tab_Some [OF rows])
    then show "x \<in> set vs"
      using all [of "pair_key k c" w] pair.prefixed [of k c]
      by (auto simp: vs intro!: image_eqI [where x = "(pair_key k c, w)"])
  qed
qed

lemma list_orgs_rd:
  "rd (redb_inv S E V X) (\<lambda>db. redb_abs S (V db)) (list_orgs S E)
     (\<lambda>a xs. distinct (map org_org_id xs) \<and> set xs = ran (a_orgs a))"
  unfolding rd_def list_orgs_def
proof (intro allI impI)
  fix db xs
  assume inv: "redb_inv S E V X db"
    and run: "scan_rows E ORGS_TABLE (de_org S) (\<lambda>_. True) (\<lambda>_. True) db = Inr xs"
  from redb_engine.scan_rows_Inr [OF redb_invD(2) [OF inv] run] obtain rs where
    rs: "sorted_wrt (<) (map fst rs)" "\<And>k w. V db ORGS_TABLE k = Some w \<longleftrightarrow> (k, w) \<in> set rs"
    "xs = map (\<lambda>r. the_ok (de_org S (snd r))) rs"
    by auto
  have ok: "orgs_ok S (V db ORGS_TABLE)"
    using redb_invD(3) [OF inv] by (simp add: redb_rows_def)
  have row: "\<exists>x. de_org S (snd r) = Inr x \<and> org_org_id x = fst r" if "r \<in> set rs" for r
    using that ok rs(2) [of "fst r" "snd r"] by (auto simp: orgs_ok_def)
  have "map org_org_id xs = map fst rs"
    unfolding rs(3) by (auto simp: comp_def dest!: row)
  moreover have "set xs = ran (a_orgs (redb_abs S (V db)))"
  proof (intro set_eqI iffI)
    fix x
    assume "x \<in> set xs"
    then obtain r where "r \<in> set rs" "x = the_ok (de_org S (snd r))" by (auto simp: rs(3))
    with row [of r] rs(2) [of "fst r" "snd r"] show "x \<in> ran (a_orgs (redb_abs S (V db)))"
      by (auto simp: ran_def redb_abs_def bind_eq_Some_conv opt_ok_Some intro!: exI [of _ "fst r"])
  next
    fix x
    assume "x \<in> ran (a_orgs (redb_abs S (V db)))"
    then obtain k w where "(k, w) \<in> set rs" "de_org S w = Inr x"
      using rs(2) by (auto simp: ran_def redb_abs_def bind_eq_Some_conv opt_ok_Some)
    then show "x \<in> set xs" by (auto simp: rs(3) intro!: image_eqI [where x = "(k, w)"])
  qed
  ultimately show "distinct (map org_org_id xs) \<and> set xs = ran (a_orgs (redb_abs S (V db)))"
    using rs(1) by (simp add: strict_sorted_iff)
qed

section \<open>Deleting an organization\<close>

lemma redb_rows_purged:
  assumes rows: "redb_rows S v" and orgs: "v' ORGS_TABLE = (v ORGS_TABLE)(k := None)"
    and rest: "\<And>t. t \<in> set scoped_tables \<Longrightarrow> purged (k @ [nul]) (v t) (v' t)"
  shows "redb_rows S v'"
proof -
  from rows have "orgs_ok S (v' ORGS_TABLE)"
    by (auto simp: redb_rows_def orgs_ok_def orgs)
  with rows rest show ?thesis
    unfolding redb_rows_def scoped_tables_def
    by (auto intro: pair.rows_purged audit.rows_purged cursor.rows_purged)
qed

lemma redb_abs_purged:
  assumes k: "nul_free k" and orgs: "v' ORGS_TABLE = (v ORGS_TABLE)(k := None)"
    and rest: "\<And>t. t \<in> set scoped_tables \<Longrightarrow> purged (k @ [nul]) (v t) (v' t)"
  shows "org_removed k (redb_abs S v) (redb_abs S v')"
proof -
  have "a_orgs (redb_abs S v') = (a_orgs (redb_abs S v))(k := None)"
    by (auto simp: redb_abs_def orgs)
  then show ?thesis
    unfolding org_removed_def
    using rest
    by (auto simp: redb_abs_def scoped_tables_def
        intro: pair.tab_purged [OF _ k] audit.tab_purged [OF _ k] cursor.tab_purged [OF _ k])
qed

lemma delete_org_Inr:
  assumes "redb_engine E V X" and "delete_org E k db = (Inr b, db')"
  shows "b = (V db ORGS_TABLE k \<noteq> None) \<and> V db' ORGS_TABLE = (V db ORGS_TABLE)(k := None) \<and>
    (\<forall>t \<in> set scoped_tables. purged (k @ [nul]) (V db t) (V db' t))"
proof -
  note engine = assms(1)
  from redb_engine.run_write_Inr [OF engine assms(2) [unfolded delete_org_def]]
  obtain x x' v x1 where x: "X x = V db" "X x' = V db'" "b = (v \<noteq> None)"
    and rem: "tx_remove E x ORGS_TABLE k = Inr (v, x1)"
    and purge: "purge_tables E (formation_prefix k) scoped_tables x1 = Inr x'"
    by (auto simp: result_iffs)
  have dist: "distinct scoped_tables" and notin: "ORGS_TABLE \<notin> set scoped_tables"
    by (simp_all add: scoped_tables_def)
  note tabs = redb_engine.purge_tables_Inr [OF engine purge dist]
  note orgs = redb_engine.remove [OF engine rem]
  have "X x1 t = X x t" if "t \<in> set scoped_tables" for t
    using orgs that notin by auto
  with tabs orgs notin x show ?thesis by (auto simp: formation_prefix_def)
qed

text \<open>When every row can be read, nothing of the organization is left.\<close>

lemma delete_org_wiped:
  assumes engine: "redb_engine E V X" and run: "delete_org E k db = (Inr b, db')"
    and ok: "reads_all E"
    and t: "t \<in> set scoped_tables" and key: "starts_with q (k @ [nul])"
  shows "V db' t q = None"
proof -
  from redb_engine.run_write_Inr [OF engine run [unfolded delete_org_def]]
  obtain x' x1 where "X x' = V db'"
    "purge_tables E (formation_prefix k) scoped_tables x1 = Inr x'"
    by (auto simp: result_iffs)
  moreover have "distinct scoped_tables" by (simp add: scoped_tables_def)
  ultimately show ?thesis
    using redb_engine.purge_tables_wipes [OF engine _ _ ok] t key by (metis formation_prefix_def)
qed

lemma delete_org_wr:
  assumes "nul_free k"
  shows "wr (redb_inv S E V X) (\<lambda>db. redb_abs S (V db)) (delete_org E k)
    (\<lambda>a b a'. b = (k \<in> dom (a_orgs a)) \<and> org_removed k a a')"
proof (rule wrI)
  fix s b s'
  assume inv: "redb_inv S E V X s" and run: "delete_org E k s = (Inr b, s')"
  note del = delete_org_Inr [OF redb_invD(2) [OF inv] run]
  have "V s ORGS_TABLE k \<noteq> None \<longleftrightarrow> k \<in> dom (a_orgs (redb_abs S (V s)))"
    using redb_invD(3) [OF inv]
    by (fastforce simp: redb_rows_def orgs_ok_def redb_abs_def bind_eq_Some_conv opt_ok_Some)
  with del redb_rows_purged [OF redb_invD(3) [OF inv], of "V s'" k]
    redb_abs_purged [OF assms, of "V s'" "V s" S] redb_invD [OF inv]
  show "redb_inv S E V X s' \<and> b = (k \<in> dom (a_orgs (redb_abs S (V s)))) \<and>
    org_removed k (redb_abs S (V s)) (redb_abs S (V s'))"
    by (simp add: redb_inv_def)
next
  fix s e s'
  assume inv: "redb_inv S E V X s" and run: "delete_org E k s = (Inl e, s')"
  from redb_engine.run_write_Inl [OF redb_invD(2) [OF inv] run [unfolded delete_org_def]] inv
  show "redb_inv S E V X s' \<and> redb_abs S (V s') = redb_abs S (V s)" by simp
qed

section \<open>Listing the audit log\<close>

text \<open>What the loop of \<open>list_audit\<close> has pushed after meeting \<open>rows\<close>.\<close>

definition audit_picks ::
  "('w \<Rightarrow> err + audit_entry) \<Rightarrow> string \<Rightarrow> string option \<Rightarrow> (string \<times> 'w) list \<Rightarrow> audit_entry list" where
  "audit_picks de p app rows =
     filter (\<lambda>e. app = None \<or> app = Some (aud_app_id e))
       (map (\<lambda>r. the_ok (de (snd r))) (filter (\<lambda>r. starts_with (fst r) p) rows))"

lemma audit_loop_picks:
  assumes "audit_loop de p app lim acc es = Inr out"
    and "list_all2 (\<lambda>e r. e = Inr r \<or> \<not> is_ok e) es rows"
    and "length acc < lim"
  shows "\<exists>rows1 rows2. rows = rows1 @ rows2 \<and> out = acc @ audit_picks de p app rows1 \<and>
    length out \<le> lim \<and> (rows2 = [] \<or> length out = lim)"
  using assms
proof (induction de p app lim acc es arbitrary: rows rule: audit_loop.induct)
  case (1 de p app lim acc)
  then show ?case by (auto simp: audit_picks_def)
next
  case (2 de p app lim acc e es)
  then show ?case by simp
next
  case (3 de p app lim acc k w es)
  from 3(5) obtain rows' where rows: "rows = (k, w) # rows'"
    and all: "list_all2 (\<lambda>e r. e = Inr r \<or> \<not> is_ok e) es rows'"
    by (auto simp: list_all2_Cons1)
  note IH = "3.IH"(3) and prems = "3.prems"
  have skip: ?case
    if "audit_picks de p app [(k, w)] = []" "\<exists>rows1 rows2. rows' = rows1 @ rows2 \<and>
      out = acc @ audit_picks de p app rows1 \<and> length out \<le> lim \<and> (rows2 = [] \<or> length out = lim)"
  proof -
    from that(2) obtain rows1 rows2 where "rows' = rows1 @ rows2"
      "out = acc @ audit_picks de p app rows1" "length out \<le> lim" "rows2 = [] \<or> length out = lim"
      by blast
    with that(1) show ?thesis
      by (intro exI [of _ "(k, w) # rows1"] exI [of _ rows2])
        (auto simp: rows audit_picks_def split: if_splits)
  qed
  show ?case
  proof (cases "starts_with k p")
    case False
    with 3(1) [OF False _ all 3(6)] 3(4) skip show ?thesis by (simp add: audit_picks_def)
  next
    case True
    with 3(4) obtain e where e: "de w = Inr e" by (auto simp: result_iffs)
    consider "app \<noteq> None \<and> app \<noteq> Some (aud_app_id e)"
      | "app = None \<or> app = Some (aud_app_id e)" "lim \<le> Suc (length acc)"
      | "app = None \<or> app = Some (aud_app_id e)" "Suc (length acc) < lim"
      by linarith
    then show ?thesis
    proof cases
      case 1
      show ?thesis
      proof (rule skip)
        show "audit_picks de p app [(k, w)] = []"
          using 1 True e by (auto simp: audit_picks_def)
      qed (use "3.IH"(2) [of e, OF _ 1 _ all] "3.prems" True e 1 in auto)
    next
      case 2
      with "3.prems" True e have "out = acc @ [e]" by auto
      with 2 "3.prems" True e show ?thesis
        by (intro exI [of _ "[(k, w)]"] exI [of _ rows'])
          (auto simp: rows audit_picks_def)
    next
      case 3
      with prems True e have loop: "audit_loop de p app lim (acc @ [e]) es = Inr out" by auto
      have "\<exists>rows1 rows2. rows' = rows1 @ rows2 \<and>
          out = (acc @ [e]) @ audit_picks de p app rows1 \<and>
          length out \<le> lim \<and> (rows2 = [] \<or> length out = lim)"
        by (rule IH [of e, OF _ _ _ loop all]) (use 3 True in auto)
      then obtain rows1 rows2 where
        "rows' = rows1 @ rows2" "out = (acc @ [e]) @ audit_picks de p app rows1"
        "length out \<le> lim" "rows2 = [] \<or> length out = lim"
        by blast
      with 3 True e show ?thesis
        by (intro exI [of _ "(k, w) # rows1"] exI [of _ rows2])
          (auto simp: rows audit_picks_def)
    qed
  qed
qed

abbreviation entry_key :: "audit_entry \<Rightarrow> string" where
  "entry_key e \<equiv> audit_key (aud_org_id e) (aud_timestamp_ms e) (aud_audit_id e)"

lemma audit_key_less:
  assumes "audit_key k t i < audit_key k u j"
  shows "t \<le> u"
proof (cases "t = u")
  case False
  have "pad_dec 20 (unat t) @ nul # i < pad_dec 20 (unat u) @ nul # j"
    using assms by (simp add: audit_key_def append_less_cancel)
  moreover have "pad_dec 20 (unat t) \<noteq> pad_dec 20 (unat u)"
    using False pad_dec_eq_iff [OF unat_u64_bound unat_u64_bound] by (simp add: word_unat_eq_iff)
  ultimately have "pad_dec 20 (unat t) < pad_dec 20 (unat u)"
    by (simp add: same_length_less_append)
  then show ?thesis
    using pad_dec_less_iff [OF unat_u64_bound unat_u64_bound] by (simp add: word_le_nat_alt)
qed simp

lemma audit_scan:
  assumes ok: "rows_ok (\<lambda>k (t, i). audit_key k t i) audit_ok (de_audit S) own_audit (v AUDIT_TABLE)"
    and k: "nul_free k" and lim: "0 < lim"
    and scan: "scan_of es rows (v AUDIT_TABLE)"
    and run: "audit_loop (de_audit S) (k @ [nul]) app lim [] (rev es) = Inr out"
  shows "audit_listing (redb_abs S v) k app lim out"
proof -
  let ?pre = "\<lambda>r. starts_with (fst r) (k @ [nul])" and ?dec = "\<lambda>r. the_ok (de_audit S (snd r))"
  from scan have sorted: "sorted_wrt (<) (map fst rows)"
    and mem: "\<And>t w. v AUDIT_TABLE t = Some w \<longleftrightarrow> (t, w) \<in> set rows"
    and all: "list_all2 (\<lambda>e r. e = Inr r \<or> \<not> is_ok e) (rev es) (rev rows)"
    by (simp_all add: scan_of_def list_all2_rev)
  from audit_loop_picks [OF run all] lim obtain rows1 rows2 where split: "rev rows = rows1 @ rows2"
    and out: "out = audit_picks (de_audit S) (k @ [nul]) app rows1"
    and len: "length out \<le> lim" "rows2 = [] \<or> length out = lim"
    by auto
  have setr: "set rows = set rows1 \<union> set rows2"
    using split by (metis set_append set_rev)
  have row: "fst r = entry_key (?dec r) \<and> aud_org_id (?dec r) = k \<and>
      a_audit (redb_abs S v) (k, aud_timestamp_ms (?dec r), aud_audit_id (?dec r)) = Some (?dec r)"
    if "r \<in> set rows" "?pre r" for r
  proof -
    from that mem [of "fst r" "snd r"] have "v AUDIT_TABLE (fst r) = Some (snd r)" by simp
    from audit.prefix_rows [OF ok k this that(2)] this k show ?thesis
      by (auto simp: redb_abs_def audit.tab_Some [OF ok] audit_ok_def)
  qed
  have member: "e \<in> audit_matches (redb_abs S v) k app \<longleftrightarrow>
      (\<exists>r \<in> set rows. ?pre r \<and> e = ?dec r) \<and> (app = None \<or> app = Some (aud_app_id e))" for e
  proof -
    have "(\<exists>t i. a_audit (redb_abs S v) (k, t, i) = Some e) \<longleftrightarrow> (\<exists>r \<in> set rows. ?pre r \<and> e = ?dec r)"
    proof
      assume "\<exists>t i. a_audit (redb_abs S v) (k, t, i) = Some e"
      then obtain t i w where "(audit_key k t i, w) \<in> set rows" "de_audit S w = Inr e"
        by (auto simp: redb_abs_def audit.tab_Some [OF ok] mem)
      then show "\<exists>r \<in> set rows. ?pre r \<and> e = ?dec r"
        using audit.prefixed [of k "(t, i)"] by force
    qed (use row in blast)
    then show ?thesis by (simp add: audit_matches_def)
  qed
  have desc: "sorted_wrt (\<lambda>r q. fst q < fst r) (rows1 @ rows2)"
    unfolding split [symmetric] using sorted by (simp add: sorted_wrt_rev sorted_wrt_map)
  have ts: "aud_timestamp_ms (?dec q) \<le> aud_timestamp_ms (?dec r) \<and> ?dec q \<noteq> ?dec r"
    if "r \<in> set rows" "q \<in> set rows" "?pre r" "?pre q" "fst q < fst r" for r q
  proof -
    have "entry_key (?dec q) < entry_key (?dec r)"
      using that row [of r] row [of q] by simp
    moreover have "aud_org_id (?dec r) = k" "aud_org_id (?dec q) = k"
      using that row [of r] row [of q] by simp_all
    ultimately show ?thesis by (auto dest: audit_key_less)
  qed
  have "sorted_wrt (\<lambda>x y. aud_timestamp_ms y \<le> aud_timestamp_ms x \<and> y \<noteq> x) out"
    unfolding out audit_picks_def
  proof (rule sorted_wrt_filter, unfold sorted_wrt_map, rule sorted_wrt_mono_rel)
    show "sorted_wrt (\<lambda>r q. fst q < fst r) (filter ?pre rows1)"
      using desc by (simp add: sorted_wrt_append sorted_wrt_filter)
  qed (use ts setr in auto)
  then have order: "distinct out" "newest_first out"
    unfolding newest_first_def by (induction out) auto
  have picked: "e \<in> set out \<longleftrightarrow> (\<exists>r \<in> set rows1. ?pre r \<and> e = ?dec r) \<and>
      (app = None \<or> app = Some (aud_app_id e))" for e
    by (auto simp: out audit_picks_def)
  have older: "aud_timestamp_ms e \<le> aud_timestamp_ms x"
    if e: "e \<in> audit_matches (redb_abs S v) k app - set out" and x: "x \<in> set out" for e x
  proof -
    from e obtain q where q: "q \<in> set rows2" "?pre q" "e = ?dec q"
      by (auto simp: member picked setr)
    from x obtain r where r: "r \<in> set rows1" "?pre r" "x = ?dec r" by (auto simp: picked)
    from desc q(1) r(1) have "fst q < fst r" by (auto simp: sorted_wrt_append)
    with ts [of r q] q r show ?thesis by (simp add: setr)
  qed
  show ?thesis
    unfolding audit_listing_def
    using order len older by (auto simp: member picked setr)
qed

lemma list_audit_rd:
  assumes "nul_free k" and "0 < lim"
  shows "rd (redb_inv S E V X) (\<lambda>db. redb_abs S (V db)) (list_audit S E k app lim)
    (\<lambda>a es. audit_listing a k app lim es)"
  unfolding rd_def
proof (intro allI impI)
  fix db out
  assume inv: "redb_inv S E V X db" and run: "list_audit S E k app lim db = Inr out"
  from run obtain x es where x: "begin_read E db = Inr x" "tx_iter E x AUDIT_TABLE = Inr es"
    and loop: "audit_loop (de_audit S) (k @ [nul]) app lim [] (rev es) = Inr out"
    by (auto simp: list_audit_def result_iffs)
  from redb_engine.iter [OF redb_invD(2) [OF inv] x(2)]
    redb_engine.begin_read [OF redb_invD(2) [OF inv] x(1)]
  obtain rows where "scan_of es rows (V db AUDIT_TABLE)" by auto
  with redb_invD(3) [OF inv] show "audit_listing (redb_abs S (V db)) k app lim out"
    by (intro audit_scan [OF _ assms _ loop]) (simp_all add: redb_rows_def)
qed

lemma list_audit_page_rd:
  assumes "nul_free k" and "0 < lim"
  shows "rd (redb_inv S E V X) (\<lambda>db. redb_abs S (V db)) (list_audit S E k app lim)
    (\<lambda>a es. audit_page a k app lim es)"
  unfolding rd_def by (blast intro: audit_listing_page rdD [OF list_audit_rd [OF assms]])

section \<open>The contract holds\<close>

lemmas redb_sel = redb_abs_def redb_rows_def pair_key_eqs

lemma orgs_ok_put:
  "orgs_ok S m \<Longrightarrow> nul_free (org_org_id x) \<Longrightarrow> de_org S w = Inr x \<Longrightarrow> orgs_ok S (m(org_org_id x \<mapsto> w))"
  by (simp add: orgs_ok_def)

lemma redb_create_org:
  assumes "nul_free (org_org_id x)"
  shows "wr (redb_inv S E V X) (\<lambda>db. redb_abs S (V db)) (create_org S E x)
    (\<lambda>a _ a'. a' = a\<lparr>a_orgs := (a_orgs a)(org_org_id x \<mapsto> x)\<rparr>)"
  unfolding create_org_def
  by (rule put_json_wr)
    (auto simp: redb_sel assms orgs_ok_put fun_eq_iff dest: serde_codec.org)

lemma orgs_ok_lookup:
  assumes "orgs_ok S m" and "case m k of None \<Rightarrow> r = None | Some w \<Rightarrow> \<exists>x. de_org S w = Inr x \<and> r = Some x"
  shows "r = Option.bind (m k) (\<lambda>w. opt_ok (de_org S w))"
  using assms by (auto split: option.splits)

text \<open>
  A table of the backend that holds the rows of organizations under pair keys: what it contributes to
  the abstract store and to the invariant, and then the contract of the methods on it.
\<close>

locale scoped_table =
  fixes S :: "'w serde" and t :: table
    and get :: "abs_store \<Rightarrow> string \<times> string \<rightharpoonup> 'v"
    and upd :: "((string \<times> string \<rightharpoonup> 'v) \<Rightarrow> string \<times> string \<rightharpoonup> 'v) \<Rightarrow> abs_store \<Rightarrow> abs_store"
    and de :: "'w \<Rightarrow> err + 'v" and own :: "string \<Rightarrow> string \<Rightarrow> 'v \<Rightarrow> bool"
  assumes content: "get (redb_abs S v) = tab pair_key pair_ok de (v t)"
    and abs_upd: "redb_abs S (v(t := m)) = upd (\<lambda>_. tab pair_key pair_ok de m) (redb_abs S v)"
    and rows: "redb_rows S v \<Longrightarrow> rows_ok pair_key pair_ok de own (v t)"
    and rows_upd: "redb_rows S v \<Longrightarrow> rows_ok pair_key pair_ok de own m \<Longrightarrow> redb_rows S (v(t := m))"
begin

lemma put:
  assumes ser: "\<And>w. serde_codec S \<Longrightarrow> r = Inr w \<Longrightarrow> de w = Inr x"
    and own: "own k c x" and ok: "nul_free k" "nul_free c"
  shows "wr (redb_inv S E V X) (\<lambda>db. redb_abs S (V db)) (put_json E t (pair_key k c) r)
    (\<lambda>a _ a'. a' = upd (\<lambda>_. (get a)((k, c) \<mapsto> x)) a)"
proof (rule put_json_wr)
  fix v w
  assume *: "serde_codec S" "redb_rows S v" "r = Inr w"
  have kc: "pair_ok k c" using ok by (simp add: pair_ok_def)
  show "redb_rows S (v(t := (v t)(pair_key k c \<mapsto> w))) \<and>
    redb_abs S (v(t := (v t)(pair_key k c \<mapsto> w))) =
      upd (\<lambda>_. (get (redb_abs S v))((k, c) \<mapsto> x)) (redb_abs S v)"
    using rows_upd [OF *(2) pair.rows_put [OF rows [OF *(2)] kc ser [OF *(1,3)] own]]
    by (simp add: content abs_upd pair.tab_put [where de = de, OF kc ser [OF *(1,3)]])
qed

lemma del:
  "wr (redb_inv S E V X) (\<lambda>db. redb_abs S (V db)) (remove_row E t (pair_key k c))
    (\<lambda>a b a'. b = ((k, c) \<in> dom (get a)) \<and> a' = upd (\<lambda>_. (get a)((k, c) := None)) a)"
proof (rule remove_row_wr)
  fix v
  assume *: "redb_rows S v"
  show "redb_rows S (v(t := (v t)(pair_key k c := None))) \<and>
    (v t (pair_key k c) \<noteq> None) = ((k, c) \<in> dom (get (redb_abs S v))) \<and>
    redb_abs S (v(t := (v t)(pair_key k c := None))) =
      upd (\<lambda>_. (get (redb_abs S v))((k, c) := None)) (redb_abs S v)"
    using rows_upd [OF * pair.rows_remove [OF rows [OF *]]] pair.tab_remove_any [OF rows [OF *]]
    by (simp add: content abs_upd)
qed

lemma lookup:
  "rd (redb_inv S E V X) (\<lambda>db. redb_abs S (V db)) (get_row E t (pair_key k c) de)
    (\<lambda>a r. r = get a (k, c))"
  unfolding content by (rule get_row_rd) (simp add: content pair.tab_get [OF rows])

lemma listing:
  assumes own: "\<And>c d x. own k c x \<Longrightarrow> own k d x \<Longrightarrow> c = d"
  shows "rd (redb_inv S E V X) (\<lambda>db. redb_abs S (V db))
    (scan_rows E t de (\<lambda>x. starts_with x (k @ [nul])) sel)
    (\<lambda>a xs. distinct xs \<and> set xs = {x \<in> rows_of (get a) k. sel x})"
  unfolding rd_def
proof (intro allI impI)
  fix db xs
  assume inv: "redb_inv S E V X db"
    and run: "scan_rows E t de (\<lambda>x. starts_with x (k @ [nul])) sel db = Inr xs"
  from redb_engine.scan_rows_Inr [OF redb_invD(2) [OF inv] run] obtain rs where
    "sorted_wrt (<) (map fst rs)" "\<And>t' w. V db t t' = Some w \<longleftrightarrow> (t', w) \<in> set rs"
    "xs = filter sel (map (\<lambda>r. the_ok (de (snd r)))
      (filter (\<lambda>r. starts_with (fst r) (k @ [nul])) rs))"
    by blast
  from pair_scan [OF rows [OF redb_invD(3) [OF inv]] own this]
  show "distinct xs \<and> set xs = {x \<in> rows_of (get (redb_abs S (V db))) k. sel x}"
    by (simp add: content)
qed

lemma listing_all:
  assumes "\<And>c d x. own k c x \<Longrightarrow> own k d x \<Longrightarrow> c = d"
  shows "rd (redb_inv S E V X) (\<lambda>db. redb_abs S (V db))
    (scan_rows E t de (\<lambda>x. starts_with x (k @ [nul])) (\<lambda>_. True))
    (\<lambda>a xs. distinct xs \<and> set xs = rows_of (get a) k)"
  using listing [OF assms, where sel = "\<lambda>_. True"] by simp

lemma put_known:
  assumes "\<And>w. serde_codec S \<Longrightarrow> r = Inr w \<Longrightarrow> de w = Inr x" and "own k c x"
    and "nul_free k" "nul_free c"
  shows "wr (redb_inv S E V X) (\<lambda>db. redb_abs S (V db)) (put_json E t (pair_key k c) r)
    (\<lambda>a _ a'. a' = upd (\<lambda>_. (get a)((k, c) \<mapsto> x)) a \<or> ((k, c) \<notin> dom (get a) \<and> a' = a))"
  by (rule wr_weaken [OF put [OF assms]]) auto

end

interpretation formations: scoped_table S FORMATIONS_TABLE a_formations a_formations_update "de_formation S" own_formation for S
  by unfold_locales (simp_all add: redb_abs_def redb_rows_def)

interpretation tokens: scoped_table S TOKENS_TABLE a_tokens a_tokens_update "de_token S" own_token for S
  by unfold_locales (simp_all add: redb_abs_def redb_rows_def)

interpretation sinks: scoped_table S SINKS_TABLE a_sinks a_sinks_update "de_sink S" own_sink for S
  by unfold_locales (simp_all add: redb_abs_def redb_rows_def)

interpretation idps: scoped_table S IDPS_TABLE a_idps a_idps_update "de_idp S" own_idp for S
  by unfold_locales (simp_all add: redb_abs_def redb_rows_def)

interpretation rules: scoped_table S POLICY_RULES_TABLE a_rules a_rules_update "de_rule S" own_rule for S
  by unfold_locales (simp_all add: redb_abs_def redb_rows_def)

interpretation genesis: scoped_table S GENESIS_TABLE a_genesis a_genesis_update "de_raw S" own_any for S
  by unfold_locales (simp_all add: redb_abs_def redb_rows_def)

lemma redb_append_audit:
  assumes "nul_free (aud_org_id e)"
  shows "wr (redb_inv S E V X) (\<lambda>db. redb_abs S (V db)) (append_audit S E e)
    (\<lambda>a _ a'. a' = a\<lparr>a_audit :=
       (a_audit a)((aud_org_id e, aud_timestamp_ms e, aud_audit_id e) \<mapsto> e)\<rparr>)"
  unfolding append_audit_def
proof (rule put_json_wr)
  fix v w
  assume *: "serde_codec S" "redb_rows S v" "ser_audit S e = Inr w"
  note de = serde_codec.audit [OF *(1,3)]
  have ok: "audit_ok (aud_org_id e) (aud_timestamp_ms e, aud_audit_id e)"
    using assms by (simp add: audit_ok_def)
  let ?v = "v(AUDIT_TABLE := (v AUDIT_TABLE)(entry_key e \<mapsto> w))"
  from * have "redb_rows S ?v"
    using audit.rows_put [of "de_audit S" own_audit "v AUDIT_TABLE", OF _ ok de]
    by (simp add: redb_rows_def)
  moreover have "redb_abs S ?v = (redb_abs S v)\<lparr>a_audit :=
       (a_audit (redb_abs S v))((aud_org_id e, aud_timestamp_ms e, aud_audit_id e) \<mapsto> e)\<rparr>"
    using audit.tab_put [where de = "de_audit S", OF ok de] by (simp add: redb_abs_def)
  ultimately show "redb_rows S ?v \<and> redb_abs S ?v = (redb_abs S v)\<lparr>a_audit :=
       (a_audit (redb_abs S v))((aud_org_id e, aud_timestamp_ms e, aud_audit_id e) \<mapsto> e)\<rparr>" ..
qed

lemma redb_set_cursor:
  assumes "nul_free k" and "nul_free c"
  shows "wr (redb_inv S E V X) (\<lambda>db. redb_abs S (V db)) (set_cursor S E k c d h)
    (\<lambda>a _ a'. a' = a\<lparr>a_cursors := (a_cursors a)((k, c, d) \<mapsto> h)\<rparr>)"
  unfolding set_cursor_def
proof (rule put_row_wr)
  fix v
  assume *: "serde_codec S" "redb_rows S v"
  have de: "de_text S (val_str S h) = Inr h"
    using serde_codec.str [OF *(1)] by (simp add: de_text_def)
  have ok: "cursor_ok k (c, d)" using assms by (simp add: cursor_ok_def)
  let ?v = "v(CURSORS_TABLE := (v CURSORS_TABLE)(cursor_key k c d \<mapsto> val_str S h))"
  from * have "redb_rows S ?v"
    using cursor.rows_put [of "de_text S" own_any "v CURSORS_TABLE", OF _ ok de]
    by (simp add: redb_rows_def)
  moreover have "redb_abs S ?v =
      (redb_abs S v)\<lparr>a_cursors := (a_cursors (redb_abs S v))((k, c, d) \<mapsto> h)\<rparr>"
    using cursor.tab_put [where de = "de_text S", OF ok de] by (simp add: redb_abs_def)
  ultimately show "redb_rows S ?v \<and> redb_abs S ?v =
      (redb_abs S v)\<lparr>a_cursors := (a_cursors (redb_abs S v))((k, c, d) \<mapsto> h)\<rparr>" ..
qed

lemma redb_get_cursor:
  assumes "nul_free k" and "nul_free c"
  shows "rd (redb_inv S E V X) (\<lambda>db. redb_abs S (V db)) (get_cursor S E k c d)
    (\<lambda>a r. r = a_cursors a (k, c, d))"
  unfolding get_cursor_def
  by (rule get_row_rd)
    (auto simp: redb_abs_def tab_def cursor_ok_def de_text_def assms split: option.splits)

lemma redb_get_org:
  "rd (redb_inv S E V X) (\<lambda>db. redb_abs S (V db)) (get_org S E k) (\<lambda>a r. r = a_orgs a k)"
  unfolding get_org_def
  by (rule get_row_rd) (auto simp: redb_sel dest: orgs_ok_lookup)

lemma store_genesis_put: "store_genesis S E k c g = put_json E GENESIS_TABLE (pair_key k c) (Inr (val_bytes S g))"
  by (auto simp: store_genesis_def put_json_def op_steps pair_key_eqs)

lemma get_genesis_get: "get_genesis S E k c = get_row E GENESIS_TABLE (pair_key k c) (de_raw S)"
  by (simp add: get_genesis_def pair_key_eqs de_raw_def [abs_def])

lemmas redb_methods =
  create_formation_def get_formation_def delete_formation_def list_formations_def
  create_token_def get_token_def update_token_def delete_token_def list_tokens_def
  create_sink_def get_sink_def update_sink_def delete_sink_def list_sinks_def
  create_idp_def get_idp_def update_idp_def delete_idp_def list_idps_def
  create_policy_rule_def delete_policy_rule_def list_policy_rules_def
  delete_genesis_def store_genesis_put get_genesis_get pair_key_eqs org_prefixes

lemma redb_update_org:
  assumes "nul_free (org_org_id x)"
  shows "wr (redb_inv S E V X) (\<lambda>db. redb_abs S (V db)) (update_org S E x)
    (\<lambda>a _ a'. a' = a\<lparr>a_orgs := (a_orgs a)(org_org_id x \<mapsto> x)\<rparr> \<or>
       (org_org_id x \<notin> dom (a_orgs a) \<and> a' = a))"
  unfolding update_org_def by (rule wr_weaken [OF redb_create_org [OF assms]]) simp

lemmas redb_laws =
  redb_wf redb_create_org redb_get_org list_orgs_rd redb_update_org delete_org_wr
  redb_append_audit list_audit_page_rd list_audit_rd redb_set_cursor redb_get_cursor
  formations.put formations.lookup formations.del formations.listing_all
  tokens.put tokens.put_known tokens.lookup tokens.del tokens.listing
  sinks.put sinks.put_known sinks.lookup sinks.del sinks.listing_all
  idps.put idps.put_known idps.lookup idps.del idps.listing_all
  rules.put rules.del rules.listing_all genesis.put genesis.lookup genesis.del

interpretation redb: ordered_storage_contract "redb_backend S E" "\<lambda>db. redb_abs S (V db)"
  "redb_inv S E V X" for S E V X
  by (unfold_locales, unfold redb_backend_def backend.simps redb_methods lists_rows_def;
      rule redb_laws;
      auto simp: de_raw_def serde_codec.raw dest: serde_codec.formation serde_codec.token
        serde_codec.sink serde_codec.idp serde_codec.rule)

end
