(* ===== verification/Reference_Engine.thy ===== *)
theory Reference_Engine
  imports Redb_Refine "HOL-Library.AList"
begin

text \<open>
  A reference implementation of the two crates the redb backend is built on: tables as association
  lists and a codec that keeps values as they are. It shows that the laws asked of redb and of serde
  can be met together, and it is where the concrete examples of the development run.
\<close>

datatype stored =
    StOrg organization | StFormation formation_config | StToken enrollment_token
  | StSink cdc_sink_config | StIdp idp_config | StRule policy_rule | StAudit audit_entry
  | StBytes bytes | StStr string

type_synonym mem_db = "table \<Rightarrow> (string \<times> stored) list"

definition mem_serde :: "stored serde" where
  "mem_serde =
     \<lparr>ser_org = (\<lambda>x. Inr (StOrg x)),
      de_org = (\<lambda>w. case w of StOrg x \<Rightarrow> Inr x | _ \<Rightarrow> Inl (Io ''json'')),
      ser_formation = (\<lambda>x. Inr (StFormation x)),
      de_formation = (\<lambda>w. case w of StFormation x \<Rightarrow> Inr x | _ \<Rightarrow> Inl (Io ''json'')),
      ser_token = (\<lambda>x. Inr (StToken x)),
      de_token = (\<lambda>w. case w of StToken x \<Rightarrow> Inr x | _ \<Rightarrow> Inl (Io ''json'')),
      ser_sink = (\<lambda>x. Inr (StSink x)),
      de_sink = (\<lambda>w. case w of StSink x \<Rightarrow> Inr x | _ \<Rightarrow> Inl (Io ''json'')),
      ser_idp = (\<lambda>x. Inr (StIdp x)),
      de_idp = (\<lambda>w. case w of StIdp x \<Rightarrow> Inr x | _ \<Rightarrow> Inl (Io ''json'')),
      ser_rule = (\<lambda>x. Inr (StRule x)),
      de_rule = (\<lambda>w. case w of StRule x \<Rightarrow> Inr x | _ \<Rightarrow> Inl (Io ''json'')),
      ser_audit = (\<lambda>x. Inr (StAudit x)),
      de_audit = (\<lambda>w. case w of StAudit x \<Rightarrow> Inr x | _ \<Rightarrow> Inl (Io ''json'')),
      val_bytes = StBytes, bytes_val = (\<lambda>w. case w of StBytes b \<Rightarrow> b | _ \<Rightarrow> []),
      val_str = StStr, str_val = (\<lambda>w. case w of StStr h \<Rightarrow> h | _ \<Rightarrow> [])\<rparr>"

definition mem_tables :: "mem_db \<Rightarrow> table \<Rightarrow> string \<rightharpoonup> stored" where
  "mem_tables db t = map_of (db t)"

definition mem_rows :: "(string \<times> stored) list \<Rightarrow> (string \<times> stored) list" where
  "mem_rows rows = sort_key fst (AList.clearjunk rows)"

definition mem_engine :: "(mem_db, mem_db, stored) redb" where
  "mem_engine =
     \<lparr>begin_read = Inr, begin_write = Inr,
      tx_get = (\<lambda>x t k. Inr (map_of (x t) k)),
      tx_iter = (\<lambda>x t. Inr (map Inr (mem_rows (x t)))),
      tx_insert = (\<lambda>x t k w. Inr (x(t := AList.update k w (x t)))),
      tx_remove = (\<lambda>x t k. Inr (map_of (x t) k, x(t := AList.delete k (x t)))),
      commit = Inr\<rparr>"

definition mem_empty :: mem_db where
  "mem_empty = (\<lambda>_. [])"

abbreviation mem_inv :: "mem_db \<Rightarrow> bool" where
  "mem_inv \<equiv> redb_inv mem_serde mem_engine mem_tables mem_tables"

lemma mem_rows_scan: "scan_of (map Inr (mem_rows rows)) (mem_rows rows) (map_of rows)"
proof -
  have "distinct (map fst (mem_rows rows))"
    using distinct_clearjunk [of rows] by (simp add: mem_rows_def distinct_map)
  then have "sorted_wrt (<) (map fst (mem_rows rows))"
    by (simp add: strict_sorted_iff mem_rows_def)
  moreover have "map_of rows k = Some w \<longleftrightarrow> (k, w) \<in> set (mem_rows rows)" for k w
    using map_of_eq_Some_iff [OF distinct_clearjunk [of rows], of k w]
    by (simp add: mem_rows_def map_of_clearjunk)
  ultimately show ?thesis
    by (simp add: scan_of_def list_all2_conv_all_nth)
qed

interpretation mem: redb_engine mem_engine mem_tables mem_tables
proof unfold_locales
  fix x t es
  assume "tx_iter mem_engine x t = Inr es"
  then have "es = map Inr (mem_rows (x t))" by (simp add: mem_engine_def)
  then show "\<exists>rows. scan_of es rows (mem_tables x t)"
    using mem_rows_scan by (auto simp: mem_tables_def)
next
  fix x t k w x'
  assume "tx_insert mem_engine x t k w = Inr x'"
  then have "x' = x(t := AList.update k w (x t))" by (simp add: mem_engine_def)
  then show "mem_tables x' = (mem_tables x)(t := (mem_tables x t)(k \<mapsto> w))"
    by (simp add: mem_tables_def [abs_def] fun_eq_iff update_conv')
next
  fix x t k r x'
  assume "tx_remove mem_engine x t k = Inr (r, x')"
  then have "r = map_of (x t) k" "x' = x(t := AList.delete k (x t))"
    by (simp_all add: mem_engine_def)
  then show "r = mem_tables x t k \<and> mem_tables x' = (mem_tables x)(t := (mem_tables x t)(k := None))"
    by (simp add: mem_tables_def [abs_def] fun_eq_iff delete_conv')
qed (auto simp: mem_engine_def mem_tables_def)

interpretation mem_codec: serde_codec mem_serde
  by unfold_locales (auto simp: mem_serde_def)

lemma mem_inv_empty: "mem_inv mem_empty"
  using mem.redb_engine_axioms mem_codec.serde_codec_axioms
  by (simp add: redb_inv_def redb_rows_def orgs_ok_def rows_ok_def mem_tables_def mem_empty_def)

end
