(* ===== verification/Tenant_Properties.thy ===== *)
theory Tenant_Properties
  imports Tenant_Contract Reference_Engine
begin

text \<open>
  The tenant manager on the redb backend. The interpretation \<open>tm\<close> carries the manager's lemmas
  over; the properties are about whole histories of requests, about single methods, and about two
  requests that interleave.
\<close>

section \<open>The manager on redb\<close>

abbreviation redb_manager ::
  "'w serde \<Rightarrow> ('db, 'x, 'w) redb \<Rightarrow> 'n key_provider \<Rightarrow> bool \<Rightarrow> ('db, 'n) tenant_manager" where
  "redb_manager S E P en \<equiv> with_backend (redb_backend S E) P en"

interpretation tm: tenant_service "redb_manager S E P en" "\<lambda>db. redb_abs S (V db)" "redb_inv S E V X"
  for S E P en V X
  unfolding tenant_service_def by (simp add: with_backend_def redb.storage_contract_axioms)

text \<open>The manager and the crates the examples run on.\<close>

definition ref_mesh :: "(bytes, bytes) mesh_crates" where
  "ref_mesh =
     \<lparr>mc_aead = ref_aead, mc_genesis_create = (\<lambda>en app pol. en), mc_mesh_id = (\<lambda>g. ''mesh''),
      mc_encode = (\<lambda>g. g), mc_decode = Inr, mc_hex_encode = (\<lambda>b. ''ab'')\<rparr>"

abbreviation ref_manager :: "(mem_db, unit) tenant_manager" where
  "ref_manager \<equiv> redb_manager mem_serde mem_engine plaintext_provider False"

lemma ref_mesh_ok: "mesh_crates_ok ref_mesh"
  using ref_cipher.aead_laws_axioms
  by (simp add: mesh_crates_ok_def ref_mesh_def is_lower_hex_def is_ascii_digit_def less_eq_char_def
      of_char_def)

definition ref_org :: organization where
  "ref_org = \<lparr>org_org_id = ''acme'', org_display_name = ''Acme'', org_quotas = default_quotas,
     org_created_at = 1\<rparr>"

definition ref_formation :: formation_config where
  "ref_formation = \<lparr>form_app_id = ''ops'', form_mesh_id = ''mesh'', form_enrollment_policy = Open\<rparr>"

definition ref_token :: enrollment_token where
  "ref_token = \<lparr>tok_token_id = ''peat_ab'', tok_org_id = ''acme'', tok_app_id = ''ops'',
     tok_label = ''field'', tok_max_uses = Some 1, tok_uses = 0, tok_expires_at = None,
     tok_created_at = 1, tok_revoked = False\<rparr>"

text \<open>A database with one organization, one formation and one single-use token.\<close>

definition ref_db :: mem_db where
  "ref_db = mem_empty
     (ORGS_TABLE := [(''acme'', StOrg ref_org)],
      FORMATIONS_TABLE := [(''acme'' @ nul # ''ops'', StFormation ref_formation)],
      TOKENS_TABLE := [(''acme'' @ nul # ''peat_ab'', StToken ref_token)],
      GENESIS_TABLE := [(''acme'' @ nul # ''ops'', StBytes [1, 2, 3])])"

lemma nul_free_texts [simp]:
  "nul_free ''acme''" "nul_free ''beta''" "nul_free ''ops''" "nul_free ''peat_ab''" "nul_free ''zeta''"
  by (simp_all add: nul_free_def nul_def char_of_def)

lemma nul_neq_chars [simp]:
  "nul \<noteq> CHR ''a''" "nul \<noteq> CHR ''b''" "nul \<noteq> CHR ''p''" "nul \<noteq> CHR ''o''" "nul \<noteq> CHR ''e''"
  by (simp_all add: nul_def char_of_def)

lemma single_row_ok:
  "kok k c \<Longrightarrow> de w = Inr v \<Longrightarrow> own k c v \<Longrightarrow> rows_ok key kok de own [key k c \<mapsto> w]"
  by (auto simp: rows_ok_def)

lemma ref_db_inv: "mem_inv ref_db"
proof -
  have "redb_rows mem_serde (mem_tables ref_db)"
    unfolding redb_rows_def
  proof (intro conjI)
    show "orgs_ok mem_serde (mem_tables ref_db ORGS_TABLE)"
      by (simp add: orgs_ok_def mem_tables_def ref_db_def mem_serde_def ref_org_def)
    show "rows_ok pair_key pair_ok (de_formation mem_serde) own_formation
        (mem_tables ref_db FORMATIONS_TABLE)"
      using single_row_ok [of pair_ok "''acme''" "''ops''" "de_formation mem_serde"
          "StFormation ref_formation" ref_formation own_formation pair_key]
      by (simp add: mem_tables_def ref_db_def mem_serde_def ref_formation_def pair_ok_def pair_key_def)
    show "rows_ok pair_key pair_ok (de_token mem_serde) own_token (mem_tables ref_db TOKENS_TABLE)"
      using single_row_ok [of pair_ok "''acme''" "''peat_ab''" "de_token mem_serde"
          "StToken ref_token" ref_token own_token pair_key]
      by (simp add: mem_tables_def ref_db_def mem_serde_def ref_token_def pair_ok_def pair_key_def)
    show "rows_ok pair_key pair_ok (de_raw mem_serde) own_any (mem_tables ref_db GENESIS_TABLE)"
      using single_row_ok [of pair_ok "''acme''" "''ops''" "de_raw mem_serde"
          "StBytes [1, 2, 3]" "[1, 2, 3]" own_any pair_key]
      by (simp add: mem_tables_def ref_db_def mem_serde_def de_raw_def pair_ok_def pair_key_def)
  qed (simp_all add: rows_ok_def mem_tables_def ref_db_def mem_empty_def)
  with mem.redb_engine_axioms mem_codec.serde_codec_axioms show ?thesis
    by (simp add: redb_inv_def)
qed

definition ref_history :: "unit request list" where
  "ref_history =
     [CreateOrg 1 ''acme'' ''Acme'', CreateOrg 2 ''beta'' ''Beta'', DeleteOrg ''acme'']"

section \<open>Histories of requests\<close>

text \<open>
  Tenant isolation. Whatever history of requests is served for other organizations, in whatever
  order and whether they succeed or fail, everything stored for organization \<open>j\<close> (its record,
  formations, tokens, sinks, identity providers, rules, audit log, genesis keys and cursors) is
  untouched.
\<close>

theorem tenant_isolation:
  assumes "redb_inv S E V X db" and "mesh_crates_ok K"
    and "\<forall>q \<in> set qs. request_ok q \<and> request_org q \<noteq> j"
  shows "org_view j (redb_abs S (V (serve K (redb_manager S E P en) qs db))) =
    org_view j (redb_abs S (V db))"
  using assms(2,3,1) by (rule tm.serve_isolation)

theorem tenant_isolation_witness:
  "org_view ''zeta'' (redb_abs mem_serde (mem_tables (serve ref_mesh
     ref_manager ref_history mem_empty))) =
   org_view ''zeta'' (redb_abs mem_serde (mem_tables mem_empty))"
  by (rule tenant_isolation [OF mem_inv_empty ref_mesh_ok])
    (simp add: ref_history_def)

text \<open>
  Every history keeps the storage invariant: each row lies under the key made of its own
  identifiers, those hold no separator, and every value decodes.
\<close>

theorem tenant_storage_invariant:
  assumes "redb_inv S E V X db" and "mesh_crates_ok K" and "\<forall>q \<in> set qs. request_ok q"
  shows "redb_inv S E V X (serve K (redb_manager S E P en) qs db)"
  using assms(2,3,1) by (rule tm.serve_inv)

theorem tenant_storage_invariant_witness:
  "mem_inv (serve ref_mesh ref_manager
     ref_history mem_empty)"
  by (rule tenant_storage_invariant [OF mem_inv_empty ref_mesh_ok])
    (simp add: ref_history_def)

text \<open>
  C6: a token with a limit is never consumed more often than the uses it has left, in any history of
  requests served one after the other that does not create the same token anew: not through
  revocation, deletion of the token or of its organization, nor any other request in between.
\<close>

theorem token_use_bound:
  assumes "redb_inv S E V X db" and "mesh_crates_ok K"
    and "\<forall>q \<in> set qs. request_ok q \<and> \<not> makes_token K k c q"
    and "token_limited k c (redb_abs S (V db))"
  shows "granted K (redb_manager S E P en) k c qs db \<le> uses_left k c (redb_abs S (V db))"
  using assms(2,3,1,4) by (rule tm.granted_bound)

theorem token_use_bound_witness:
  "granted ref_mesh ref_manager ''acme'' ''peat_ab''
     [ConsumeToken 5 ''acme'' ''ops'' ''peat_ab'', DeleteSink ''acme'' ''x'',
      ConsumeToken 6 ''acme'' ''ops'' ''peat_ab''] ref_db \<le> 1"
proof -
  let ?a = "redb_abs mem_serde (mem_tables ref_db)"
  have "a_tokens ?a (''acme'', ''peat_ab'') = Some ref_token"
    by (simp add: redb_abs_def tab_def pair_ok_def pair_key_def mem_tables_def ref_db_def mem_serde_def)
  then have "uses_left ''acme'' ''peat_ab'' ?a = 1" "token_limited ''acme'' ''peat_ab'' ?a"
    by (simp_all add: uses_left_def token_limited_def ref_token_def)
  with token_use_bound [OF ref_db_inv ref_mesh_ok, of
      "[ConsumeToken 5 ''acme'' ''ops'' ''peat_ab'', DeleteSink ''acme'' ''x'',
        ConsumeToken 6 ''acme'' ''ops'' ''peat_ab''] :: unit request list" "''acme''" "''peat_ab''"
      plaintext_provider False]
  show ?thesis by (simp del: granted.simps)
qed

section \<open>Single requests\<close>

text \<open>
  The identifiers \<open>validate_identifier\<close> accepts are exactly those of the documented pattern:
  an ASCII letter or digit followed by at most 127 letters, digits, dots, underscores or hyphens.
\<close>

theorem validate_identifier_pattern:
  "(validate_identifier s field = Inr ()) = is_identifier s"
  by (rule validate_identifier_iff)

text \<open>
  Creating an organization succeeds only for a valid, unused identifier and a display name of 1 to
  1024 bytes; it adds the record with the default quotas and nothing else, and the organization can be
  read back. When it fails, nothing is stored.
\<close>

theorem create_org_correct:
  assumes "redb_inv S E V X db" and "Tenant.create_org (redb_manager S E P en) now k name db = (r, db')"
  shows "case r of
      Inl e \<Rightarrow> redb_abs S (V db') = redb_abs S (V db)
    | Inr org \<Rightarrow> is_identifier k \<and> 0 < length name \<and> length name \<le> 1024 \<and>
        a_orgs (redb_abs S (V db)) k = None \<and>
        redb_abs S (V db') =
          (redb_abs S (V db))\<lparr>a_orgs := (a_orgs (redb_abs S (V db)))(k \<mapsto> org)\<rparr> \<and>
        org_quotas org = default_quotas \<and>
        (\<forall>x. Tenant.get_org (redb_manager S E P en) k db' = Inr x \<longrightarrow> x = org)"
proof (cases r)
  case (Inl e)
  with assms(2) have "Tenant.create_org (redb_manager S E P en) now k name db = (Inl e, db')" by simp
  from tm.create_org_Inl [OF assms(1) this] Inl show ?thesis by simp
next
  case (Inr org)
  with assms(2) have "Tenant.create_org (redb_manager S E P en) now k name db = (Inr org, db')" by simp
  from tm.create_org_Inr [OF assms(1) this]
  have *: "is_identifier k \<and> name \<noteq> [] \<and> length name \<le> 1024 \<and>
      a_orgs (redb_abs S (V db)) k = None \<and> org_quotas org = default_quotas \<and> redb_inv S E V X db' \<and>
      redb_abs S (V db') =
        (redb_abs S (V db))\<lparr>a_orgs := (a_orgs (redb_abs S (V db)))(k \<mapsto> org)\<rparr>"
    by auto
  then have "x = org" if "Tenant.get_org (redb_manager S E P en) k db' = Inr x" for x
    using tm.get_org_Inr(1) [OF _ that, of V X] by simp
  with * Inr show ?thesis by simp
qed

theorem create_org_correct_witness:
  "redb_abs mem_serde (mem_tables
     (snd (Tenant.create_org ref_manager 1 [] ''Acme'' mem_empty))) =
   redb_abs mem_serde (mem_tables mem_empty)"
proof -
  have run: "Tenant.create_org ref_manager 1 [] ''Acme'' mem_empty =
      (Inl (FieldEmpty ''org_id''), mem_empty)"
    by (simp add: Tenant.create_org_def validate_identifier_def op_defs)
  with create_org_correct [OF mem_inv_empty run] show ?thesis by simp
qed

text \<open>
  After a token was revoked, presenting it fails for every formation and at every time, and
  leaves the stored data as it is.
\<close>

theorem revoked_token_rejected:
  assumes "redb_inv S E V X db"
    and "revoke_token (redb_manager S E P en) k c db = (Inr t, db1)"
    and "validate_and_consume_token (redb_manager S E P en) now k app c db1 = (r, db2)"
  shows "\<not> is_ok r \<and> redb_abs S (V db2) = redb_abs S (V db1)"
proof -
  from tm.revoke_token_Inr [OF assms(1,2)] have inv: "redb_inv S E V X db1"
    and t: "a_tokens (redb_abs S (V db1)) (k, c) = Some t" "tok_revoked t"
    by auto
  then have "check_token now app c t \<noteq> Inr ()" by (simp add: check_token_def)
  with tm.consume_token_result [OF inv assms(3)] t show ?thesis
    by (auto simp: is_ok_def split: sum.splits)
qed

theorem revoked_token_rejected_witness:
  "\<exists>t db1 r db2. revoke_token ref_manager ''acme'' ''peat_ab'' ref_db = (Inr t, db1) \<and>
     validate_and_consume_token ref_manager 5 ''acme'' ''ops'' ''peat_ab'' db1 = (r, db2) \<and> \<not> is_ok r"
proof -
  obtain t db1 where 1: "revoke_token ref_manager ''acme'' ''peat_ab'' ref_db = (Inr t, db1)"
    by (simp add: revoke_token_def Tenant.get_token_def with_backend_def redb_backend_def
        Redb.get_token_def get_row_def Redb.update_token_def Redb.create_token_def put_json_def
        put_row_def run_write_def mem_engine_def mem_serde_def ref_db_def token_key_def ref_token_def
        op_defs Let_def)
  obtain r db2 where 2: "validate_and_consume_token ref_manager 5 ''acme'' ''ops'' ''peat_ab'' db1 = (r, db2)"
    by (cases "validate_and_consume_token ref_manager 5 ''acme'' ''ops'' ''peat_ab'' db1")
  from revoked_token_rejected [OF ref_db_inv 1 2] 1 2 show ?thesis by blast
qed

text \<open>
  What one use of a token does. Success means that the token exists, belongs to the formation, is
  neither revoked nor expired nor used up; its counter goes up by one without wrapping when it has a
  limit, and no other stored data changes. A refusal changes nothing.
\<close>

theorem consume_token_effect:
  assumes "redb_inv S E V X db"
    and "validate_and_consume_token (redb_manager S E P en) now k app c db = (r, db')"
  shows "case r of
      Inl e \<Rightarrow> redb_abs S (V db') = redb_abs S (V db)
    | Inr t \<Rightarrow> \<exists>t0. a_tokens (redb_abs S (V db)) (k, c) = Some t0 \<and>
        tok_app_id t0 = app \<and> \<not> tok_revoked t0 \<and>
        (\<forall>x. tok_expires_at t0 = Some x \<longrightarrow> now \<le> x) \<and>
        (\<forall>m. tok_max_uses t0 = Some m \<longrightarrow> tok_uses t0 < m \<and> unat (tok_uses t) = unat (tok_uses t0) + 1) \<and>
        t = t0\<lparr>tok_uses := tok_uses t0 + 1\<rparr> \<and>
        redb_abs S (V db') =
          (redb_abs S (V db))\<lparr>a_tokens := (a_tokens (redb_abs S (V db)))((k, c) \<mapsto> t)\<rparr>"
  using tm.consume_token_result [OF assms]
  by (auto simp: check_token_def not_le unat_u32_Suc split: sum.splits if_splits option.splits)

theorem consume_token_effect_witness:
  "\<exists>t db'. validate_and_consume_token ref_manager 5 ''acme'' ''ops'' ''peat_ab'' ref_db = (Inr t, db') \<and>
     tok_uses t = 1"
proof -
  have run: "\<exists>t db'. validate_and_consume_token ref_manager 5 ''acme'' ''ops'' ''peat_ab'' ref_db = (Inr t, db')"
    by (simp add: validate_and_consume_token_def check_token_def Tenant.get_token_def with_backend_def
        redb_backend_def Redb.get_token_def get_row_def Redb.update_token_def Redb.create_token_def
        put_json_def put_row_def run_write_def mem_engine_def mem_serde_def ref_db_def token_key_def
        ref_token_def op_defs Let_def)
  then obtain t db' where
    1: "validate_and_consume_token ref_manager 5 ''acme'' ''ops'' ''peat_ab'' ref_db = (Inr t, db')"
    by blast
  have "a_tokens (redb_abs mem_serde (mem_tables ref_db)) (''acme'', ''peat_ab'') = Some ref_token"
    by (simp add: redb_abs_def tab_def pair_ok_def pair_key_def mem_tables_def ref_db_def mem_serde_def)
  with consume_token_effect [OF ref_db_inv 1] have "tok_uses t = 1" by (auto simp: ref_token_def)
  with 1 show ?thesis by blast
qed

section \<open>Quotas and genesis keys\<close>

lemma card_rows_put:
  assumes "lists_rows m k xs" and "m (k, c) = None" and "x \<notin> rows_of m k"
  shows "card (rows_of (m((k, c) \<mapsto> x)) k) = Suc (length xs)"
proof -
  have "rows_of (m((k, c) \<mapsto> x)) k = insert x (rows_of m k)"
    using assms(2) by (auto simp: rows_of_def) (metis option.distinct(1))
  moreover have "finite (rows_of m k)" "card (rows_of m k) = length xs"
    using assms(1) distinct_card [of xs] by (auto simp: lists_rows_def) (metis List.finite_set)
  ultimately show ?thesis using assms(3) by simp
qed

lemma quota_room: "n < 2 ^ 32 \<Longrightarrow> (of_nat n :: u32) < q \<Longrightarrow> Suc n \<le> unat q"
  by (simp add: word_less_nat_alt unat_of_nat take_bit_eq_mod)


lemmas mem_run =
  with_backend_def redb_backend_def get_row_def put_json_def put_row_def remove_row_def run_write_def
  scan_rows_def mem_engine_def mem_serde_def mem_rows_def ref_db_def mem_empty_def
  formation_key_def token_key_def sink_key_def formation_prefix_def sink_prefix_def op_defs Let_def


text \<open>
  The CDC sink quota: after a sink was created the organization has at most \<open>max_cdc_sinks\<close>, if it
  had fewer than 2^32 before.
\<close>

theorem sink_quota_respected:
  assumes "redb_inv S E V X db" and "mesh_crates_ok K"
    and "Tenant.create_sink K (redb_manager S E P en) rnd now k st db = (Inr x, db')"
    and "a_orgs (redb_abs S (V db)) k = Some org"
    and "card (rows_of (a_sinks (redb_abs S (V db))) k) < 2 ^ 32"
  shows "card (rows_of (a_sinks (redb_abs S (V db'))) k) \<le> unat (max_cdc_sinks (org_quotas org))"
proof -
  let ?m = "a_sinks (redb_abs S (V db))"
  from tm.create_sink_Inr [OF assms(2,1,3)] assms(4) obtain existing where
    rows: "lists_rows ?m k existing" "(of_nat (length existing) :: u32) < max_cdc_sinks (org_quotas org)"
    and abs: "a_sinks (redb_abs S (V db')) = ?m((k, sink_sink_id x) \<mapsto> x)"
    by auto
  have "rows_of (a_sinks (redb_abs S (V db'))) k \<subseteq> insert x (set existing)"
    using rows(1) by (auto simp: abs rows_of_def lists_rows_def split: if_splits)
  then have "card (rows_of (a_sinks (redb_abs S (V db'))) k) \<le> Suc (length existing)"
    using order_trans [OF card_mono [of "set (x # existing)"] card_length] by simp
  moreover have "card (rows_of ?m k) = length existing"
    using rows(1) distinct_card [of existing] by (simp add: lists_rows_def)
  ultimately show ?thesis using quota_room [OF _ rows(2)] assms(5) by simp
qed

theorem sink_quota_respected_witness:
  "\<exists>x db'. Tenant.create_sink ref_mesh ref_manager [1] 7 ''acme'' (Kafka ''cdc'') ref_db = (Inr x, db') \<and>
     card (rows_of (a_sinks (redb_abs mem_serde (mem_tables db'))) ''acme'') \<le> 5"
proof -
  have "\<exists>x db'. Tenant.create_sink ref_mesh ref_manager [1] 7 ''acme'' (Kafka ''cdc'') ref_db = (Inr x, db')"
    by (simp add: Tenant.create_sink_def Tenant.get_org_def Redb.get_org_def Redb.list_sinks_def
        Redb.create_sink_def mem_run ref_org_def default_quotas_def ref_mesh_def validate_non_empty_def
        trim_id trimmed_def ws_seqs_def starts_with_def word_le_nat_alt)
  then obtain x db' where
    1: "Tenant.create_sink ref_mesh ref_manager [1] 7 ''acme'' (Kafka ''cdc'') ref_db = (Inr x, db')"
    by blast
  let ?a = "redb_abs mem_serde (mem_tables ref_db)"
  have org: "a_orgs ?a ''acme'' = Some ref_org"
    by (simp add: redb_abs_def mem_tables_def ref_db_def mem_serde_def)
  have "rows_of (a_sinks ?a) ''acme'' = {}"
    by (auto simp: rows_of_def redb_abs_def tab_def mem_tables_def ref_db_def mem_empty_def
        split: if_splits)
  with sink_quota_respected [where V = mem_tables, OF ref_db_inv ref_mesh_ok 1 org] 1 show ?thesis
    by (auto simp: ref_org_def default_quotas_def)
qed

text \<open>
  C8: genesis keys survive storage. The genesis a formation is created with is the one
  \<open>load_genesis\<close> returns, for every key provider the configuration can select, with encryption on
  or off: whenever loading succeeds, it yields that genesis.
\<close>

theorem genesis_roundtrip:
  assumes "redb_inv S E V X db" and "mesh_crates_ok K" and "crates_ok C" and "cc_aead C = mc_aead K"
    and "build_key_provider F C cfg = Inr (P, en)" and "seal_env_ok r"
    and "Tenant.create_formation K (redb_manager S E P en) rnd r k c pol db = (Inr f, db')"
    and "load_genesis K (redb_manager S E P en) e k c db' = Inr g"
  shows "g = mc_genesis_create K rnd c (mesh_policy pol)"
proof -
  let ?g = "mc_genesis_create K rnd c (mesh_policy pol)" and ?M = "redb_manager S E P en"
  from tm.create_formation_Inr [OF assms(1,7)] obtain stored where inv: "redb_inv S E V X db'"
    and stored: "a_genesis (redb_abs S (V db')) (k, c) = Some stored"
    and sealed: "if tm_encrypt_enabled ?M then seal (mc_aead K) (tm_key_provider ?M) r (mc_encode K ?g) = Inr stored
      else stored = mc_encode K ?g"
    by auto
  from tm.load_genesis_stored [OF inv stored assms(8)] obtain p where p: "mc_decode K p = Inr g"
    and opened: "if tm_encrypt_enabled ?M then \<exists>d. open_envelope (mc_aead K) (tm_key_provider ?M) e stored = Inr d \<and>
       p = (case d of Some q \<Rightarrow> q | None \<Rightarrow> stored)
     else p = stored"
    by blast
  have "p = mc_encode K ?g"
  proof (cases en)
    case True
    then obtain d where "open_envelope (cc_aead C) P e stored = Inr d"
      and d: "p = (case d of Some q \<Rightarrow> q | None \<Rightarrow> stored)"
      and "seal (cc_aead C) P r (mc_encode K ?g) = Inr stored"
      using sealed opened assms(4) by (auto simp: with_backend_def)
    then have "d = Some (mc_encode K ?g)"
      using built_provider_sound [OF assms(5,3,6)] by blast
    with d show ?thesis by simp
  next
    case False
    with sealed opened show ?thesis by (simp add: with_backend_def)
  qed
  with p assms(2) show ?thesis by (simp add: mesh_crates_ok_def)
qed

theorem genesis_roundtrip_witness:
  "\<exists>f db' g. Tenant.create_formation ref_mesh ref_manager [9] ref_seal_env ''acme'' ''air'' Strict ref_db =
       (Inr f, db') \<and>
     load_genesis ref_mesh ref_manager (se_wrap ref_seal_env) ''acme'' ''air'' db' = Inr g \<and> g = [9]"
proof -
  have "\<exists>f db' g. Tenant.create_formation ref_mesh ref_manager [9] ref_seal_env ''acme'' ''air'' Strict ref_db =
       (Inr f, db') \<and>
     load_genesis ref_mesh ref_manager (se_wrap ref_seal_env) ''acme'' ''air'' db' = Inr g"
    by (simp add: Tenant.create_formation_def Tenant.get_org_def Redb.get_org_def
        Redb.list_formations_def Redb.get_formation_def Redb.create_formation_def
        Redb.store_genesis_def mem_run ref_org_def default_quotas_def ref_formation_def ref_mesh_def
        starts_with_def validate_identifier_def index_def identifier_byte_def
        is_ascii_alphanumeric_def is_ascii_alphabetic_def is_ascii_digit_def less_eq_char_def of_char_def
        MAX_IDENTIFIER_LEN_def word_le_nat_alt load_genesis_def Redb.get_genesis_def)
  then obtain f db' g where run: "Tenant.create_formation ref_mesh ref_manager [9] ref_seal_env ''acme''
      ''air'' Strict ref_db = (Inr f, db')"
    "load_genesis ref_mesh ref_manager (se_wrap ref_seal_env) ''acme'' ''air'' db' = Inr g" by blast
  have "build_key_provider \<lparr>feat_aws_kms = False, feat_vault = False\<rparr> ref_crates
      (ref_config\<lparr>cfg_kek := None\<rparr>) = Inr (plaintext_provider, False)"
    "cc_aead ref_crates = mc_aead ref_mesh"
    by (simp_all add: build_key_provider_def ref_config_def ref_crates_def ref_mesh_def)
  from genesis_roundtrip [where V = mem_tables, OF ref_db_inv ref_mesh_ok ref_crates_ok this(2,1)
      ref_seal_env_ok run] run show ?thesis
    by (auto simp: ref_mesh_def)
qed

lemma delete_org_wiped_view:
  assumes "redb_inv S E V X db" and "nul_free k" and "reads_all E"
    and "Tenant.delete_org (redb_manager S E P en) k db = (Inr (), db')"
  shows "org_view k (redb_abs S (V db')) =
    (None, Map.empty, Map.empty, Map.empty, Map.empty, Map.empty, Map.empty, Map.empty, Map.empty)"
proof -
  from assms(4) have run: "Redb.delete_org E k db = (Inr True, db')"
    by (auto simp: Tenant.delete_org_def with_backend_def redb_backend_def op_iffs split: if_splits)
  note engine = redb_invD(2) [OF assms(1)]
  have "V db' ORGS_TABLE k = None"
    using delete_org_Inr [OF engine run] by simp
  moreover have wiped: "V db' t q = None" if "t \<in> set scoped_tables" "starts_with q (k @ [nul])" for t q
    using delete_org_wiped [OF engine run assms(3) that] .
  ultimately show ?thesis
    by (auto simp: org_view_def redb_abs_def fun_eq_iff scoped_tables_def
        pair.tab_wiped audit.tab_wiped cursor.tab_wiped)
qed



section \<open>Two requests at once\<close>

text \<open>
  \<open>validate_and_consume_token\<close> reads the token, checks it and writes it back in separate storage
  transactions, with no lock around them. These are its two halves.
\<close>

definition consume_begin ::
  "('s, 'n) tenant_manager \<Rightarrow> u64 \<Rightarrow> string \<Rightarrow> string \<Rightarrow> string \<Rightarrow> 's \<Rightarrow> err + enrollment_token" where
  "consume_begin M now org_id app_id token_id s =
     bindR (Tenant.get_token M org_id token_id s) (\<lambda>token.
     bindR (check_token now app_id token_id token) (\<lambda>_.
       Inr (token\<lparr>tok_uses := tok_uses token + 1\<rparr>)))"

definition consume_commit ::
  "('s, 'n) tenant_manager \<Rightarrow> enrollment_token \<Rightarrow> ('s, err, enrollment_token) op" where
  "consume_commit M token = seqE (be_update_token (tm_store M) token) (retE token)"

lemma consume_halves:
  "validate_and_consume_token M now k app c =
     bindE (readE (consume_begin M now k app c)) (consume_commit M)"
  by (auto simp: fun_eq_iff validate_and_consume_token_def consume_begin_def consume_commit_def op_defs
      Let_def split: sum.splits prod.splits)

text \<open>
  The use limit does not hold for requests that overlap. Two requests for a single-use token that
  both read before either writes both succeed; the counter ends at one although the token was used
  twice.
\<close>

theorem token_limit_race:
  "\<exists>db t db1 db2.
     mem_inv db \<and> uses_left ''acme'' ''peat_ab'' (redb_abs mem_serde (mem_tables db)) = 1 \<and>
     consume_begin ref_manager 5 ''acme'' ''ops'' ''peat_ab'' db = Inr t \<and>
     consume_commit ref_manager t db = (Inr t, db1) \<and>
     consume_commit ref_manager t db1 = (Inr t, db2) \<and> tok_uses t = 1"
proof (intro exI conjI)
  show "mem_inv ref_db" by (rule ref_db_inv)
  show "uses_left ''acme'' ''peat_ab'' (redb_abs mem_serde (mem_tables ref_db)) = 1"
    by (simp add: uses_left_def redb_abs_def tab_def pair_ok_def pair_key_def mem_tables_def ref_db_def
        mem_serde_def ref_token_def)
  let ?t = "ref_token\<lparr>tok_uses := 1\<rparr>"
  show "consume_begin ref_manager 5 ''acme'' ''ops'' ''peat_ab'' ref_db = Inr ?t"
    by (simp add: consume_begin_def check_token_def Tenant.get_token_def Redb.get_token_def mem_run
        ref_token_def)
  show "consume_commit ref_manager ?t ref_db = (Inr ?t, ref_db(TOKENS_TABLE :=
      AList.update (''acme'' @ nul # ''peat_ab'') (StToken ?t) (ref_db TOKENS_TABLE)))"
    by (simp add: consume_commit_def Redb.update_token_def Redb.create_token_def mem_run ref_token_def
        del: AList.update.simps)
  show "consume_commit ref_manager ?t (ref_db(TOKENS_TABLE :=
      AList.update (''acme'' @ nul # ''peat_ab'') (StToken ?t) (ref_db TOKENS_TABLE))) =
     (Inr ?t, ref_db(TOKENS_TABLE :=
      AList.update (''acme'' @ nul # ''peat_ab'') (StToken ?t) (AList.update (''acme'' @ nul # ''peat_ab'') (StToken ?t)
        (ref_db TOKENS_TABLE))))"
    by (simp add: consume_commit_def Redb.update_token_def Redb.create_token_def mem_run ref_token_def
        del: AList.update.simps)
  show "tok_uses ?t = 1" by simp
qed

end
