(* ===== verification/Cdc.thy ===== *)
theory Cdc
  imports Tenant_Contract
begin

text \<open>
  Change data capture: the two sinks (\<open>src/cdc/webhook_sink.rs\<close>, \<open>src/cdc/nats_sink.rs\<close>) and the
  engine that fans an event out to an organization's sinks (\<open>src/cdc/engine.rs\<close>).

  The HTTP and NATS clients are parameters: functions on the state \<open>'w\<close> of the outside. Beside the
  store and that state the model keeps the list of calls the code made, so that what was sent where can
  be stated. The cargo features \<open>nats\<close> and \<open>webhook\<close> are two flags.
\<close>

section \<open>The world\<close>

record hook_request =
  rq_url :: string
  rq_change_hash :: string   \<comment> \<open>header X-Peat-Change-Hash\<close>
  rq_org_id :: string        \<comment> \<open>header X-Peat-Org-Id\<close>
  rq_body :: bytes

record nats_message =
  nm_subject :: string
  nm_msg_id :: string        \<comment> \<open>header Nats-Msg-Id\<close>
  nm_payload :: bytes

datatype call =
    Posted hook_request
  | Slept u64
  | NatsPublished string nats_message   \<comment> \<open>on the connection to this server\<close>

record ('w, 'j) net =
  net_http_client :: "err + unit"
  net_post :: "hook_request \<Rightarrow> ('w, err, nat) op"
  net_nats_connect :: "string \<Rightarrow> err + unit"
  net_nats_publish :: "string \<Rightarrow> nats_message \<Rightarrow> ('w, err, unit) op"
  net_nats_flush :: "string \<Rightarrow> ('w, err, unit) op"
  net_to_vec :: "'j cdc_event \<Rightarrow> err + bytes"   \<comment> \<open>\<open>serde_json::to_vec\<close>\<close>

record ('s, 'w) cdc_state =
  cs_store :: 's
  cs_net :: 'w
  cs_calls :: "call list"

text \<open>Operations of the store and of the outside, lifted to the whole state.\<close>

definition on_store :: "('s, 'e, 'a) op \<Rightarrow> (('s, 'w) cdc_state, 'e, 'a) op" where
  "on_store f s = (case f (cs_store s) of (r, t) \<Rightarrow> (r, s\<lparr>cs_store := t\<rparr>))"

definition calling :: "call \<Rightarrow> ('w, 'e, 'a) op \<Rightarrow> (('s, 'w) cdc_state, 'e, 'a) op" where
  "calling c f s =
     (case f (cs_net s) of (r, w) \<Rightarrow> (r, s\<lparr>cs_net := w, cs_calls := cs_calls s @ [c]\<rparr>))"

definition on_net :: "('w, 'e, 'a) op \<Rightarrow> (('s, 'w) cdc_state, 'e, 'a) op" where
  "on_net f s = (case f (cs_net s) of (r, w) \<Rightarrow> (r, s\<lparr>cs_net := w\<rparr>))"

definition sleep :: "u64 \<Rightarrow> ('s, 'w) cdc_state \<Rightarrow> ('s, 'w) cdc_state" where
  "sleep ms s = s\<lparr>cs_calls := cs_calls s @ [Slept ms]\<rparr>"

section \<open>The webhook sink\<close>

definition MAX_RETRIES :: nat where
  "MAX_RETRIES = 3"

definition INITIAL_BACKOFF_MS :: u64 where
  "INITIAL_BACKOFF_MS = 100"

definition BACKOFF_MULTIPLIER :: u64 where
  "BACKOFF_MULTIPLIER = 2"

definition MAX_BACKOFF_MS :: u64 where
  "MAX_BACKOFF_MS = 5000"

definition is_client_error :: "nat \<Rightarrow> bool" where
  "is_client_error status \<longleftrightarrow> 400 \<le> status \<and> status < 500"

text \<open>
  What the loop makes of one answer: done, or give up, or go on. A failed request and every status
  outside 2xx and 4xx go on.
\<close>

datatype verdict = Delivered | Refused nat | Retry

fun judge :: "err + nat \<Rightarrow> verdict" where
  "judge (Inl e) = Retry"
| "judge (Inr status) =
     (if is_success status then Delivered
      else if is_client_error status then Refused status
      else Retry)"

function webhook_loop ::
  "('w, 'j) net \<Rightarrow> hook_request \<Rightarrow> nat \<Rightarrow> u64 \<Rightarrow> (('s, 'w) cdc_state, err, unit) op" where
  "webhook_loop N rq attempt backoff_ms s =
     (if MAX_RETRIES < attempt then (Inl (Io ''Webhook failed after retries''), s)
      else
        (case calling (Posted rq) (net_post N rq) s of
           (answer, s1) \<Rightarrow>
             (case judge answer of
                Delivered \<Rightarrow> (Inr (), s1)
              | Refused status \<Rightarrow> (Inl (HttpStatus status), s1)
              | Retry \<Rightarrow>
                  if attempt < MAX_RETRIES then
                    webhook_loop N rq (attempt + 1)
                      (min (backoff_ms * BACKOFF_MULTIPLIER) MAX_BACKOFF_MS) (sleep backoff_ms s1)
                  else webhook_loop N rq (attempt + 1) backoff_ms s1)))"
  by pat_completeness auto
termination
  by (relation "measure (\<lambda>(N, rq, attempt, b, s). Suc MAX_RETRIES - attempt)") (auto simp: MAX_RETRIES_def)

declare webhook_loop.simps [simp del]

definition webhook_request :: "string \<Rightarrow> 'j cdc_event \<Rightarrow> bytes \<Rightarrow> hook_request" where
  "webhook_request url event payload =
     \<lparr>rq_url = url, rq_change_hash = ev_change_hash event, rq_org_id = ev_org_id event, rq_body = payload\<rparr>"

definition webhook_publish ::
  "('w, 'j) net \<Rightarrow> string \<Rightarrow> 'j cdc_event \<Rightarrow> (('s, 'w) cdc_state, err, unit) op" where
  "webhook_publish N url event =
     bindE (liftE (net_to_vec N event)) (\<lambda>payload.
       webhook_loop N (webhook_request url event payload) 0 INITIAL_BACKOFF_MS)"

section \<open>The NATS sink\<close>

definition nats_subject :: "string \<Rightarrow> 'j cdc_event \<Rightarrow> string" where
  "nats_subject subject_prefix event =
     subject_prefix @ ''.'' @ ev_app_id event @ ''.'' @ ev_document_id event"

definition nats_publish ::
  "('w, 'j) net \<Rightarrow> string \<Rightarrow> string \<Rightarrow> 'j cdc_event \<Rightarrow> (('s, 'w) cdc_state, err, unit) op" where
  "nats_publish N client subject_prefix event =
     bindE (liftE (net_to_vec N event)) (\<lambda>payload.
       let msg = \<lparr>nm_subject = nats_subject subject_prefix event, nm_msg_id = ev_change_hash event,
                  nm_payload = payload\<rparr>
       in seqE (calling (NatsPublished client msg) (net_nats_publish N client msg))
               (on_net (net_nats_flush N client)))"

section \<open>The engine\<close>

record ('s, 'n) cdc_engine =
  eng_tenant_mgr :: "('s, 'n) tenant_manager"
  eng_feature_nats :: bool
  eng_feature_webhook :: bool
  eng_nats_sink :: "string option"

definition new_engine ::
  "('w, 'j) net \<Rightarrow> bool \<Rightarrow> bool \<Rightarrow> string option \<Rightarrow> ('s, 'n) tenant_manager \<Rightarrow> err + ('s, 'n) cdc_engine" where
  "new_engine N nats webhook nats_url M =
     bindR (if nats then
              (case nats_url of
                 Some url \<Rightarrow> mapR (\<lambda>_. Some url) (net_nats_connect N url)
               | None \<Rightarrow> Inr None)
            else Inr None) (\<lambda>nats_sink.
     bindR (if webhook then net_http_client N else Inr ()) (\<lambda>_.
       Inr \<lparr>eng_tenant_mgr = M, eng_feature_nats = nats, eng_feature_webhook = webhook,
            eng_nats_sink = nats_sink\<rparr>))"

text \<open>One sink of the loop. A failed delivery is logged and the loop goes on.\<close>

definition publish_to ::
  "('w, 'j) net \<Rightarrow> ('s, 'n) cdc_engine \<Rightarrow> 'j cdc_event \<Rightarrow> cdc_sink_config \<Rightarrow> (('s, 'w) cdc_state, err, unit) op" where
  "publish_to N G event sink =
     (if \<not> sink_enabled sink then retE ()
      else
        (case sink_sink_type sink of
           Nats subject_prefix \<Rightarrow>
             if eng_feature_nats G then
               (case eng_nats_sink G of
                  Some client \<Rightarrow> ignoreE (nats_publish N client subject_prefix event)
                | None \<Rightarrow> retE ())
             else retE ()
         | Kafka topic \<Rightarrow> retE ()
         | Webhook url \<Rightarrow>
             if eng_feature_webhook G then ignoreE (webhook_publish N url event) else retE ()))"

fun publish_all ::
  "('w, 'j) net \<Rightarrow> ('s, 'n) cdc_engine \<Rightarrow> 'j cdc_event \<Rightarrow> cdc_sink_config list
     \<Rightarrow> (('s, 'w) cdc_state, err, unit) op" where
  "publish_all N G event [] = retE ()"
| "publish_all N G event (sink # sinks) = seqE (publish_to N G event sink) (publish_all N G event sinks)"

definition publish ::
  "('w, 'j) net \<Rightarrow> ('s, 'n) cdc_engine \<Rightarrow> 'j cdc_event \<Rightarrow> (('s, 'w) cdc_state, err, unit) op" where
  "publish N G event =
     bindE (on_store (readE (list_sinks (eng_tenant_mgr G) (ev_org_id event)))) (\<lambda>sinks.
       publish_all N G event sinks)"

section \<open>The retry loop\<close>

text \<open>The answers of the outside to a request that is posted again and again.\<close>

fun answers :: "('w, 'j) net \<Rightarrow> hook_request \<Rightarrow> nat \<Rightarrow> 'w \<Rightarrow> (err + nat) list" where
  "answers N rq 0 w = []"
| "answers N rq (Suc n) w = (case net_post N rq w of (a, w') \<Rightarrow> a # answers N rq n w')"

text \<open>
  The contract of the loop, on the first four answers: the first one that is not a retry decides, and
  the calls are the posts up to it with the growing pauses between them.
\<close>

fun webhook_result :: "verdict list \<Rightarrow> err + unit" where
  "webhook_result [] = Inl (Io ''Webhook failed after retries'')"
| "webhook_result (Delivered # vs) = Inr ()"
| "webhook_result (Refused status # vs) = Inl (HttpStatus status)"
| "webhook_result (Retry # vs) = webhook_result vs"

fun webhook_calls :: "hook_request \<Rightarrow> u64 list \<Rightarrow> verdict list \<Rightarrow> call list" where
  "webhook_calls rq pauses [] = []"
| "webhook_calls rq pauses (Retry # vs) =
     Posted rq # (case pauses of [] \<Rightarrow> [] | p # ps \<Rightarrow> Slept p # webhook_calls rq ps vs)"
| "webhook_calls rq pauses (v # vs) = [Posted rq]"

fun is_post :: "call \<Rightarrow> bool" where
  "is_post (Posted rq) = True"
| "is_post _ = False"

lemma webhook_calls_posts: "length (filter is_post (webhook_calls rq ps vs)) \<le> length vs"
  by (induction rq ps vs rule: webhook_calls.induct) (auto split: list.splits)

lemma webhook_loop_go:
  "attempt < 3 \<Longrightarrow> webhook_loop N rq attempt b s =
     (case calling (Posted rq) (net_post N rq) s of (a, s1) \<Rightarrow>
       (case judge a of Delivered \<Rightarrow> (Inr (), s1) | Refused st \<Rightarrow> (Inl (HttpStatus st), s1)
        | Retry \<Rightarrow> webhook_loop N rq (attempt + 1) (min (b * 2) 5000) (sleep b s1)))"
  unfolding webhook_loop.simps [of N rq attempt]
  by (simp add: MAX_RETRIES_def BACKOFF_MULTIPLIER_def MAX_BACKOFF_MS_def split: prod.split verdict.split)

lemma webhook_loop_over: "webhook_loop N rq 4 b s = (Inl (Io ''Webhook failed after retries''), s)"
  unfolding webhook_loop.simps [of N rq 4] by (simp add: MAX_RETRIES_def)

lemma webhook_loop_last:
  "webhook_loop N rq 3 b s =
     (case calling (Posted rq) (net_post N rq) s of (a, s1) \<Rightarrow>
       (case judge a of Delivered \<Rightarrow> (Inr (), s1) | Refused st \<Rightarrow> (Inl (HttpStatus st), s1)
        | Retry \<Rightarrow> (Inl (Io ''Webhook failed after retries''), s1)))"
  unfolding webhook_loop.simps [of N rq 3] by (simp add: MAX_RETRIES_def webhook_loop_over split: prod.split verdict.split)

lemma answers_step:
  "answers N rq (Suc n) w = fst (net_post N rq w) # answers N rq n (snd (net_post N rq w))"
  by (simp split: prod.splits)

lemma length_answers [simp]: "length (answers N rq n w) = n"
  by (induction n arbitrary: w) (simp_all add: answers_step del: answers.simps(2))

lemma calling_eq:
  "calling c f s = (fst (f (cs_net s)), s\<lparr>cs_net := snd (f (cs_net s)), cs_calls := cs_calls s @ [c]\<rparr>)"
  by (simp add: calling_def split: prod.splits)

lemma webhook_loop_spec:
  assumes vs: "vs = map judge (answers N rq 4 (cs_net s))"
  shows "fst (webhook_loop N rq 0 INITIAL_BACKOFF_MS s) = webhook_result vs \<and>
    cs_calls (snd (webhook_loop N rq 0 INITIAL_BACKOFF_MS s)) =
      cs_calls s @ webhook_calls rq [100, 200, 400] vs \<and>
    cs_store (snd (webhook_loop N rq 0 INITIAL_BACKOFF_MS s)) = cs_store s"
proof -
  have four: "answers N rq 4 w = answers N rq (Suc (Suc (Suc (Suc 0)))) w" for w
    by (simp add: numeral_eq_Suc)
  show ?thesis
    unfolding vs four answers_step INITIAL_BACKOFF_MS_def
    by (simp add: webhook_loop_go webhook_loop_last [unfolded numeral_3_eq_3] calling_eq sleep_def min_def word_le_nat_alt split: verdict.split)
qed

lemma webhook_publish_spec:
  assumes "net_to_vec N event = Inr payload"
    and "rq = webhook_request url event payload" and "vs = map judge (answers N rq 4 (cs_net s))"
  shows "fst (webhook_publish N url event s) = webhook_result vs \<and>
    cs_calls (snd (webhook_publish N url event s)) = cs_calls s @ webhook_calls rq [100, 200, 400] vs"
  using webhook_loop_spec [of vs N rq s] assms by (simp add: webhook_publish_def op_steps)

section \<open>Where an event goes\<close>

text \<open>
  A call is due for an event: to an enabled sink of the event's organization, with the event's own
  identity in the headers and the subject.
\<close>

definition call_due :: "cdc_sink_config set \<Rightarrow> 'j cdc_event \<Rightarrow> call \<Rightarrow> bool" where
  "call_due sinks ev c =
     (case c of
        Posted rq \<Rightarrow> rq_org_id rq = ev_org_id ev \<and> rq_change_hash rq = ev_change_hash ev \<and>
          (\<exists>x \<in> sinks. sink_enabled x \<and> sink_sink_type x = Webhook (rq_url rq))
      | NatsPublished client m \<Rightarrow> nm_msg_id m = ev_change_hash ev \<and>
          (\<exists>x \<in> sinks. \<exists>p. sink_enabled x \<and> sink_sink_type x = Nats p \<and> nm_subject m = nats_subject p ev)
      | Slept ms \<Rightarrow> True)"

text \<open>The steps of a run that only talk to the outside, each by a call in \<open>P\<close>.\<close>

definition only_calls :: "(call \<Rightarrow> bool) \<Rightarrow> ('s, 'w) cdc_state \<Rightarrow> ('s, 'w) cdc_state \<Rightarrow> bool" where
  "only_calls P s s' \<longleftrightarrow> cs_store s' = cs_store s \<and>
     (\<exists>cs. cs_calls s' = cs_calls s @ cs \<and> (\<forall>c \<in> set cs. P c))"

lemma only_calls_refl [simp]: "only_calls P s s"
  by (simp add: only_calls_def)

lemma only_calls_trans: "only_calls P s t \<Longrightarrow> only_calls P t u \<Longrightarrow> only_calls P s u"
  by (fastforce simp: only_calls_def)

lemma only_calls_mono: "only_calls P s t \<Longrightarrow> (\<And>c. P c \<Longrightarrow> Q c) \<Longrightarrow> only_calls Q s t"
  by (auto simp: only_calls_def)

lemma webhook_calls_set: "c \<in> set (webhook_calls rq ps vs) \<Longrightarrow> c = Posted rq \<or> (\<exists>ms. c = Slept ms)"
  by (induction rq ps vs rule: webhook_calls.induct) (auto split: list.splits)

lemma webhook_publish_only:
  "only_calls (\<lambda>c. case c of Posted rq \<Rightarrow> rq_url rq = url \<and> rq_org_id rq = ev_org_id ev \<and>
      rq_change_hash rq = ev_change_hash ev | Slept ms \<Rightarrow> True | NatsPublished cl m \<Rightarrow> False)
    s (snd (webhook_publish N url ev s))"
proof (cases "net_to_vec N ev")
  case (Inl e)
  then show ?thesis by (simp add: webhook_publish_def op_steps)
next
  case (Inr payload)
  let ?rq = "webhook_request url ev payload"
  from webhook_loop_spec [OF refl, of N ?rq s] show ?thesis
    by (auto simp: only_calls_def webhook_publish_def op_steps Inr webhook_request_def
        dest!: webhook_calls_set)
qed

lemma nats_publish_only:
  "only_calls (\<lambda>c. \<exists>m. c = NatsPublished client m \<and> nm_subject m = nats_subject p ev \<and>
      nm_msg_id m = ev_change_hash ev) s (snd (nats_publish N client p ev s))"
  by (auto simp: nats_publish_def only_calls_def op_defs calling_def on_net_def Let_def
      split: sum.splits prod.splits)

lemma publish_to_only:
  assumes "x \<in> X"
  shows "only_calls (call_due X ev) s (snd (publish_to N G ev x s))"
proof (cases "sink_enabled x")
  case True
  have "only_calls (call_due X ev) s (snd (webhook_publish N url ev s))" if "sink_sink_type x = Webhook url" for url
    by (rule only_calls_mono [OF webhook_publish_only])
       (use assms True that in \<open>auto simp: call_due_def split: call.splits\<close>)
  moreover have "only_calls (call_due X ev) s (snd (nats_publish N cl p ev s))" if "sink_sink_type x = Nats p" for cl p
    by (rule only_calls_mono [OF nats_publish_only])
       (use assms True that in \<open>auto simp: call_due_def intro!: bexI [of _ x]\<close>)
  ultimately show ?thesis
    using True
    by (auto simp: publish_to_def retE_def ignoreE_def split: cdc_sink_type.splits option.splits)
qed (simp add: publish_to_def retE_def)

lemma publish_to_Inr: "fst (publish_to N G ev x s) = Inr ()"
  by (simp add: publish_to_def retE_def ignoreE_def split: cdc_sink_type.splits option.splits)

lemma publish_all_Cons:
  "publish_all N G ev (x # xs) s = publish_all N G ev xs (snd (publish_to N G ev x s))"
  using publish_to_Inr [of N G ev x s]
  by (cases "publish_to N G ev x s") (simp add: op_defs)

text \<open>Publishing never fails for the sinks' sake, whatever they answer.\<close>

lemma publish_all_Inr: "fst (publish_all N G ev xs s) = Inr ()"
  by (induction xs arbitrary: s) (simp_all add: publish_all_Cons retE_def del: publish_all.simps(2))

lemma publish_all_only:
  "set xs \<subseteq> X \<Longrightarrow> only_calls (call_due X ev) s (snd (publish_all N G ev xs s))"
proof (induction xs arbitrary: s)
  case (Cons x xs)
  let ?t = "snd (publish_to N G ev x s)"
  from Cons.prems have "only_calls (call_due X ev) s ?t" by (intro publish_to_only) simp
  moreover from Cons have "only_calls (call_due X ev) ?t (snd (publish_all N G ev xs ?t))" by simp
  ultimately show ?case unfolding publish_all_Cons by (rule only_calls_trans)
qed (simp add: retE_def)

lemma publish_all_store [simp]: "cs_store (snd (publish_all N G ev xs s)) = cs_store s"
  using publish_all_only [OF subset_refl, of xs ev s N G] by (simp add: only_calls_def)

lemma publish_eq:
  "publish N G ev s =
     (case list_sinks (eng_tenant_mgr G) (ev_org_id ev) (cs_store s) of
        Inl e \<Rightarrow> (Inl e, s)
      | Inr xs \<Rightarrow> (Inr (), snd (publish_all N G ev xs s)))"
  using publish_all_Inr [of N G ev _ s]
  by (auto simp: publish_def op_defs on_store_def split: sum.splits prod.splits intro!: prod_eqI)

end
