(* ===== verification/Watcher.thy ===== *)
theory Watcher
  imports Cdc Rust_Text "HOL-Library.Multiset"
begin

text \<open>
  The CDC watcher (\<open>src/cdc/watcher.rs\<close>): the hash of a change, what a watcher task does with one
  change event, the task's loop, and the table of running tasks. The document store's change stream is
  the list of events it delivers; the std hasher and the text of a JSON value are parameters.
\<close>

section \<open>Change hashes\<close>

text \<open>What is fed to the hasher, in order; \<open>hasher\<close> is \<open>DefaultHasher\<close> run on it.\<close>

datatype hash_item = HStr string | HU64 u64

type_synonym 'j fields = "(string \<times> 'j json) list"

record 'j hashing =
  hs_finish :: "hash_item list \<Rightarrow> u64"
  hs_json_text :: "'j json \<Rightarrow> err + string"

definition hash_field :: "'j hashing \<Rightarrow> string \<times> 'j json \<Rightarrow> hash_item list" where
  "hash_field Z kv =
     HStr (fst kv) # (case hs_json_text Z (snd kv) of Inr v \<Rightarrow> [HStr v] | Inl _ \<Rightarrow> [])"

text \<open>The fields are a hash map: its entries in no particular order. The keys are sorted first.\<close>

definition hash_fields :: "'j hashing \<Rightarrow> string \<Rightarrow> 'j fields \<Rightarrow> u64 \<Rightarrow> u64" where
  "hash_fields Z doc_id fs timestamp_ms =
     hs_finish Z (HStr doc_id # HU64 timestamp_ms #
       concat (map (\<lambda>k. hash_field Z (k, the (map_of fs k))) (sort (map fst fs))))"

text \<open>The format \<open>{:x}\<close>: hexadecimal digits without leading zeros.\<close>

definition hex_digit :: "nat \<Rightarrow> char" where
  "hex_digit d = (if d < 10 then char_of (48 + d) else char_of (87 + d))"

fun lower_hex :: "nat \<Rightarrow> string" where
  "lower_hex n = (if n < 16 then [hex_digit n] else lower_hex (n div 16) @ [hex_digit (n mod 16)])"

declare lower_hex.simps [simp del]

section \<open>One change event\<close>

record 'j document =
  dc_id :: "string option"
  dc_fields :: "'j fields"
  dc_updated_at :: int       \<comment> \<open>\<open>SystemTime\<close>: nanoseconds since the epoch, negative before it\<close>

datatype 'j change_event =
    Updated string "'j document"
  | Removed string string
  | Initial "'j document list"

text \<open>\<open>duration_since(UNIX_EPOCH)\<close>, an error before the epoch, as milliseconds cut to 64 bits.\<close>

definition millis_since_epoch :: "int \<Rightarrow> u64" where
  "millis_since_epoch t = (if t < 0 then 0 else of_int (t div 1000000))"

definition updated_event :: "'j hashing \<Rightarrow> string \<Rightarrow> string \<Rightarrow> 'j document \<Rightarrow> 'j cdc_event" where
  "updated_event Z org app d =
     (let did = (case dc_id d of Some i \<Rightarrow> i | None \<Rightarrow> ''unknown'');
          timestamp_ms = millis_since_epoch (dc_updated_at d)
      in \<lparr>ev_org_id = org, ev_app_id = app, ev_document_id = did,
          ev_change_hash = lower_hex (unat (hash_fields Z did (dc_fields d) timestamp_ms)),
          ev_actor_id = (case Option.bind (map_of (dc_fields d) ''_actor'') as_str of
                           Some a \<Rightarrow> a | None \<Rightarrow> ''unknown''),
          ev_timestamp_ms = timestamp_ms,
          ev_patches = JObject (sort_key fst (dc_fields d))\<rparr>)"

definition removed_event :: "'j hashing \<Rightarrow> int \<Rightarrow> string \<Rightarrow> string \<Rightarrow> string \<Rightarrow> 'j cdc_event" where
  "removed_event Z now org app did =
     (let timestamp_ms = millis_since_epoch now
      in \<lparr>ev_org_id = org, ev_app_id = app, ev_document_id = did,
          ev_change_hash = lower_hex (unat (hash_fields Z did [] timestamp_ms)),
          ev_actor_id = ''system'', ev_timestamp_ms = timestamp_ms,
          ev_patches = JObject [(''_deleted'', JBool True)]\<rparr>)"

text \<open>Whether the stored cursor is the hash of this change. An error of the lookup counts as no.\<close>

definition seen :: "('s, 'n) tenant_manager \<Rightarrow> 'j cdc_event \<Rightarrow> 's \<Rightarrow> bool" where
  "seen M ev s =
     (case get_cursor M (ev_org_id ev) (ev_app_id ev) (ev_document_id ev) s of
        Inr (Some cursor) \<Rightarrow> cursor = ev_change_hash ev
      | _ \<Rightarrow> False)"

definition save_cursor ::
  "('s, 'n) tenant_manager \<Rightarrow> 'j cdc_event \<Rightarrow> (('s, 'w) cdc_state, err, unit) op" where
  "save_cursor M ev =
     on_store (set_cursor M (ev_org_id ev) (ev_app_id ev) (ev_document_id ev) (ev_change_hash ev))"

text \<open>
  Publishing and then the cursor: when publishing failed, the event is left for a replay; an error of
  the cursor is only logged.
\<close>

definition emit ::
  "('w, 'j) net \<Rightarrow> ('s, 'n) cdc_engine \<Rightarrow> ('s, 'n) tenant_manager \<Rightarrow> 'j cdc_event
     \<Rightarrow> ('s, 'w) cdc_state \<Rightarrow> ('s, 'w) cdc_state" where
  "emit N G M ev s =
     (case publish N G ev s of
        (Inl e, s1) \<Rightarrow> s1
      | (Inr _, s1) \<Rightarrow> snd (save_cursor M ev s1))"

definition handle_change ::
  "('w, 'j) net \<Rightarrow> 'j hashing \<Rightarrow> ('s, 'n) cdc_engine \<Rightarrow> ('s, 'n) tenant_manager \<Rightarrow> string \<Rightarrow> string
     \<Rightarrow> int \<Rightarrow> 'j change_event \<Rightarrow> ('s, 'w) cdc_state \<Rightarrow> ('s, 'w) cdc_state" where
  "handle_change N Z G M org app now change s =
     (case change of
        Updated _ d \<Rightarrow>
          let ev = updated_event Z org app d
          in if seen M ev (cs_store s) then s else emit N G M ev s
      | Removed _ did \<Rightarrow> emit N G M (removed_event Z now org app did) s
      | Initial _ \<Rightarrow> s)"

text \<open>The task: events as they are received, each with the time it is handled at.\<close>

fun watch_loop ::
  "('w, 'j) net \<Rightarrow> 'j hashing \<Rightarrow> ('s, 'n) cdc_engine \<Rightarrow> ('s, 'n) tenant_manager \<Rightarrow> string \<Rightarrow> string
     \<Rightarrow> (int \<times> 'j change_event) list \<Rightarrow> ('s, 'w) cdc_state \<Rightarrow> ('s, 'w) cdc_state" where
  "watch_loop N Z G M org app [] s = s"
| "watch_loop N Z G M org app ((now, change) # rest) s =
     watch_loop N Z G M org app rest (handle_change N Z G M org app now change s)"

section \<open>The table of tasks\<close>

text \<open>
  A task is waiting for the next change, or has published an event and not yet saved its cursor, or has
  seen the end of its stream. The table keeps the handle of an ended task. Aborting a task takes effect
  at an \<open>await\<close>, so also between the two halves of an event.
\<close>

type_synonym watch_key = "string \<times> string"

datatype 'j task = Waiting | Saving "'j cdc_event" | Ended

type_synonym 'j handles = "watch_key \<rightharpoonup> 'j task"

text \<open>\<open>observe\<close> stands for the formation's document store.\<close>

definition watch_formation ::
  "(string \<Rightarrow> err + unit) \<Rightarrow> string \<Rightarrow> string \<Rightarrow> ('j handles, err, unit) op" where
  "watch_formation observe org_id app_id handles =
     (let key = (org_id, app_id)
      in if handles key \<noteq> None then (Inr (), handles)
         else (case observe (org_id @ ''.'' @ app_id) of
                 Inl e \<Rightarrow> (Inl e, handles)
               | Inr _ \<Rightarrow> (Inr (), handles(key \<mapsto> Waiting))))"

definition unwatch_formation :: "string \<Rightarrow> string \<Rightarrow> 'j handles \<Rightarrow> 'j handles" where
  "unwatch_formation org_id app_id handles = handles((org_id, app_id) := None)"

definition shutdown :: "'j handles \<Rightarrow> 'j handles" where
  "shutdown handles = Map.empty"

text \<open>The first half of handling a change: up to the cursor, if there is one to save.\<close>

definition publish_half ::
  "('w, 'j) net \<Rightarrow> ('s, 'n) cdc_engine \<Rightarrow> 'j cdc_event \<Rightarrow> ('s, 'w) cdc_state \<Rightarrow> 'j task \<times> ('s, 'w) cdc_state" where
  "publish_half N G ev s =
     (case publish N G ev s of (Inl e, s1) \<Rightarrow> (Waiting, s1) | (Inr _, s1) \<Rightarrow> (Saving ev, s1))"

definition receive ::
  "('w, 'j) net \<Rightarrow> 'j hashing \<Rightarrow> ('s, 'n) cdc_engine \<Rightarrow> ('s, 'n) tenant_manager \<Rightarrow> string \<Rightarrow> string
     \<Rightarrow> int \<Rightarrow> 'j change_event \<Rightarrow> ('s, 'w) cdc_state \<Rightarrow> 'j task \<times> ('s, 'w) cdc_state" where
  "receive N Z G M org app now change s =
     (case change of
        Updated _ d \<Rightarrow>
          let ev = updated_event Z org app d
          in if seen M ev (cs_store s) then (Waiting, s) else publish_half N G ev s
      | Removed _ did \<Rightarrow> publish_half N G (removed_event Z now org app did) s
      | Initial _ \<Rightarrow> (Waiting, s))"

datatype 'j action =
    Watch string string
  | Unwatch string string
  | Shutdown
  | Receive watch_key int "'j change_event"
  | Save watch_key
  | End watch_key

inductive watcher_step ::
  "('w, 'j) net \<Rightarrow> 'j hashing \<Rightarrow> ('s, 'n) cdc_engine \<Rightarrow> ('s, 'n) tenant_manager \<Rightarrow> 'j action
     \<Rightarrow> 'j handles \<times> ('s, 'w) cdc_state \<Rightarrow> 'j handles \<times> ('s, 'w) cdc_state \<Rightarrow> bool"
  for N Z G M where
  watch: "watch_formation observe org app h = (r, h') \<Longrightarrow>
    watcher_step N Z G M (Watch org app) (h, s) (h', s)"
| unwatch: "watcher_step N Z G M (Unwatch org app) (h, s) (unwatch_formation org app h, s)"
| shutdown: "watcher_step N Z G M Shutdown (h, s) (shutdown h, s)"
| receive: "h (org, app) = Some Waiting \<Longrightarrow> receive N Z G M org app now change s = (t, s') \<Longrightarrow>
    watcher_step N Z G M (Receive (org, app) now change) (h, s) (h((org, app) \<mapsto> t), s')"
| save: "h k = Some (Saving ev) \<Longrightarrow> save_cursor M ev s = (r, s') \<Longrightarrow>
    watcher_step N Z G M (Save k) (h, s) (h(k \<mapsto> Waiting), s')"
| stream_end: "h k = Some Waiting \<Longrightarrow> watcher_step N Z G M (End k) (h, s) (h(k \<mapsto> Ended), s)"

inductive watcher_run ::
  "('w, 'j) net \<Rightarrow> 'j hashing \<Rightarrow> ('s, 'n) cdc_engine \<Rightarrow> ('s, 'n) tenant_manager \<Rightarrow> 'j action list
     \<Rightarrow> 'j handles \<times> ('s, 'w) cdc_state \<Rightarrow> 'j handles \<times> ('s, 'w) cdc_state \<Rightarrow> bool"
  for N Z G M where
  stop: "watcher_run N Z G M [] x x"
| more: "watcher_step N Z G M a x y \<Longrightarrow> watcher_run N Z G M as y z \<Longrightarrow> watcher_run N Z G M (a # as) x z"

inductive_cases watcher_stepE: "watcher_step N Z G M a (h, s) (h', s')"
inductive_cases watcher_runE: "watcher_run N Z G M (a # as) x z" "watcher_run N Z G M [] x z"

text \<open>Uninterrupted, the two halves are the whole.\<close>

definition finish_task ::
  "('s, 'n) tenant_manager \<Rightarrow> 'j task \<times> ('s, 'w) cdc_state \<Rightarrow> ('s, 'w) cdc_state" where
  "finish_task M = (\<lambda>(t, s). case t of Saving ev \<Rightarrow> snd (save_cursor M ev s) | _ \<Rightarrow> s)"

lemma receive_then_save:
  "finish_task M (receive N Z G M org app now change s) = handle_change N Z G M org app now change s"
  by (simp add: finish_task_def receive_def handle_change_def publish_half_def emit_def Let_def
      split: change_event.splits prod.splits sum.splits)

section \<open>The hash text determines the hash\<close>

lemma of_char_hex_digit:
  "d < 16 \<Longrightarrow> of_char (hex_digit d) = (if d < 10 then 48 + d else 87 + d :: nat)"
  by (simp add: hex_digit_def of_char_of)

lemma hex_digit_eq:
  assumes "d < 16" and "e < 16"
  shows "hex_digit d = hex_digit e \<longleftrightarrow> d = e"
proof
  assume "hex_digit d = hex_digit e"
  then have "(of_char (hex_digit d) :: nat) = of_char (hex_digit e)" by simp
  with assms show "d = e" by (simp only: of_char_hex_digit) (simp split: if_splits)
qed simp

lemma lower_hex_nonempty: "lower_hex n \<noteq> []"
  by (subst lower_hex.simps) simp

lemmas lower_hex_neq_Nil [simp] = lower_hex_nonempty lower_hex_nonempty [symmetric]

lemma lower_hex_inject: "lower_hex m = lower_hex n \<longleftrightarrow> m = n"
proof (induction n arbitrary: m rule: lower_hex.induct)
  case (1 n)
  show ?case
  proof (cases "n < 16")
    case True
    then show ?thesis
      by (subst (1 2) lower_hex.simps) (auto simp: hex_digit_eq append_eq_Cons_conv)
  next
    case False
    then have n: "lower_hex n = lower_hex (n div 16) @ [hex_digit (n mod 16)]"
      by (subst lower_hex.simps) simp
    show ?thesis
    proof (cases "m < 16")
      case True
      with False n show ?thesis
        by (subst lower_hex.simps) auto
    next
      case m: False
      then have "lower_hex m = lower_hex (m div 16) @ [hex_digit (m mod 16)]"
        by (subst lower_hex.simps) simp
      with n 1 [OF False, of "m div 16"] show ?thesis
        by (simp add: hex_digit_eq) (metis div_mod_decomp)
    qed
  qed
qed

text \<open>The entries of a hash map come in any order; the hash does not depend on it.\<close>

lemma hash_fields_perm:
  assumes "distinct (map fst fs)" and "mset fs = mset gs"
  shows "hash_fields Z d fs t = hash_fields Z d gs t"
proof -
  from assms(2) have keys: "mset (map fst fs) = mset (map fst gs)" by simp
  then have "distinct (map fst gs)" using assms(1) by (metis mset_eq_imp_distinct_iff)
  then have "map_of fs = map_of gs"
    using assms(1) mset_eq_setD [OF assms(2)] by (simp add: map_of_inject_set)
  moreover have "sort (map fst fs) = sort (map fst gs)"
    using keys by (intro properties_for_sort) simp_all
  ultimately show ?thesis by (simp add: hash_fields_def)
qed

section \<open>What handling a change does\<close>

text \<open>The only thing in the store that an event can move: its own cursor.\<close>

definition cursor_moved :: "'j cdc_event \<Rightarrow> abs_store \<Rightarrow> abs_store \<Rightarrow> bool" where
  "cursor_moved ev a a' \<longleftrightarrow> a' = a \<or>
     a' = a\<lparr>a_cursors := (a_cursors a)
       ((ev_org_id ev, ev_app_id ev, ev_document_id ev) \<mapsto> ev_change_hash ev)\<rparr>"

locale cdc_service = tenant_service M \<alpha> invar
  for M :: "('s, 'n) tenant_manager" and \<alpha> :: "'s \<Rightarrow> abs_store" and invar :: "'s \<Rightarrow> bool" +
  fixes G :: "('s, 'n) cdc_engine"
  assumes engine_manager: "eng_tenant_mgr G = M"
begin

lemma publish_due:
  assumes "invar (cs_store s)"
  shows "only_calls (call_due (rows_of (a_sinks (\<alpha> (cs_store s))) (ev_org_id ev)) ev) s (snd (publish N G ev s))"
proof (cases "list_sinks M (ev_org_id ev) (cs_store s)")
  case (Inl e)
  then show ?thesis by (simp add: publish_eq engine_manager)
next
  case (Inr xs)
  then have "set xs = rows_of (a_sinks (\<alpha> (cs_store s))) (ev_org_id ev)"
    using rdD [OF list_sinks assms]
    by (auto simp: list_sinks_def result_iffs lists_rows_def)
  with Inr show ?thesis by (simp add: publish_eq engine_manager publish_all_only)
qed

lemma publish_org:
  assumes "invar (cs_store s)" and "publish N G ev s = (Inr u, s')"
  shows "nul_free (ev_org_id ev)"
  using assms get_org_Inr(3)
  by (auto simp: publish_eq engine_manager list_sinks_def result_iffs split: sum.splits)

lemma save_cursor_moves:
  assumes "invar (cs_store s)" "nul_free (ev_org_id ev)" "nul_free (ev_app_id ev)"
  shows "invar (cs_store (snd (save_cursor M ev s))) \<and>
    cursor_moved ev (\<alpha> (cs_store s)) (\<alpha> (cs_store (snd (save_cursor M ev s)))) \<and> cs_calls (snd (save_cursor M ev s)) = cs_calls s"
proof -
  obtain r t where run: "be_set_cursor (tm_store M) (ev_org_id ev) (ev_app_id ev) (ev_document_id ev)
      (ev_change_hash ev) (cs_store s) = (r, t)" by fastforce
  note law = set_cursor [OF assms(2,3), of "ev_document_id ev" "ev_change_hash ev"]
  show ?thesis
  proof (cases r)
    case (Inl e)
    with wr_err [OF law assms(1)] run show ?thesis
      by (simp add: cursor_moved_def save_cursor_def on_store_def set_cursor_def)
  next
    case (Inr x)
    with wr_ok [OF law assms(1)] run show ?thesis
      by (simp add: cursor_moved_def save_cursor_def on_store_def set_cursor_def)
  qed
qed

lemma emit_effect:
  assumes inv: "invar (cs_store s)" and app: "nul_free (ev_app_id ev)"
  shows "invar (cs_store (emit N G M ev s)) \<and>
    cursor_moved ev (\<alpha> (cs_store s)) (\<alpha> (cs_store (emit N G M ev s))) \<and>
    (\<exists>cs. cs_calls (emit N G M ev s) = cs_calls s @ cs \<and>
      (\<forall>c \<in> set cs. call_due (rows_of (a_sinks (\<alpha> (cs_store s))) (ev_org_id ev)) ev c))"
proof -
  obtain r s1 where run: "publish N G ev s = (r, s1)" by fastforce
  with publish_due [OF inv, of ev N] have due: "only_calls (call_due (rows_of (a_sinks (\<alpha> (cs_store s))) (ev_org_id ev)) ev) s s1"
    by simp
  then have store: "cs_store s1 = cs_store s" by (simp add: only_calls_def)
  show ?thesis
  proof (cases r)
    case (Inl e)
    with run due store inv show ?thesis by (simp add: emit_def cursor_moved_def only_calls_def)
  next
    case (Inr u)
    with publish_org [OF inv] run have "nul_free (ev_org_id ev)" by blast
    with save_cursor_moves [of s1 ev] run due store inv app Inr show ?thesis
      by (auto simp: emit_def cursor_moved_def only_calls_def)
  qed
qed

end

section \<open>Runs of the watcher\<close>

definition watched :: "'j action list \<Rightarrow> watch_key set" where
  "watched as = {(org, app). Watch org app \<in> set as}"

text \<open>
  What every run keeps, relative to the store \<open>a0\<close> it began with: only cursors of watched formations
  differ, and what was sent since was due to the sinks of a watched formation's organization.
\<close>

definition sent_due :: "watch_key set \<Rightarrow> abs_store \<Rightarrow> call list \<Rightarrow> bool" where
  "sent_due W a0 cs \<longleftrightarrow> (\<forall>c \<in> set cs. \<exists>ev :: unit cdc_event. (ev_org_id ev, ev_app_id ev) \<in> W \<and>
     call_due (rows_of (a_sinks a0) (ev_org_id ev)) ev c)"

definition cursors_only :: "watch_key set \<Rightarrow> abs_store \<Rightarrow> abs_store \<Rightarrow> bool" where
  "cursors_only W a0 a \<longleftrightarrow>
     (\<exists>m. a = a0\<lparr>a_cursors := m\<rparr> \<and> (\<forall>k c d. (k, c) \<notin> W \<longrightarrow> m (k, c, d) = a_cursors a0 (k, c, d)))"

definition tasks_ok :: "watch_key set \<Rightarrow> 'j handles \<Rightarrow> bool" where
  "tasks_ok W h \<longleftrightarrow> dom h \<subseteq> W \<and>
     (\<forall>k ev. h k = Some (Saving ev) \<longrightarrow> k = (ev_org_id ev, ev_app_id ev) \<and> nul_free (ev_org_id ev))"

definition forget_patches :: "'j cdc_event \<Rightarrow> unit cdc_event" where
  "forget_patches ev =
     \<lparr>ev_org_id = ev_org_id ev, ev_app_id = ev_app_id ev, ev_document_id = ev_document_id ev,
      ev_change_hash = ev_change_hash ev, ev_actor_id = ev_actor_id ev,
      ev_timestamp_ms = ev_timestamp_ms ev, ev_patches = JNull\<rparr>"

lemma forget_patches [simp]:
  "ev_org_id (forget_patches ev) = ev_org_id ev" "ev_app_id (forget_patches ev) = ev_app_id ev"
  "call_due X (forget_patches ev) c = call_due X ev c"
  by (auto simp: forget_patches_def call_due_def nats_subject_def split: call.splits)

lemma sent_due_snoc:
  assumes "sent_due W a0 cs" and "(ev_org_id ev, ev_app_id ev) \<in> W"
    and "\<forall>c \<in> set ds. call_due (rows_of (a_sinks a0) (ev_org_id ev)) ev c"
  shows "sent_due W a0 (cs @ ds)"
proof -
  have "\<exists>e :: unit cdc_event. (ev_org_id e, ev_app_id e) \<in> W \<and>
      call_due (rows_of (a_sinks a0) (ev_org_id e)) e c" if "c \<in> set ds" for c
    using assms(2,3) that by (intro exI [of _ "forget_patches ev"]) simp
  with assms(1) show ?thesis by (auto simp: sent_due_def)
qed

lemma cursors_only_sinks: "cursors_only W a0 a \<Longrightarrow> a_sinks a = a_sinks a0"
  by (auto simp: cursors_only_def)

lemma cursors_only_moved:
  assumes "cursors_only W a0 a" and "cursor_moved ev a a'" and "(ev_org_id ev, ev_app_id ev) \<in> W"
  shows "cursors_only W a0 a'"
  using assms(2)
proof (cases rule: cursor_moved_def [THEN iffD1, THEN disjE, consumes 1, case_names same moved])
  case moved
  from assms(1) obtain m where "a = a0\<lparr>a_cursors := m\<rparr>"
    "\<forall>k c d. (k, c) \<notin> W \<longrightarrow> m (k, c, d) = a_cursors a0 (k, c, d)"
    by (auto simp: cursors_only_def)
  with moved assms(3) show ?thesis
    by (auto simp: cursors_only_def
        intro!: exI [of _ "m((ev_org_id ev, ev_app_id ev, ev_document_id ev) \<mapsto> ev_change_hash ev)"])
qed (use assms(1) in simp)

lemma tasks_ok_put:
  assumes "tasks_ok W h" and "k \<in> W"
    and "\<And>ev. t = Saving ev \<Longrightarrow> k = (ev_org_id ev, ev_app_id ev) \<and> nul_free (ev_org_id ev)"
  shows "tasks_ok W (h(k \<mapsto> t))"
  unfolding tasks_ok_def
proof (intro conjI allI impI)
  show "dom (h(k \<mapsto> t)) \<subseteq> W" using assms(1,2) by (simp add: tasks_ok_def)
next
  fix j ev assume "(h(k \<mapsto> t)) j = Some (Saving ev)"
  then have "j = k \<and> t = Saving ev \<or> h j = Some (Saving ev)" by (simp split: if_splits)
  with assms show "j = (ev_org_id ev, ev_app_id ev)" and "nul_free (ev_org_id ev)"
    unfolding tasks_ok_def by blast+
qed

lemma tasks_ok_sub:
  assumes "tasks_ok W h" and "h' \<subseteq>\<^sub>m h"
  shows "tasks_ok W h'"
proof -
  have "h k = Some t" if "h' k = Some t" for k t using assms(2) that by (metis domI map_le_def)
  with assms(1) show ?thesis unfolding tasks_ok_def by blast
qed

lemma watched_events [simp]:
  "ev_org_id (updated_event Z org app d) = org" "ev_app_id (updated_event Z org app d) = app"
  "ev_org_id (removed_event Z now org app did) = org" "ev_app_id (removed_event Z now org app did) = app"
  by (simp_all add: updated_event_def removed_event_def Let_def)

text \<open>Receiving a change: nothing happens, or an event of this formation is published.\<close>

lemma receive_cases:
  assumes "receive N Z G M org app now change s = (t, s')"
  obtains "t = Waiting" "s' = s"
    | ev where "ev_org_id ev = org" "ev_app_id ev = app" "(t, s') = publish_half N G ev s"
  using assms
  by (auto simp: receive_def Let_def split: change_event.splits if_splits) (metis watched_events)+

definition run_ok where
  "run_ok \<alpha> invar W a0 c0 h s \<longleftrightarrow> invar (cs_store s) \<and> cursors_only W a0 (\<alpha> (cs_store s)) \<and>
     (\<exists>cs. cs_calls s = c0 @ cs \<and> sent_due W a0 cs) \<and> tasks_ok W h"

context cdc_service
begin

lemma publish_half_ok:
  assumes ok: "run_ok \<alpha> invar W a0 c0 h s" and w: "(ev_org_id ev, ev_app_id ev) \<in> W"
    and run: "publish_half N G ev s = (t, s')"
  shows "run_ok \<alpha> invar W a0 c0 (h((ev_org_id ev, ev_app_id ev) \<mapsto> t)) s'"
proof -
  obtain r where p: "publish N G ev s = (r, s')"
    and t: "t = (case r of Inl e \<Rightarrow> Waiting | Inr u \<Rightarrow> Saving ev)"
    using run by (auto simp: publish_half_def split: prod.splits sum.splits)
  from ok have inv: "invar (cs_store s)" and co: "cursors_only W a0 (\<alpha> (cs_store s))"
    by (simp_all add: run_ok_def)
  from publish_due [OF inv, of ev N] p cursors_only_sinks [OF co] obtain ds
    where ds: "cs_store s' = cs_store s" "cs_calls s' = cs_calls s @ ds"
      "\<forall>c \<in> set ds. call_due (rows_of (a_sinks a0) (ev_org_id ev)) ev c"
    by (auto simp: only_calls_def)
  from ok ds(2) obtain cs where cs: "cs_calls s' = c0 @ cs @ ds" "sent_due W a0 cs"
    by (auto simp: run_ok_def)
  have "tasks_ok W (h((ev_org_id ev, ev_app_id ev) \<mapsto> t))"
    using ok w t publish_org [OF inv, of N ev] p
    by (intro tasks_ok_put) (auto simp: run_ok_def split: sum.splits)
  with ok ds(1) cs sent_due_snoc [OF cs(2) w ds(3)] show ?thesis
    by (auto simp: run_ok_def)
qed

lemma step_ok:
  assumes ok: "run_ok \<alpha> invar W a0 c0 h s" and W: "\<forall>k \<in> W. nul_free (snd k)" "watched [act] \<subseteq> W"
    and step: "watcher_step N Z G M act (h, s) (h', s')"
  shows "run_ok \<alpha> invar W a0 c0 h' s'"
  using step
proof cases
  case (watch observe org app r)
  then have "h' = h \<or> h' = h((org, app) \<mapsto> Waiting)" "(org, app) \<in> W"
    using W(2) by (auto simp: watched_def watch_formation_def Let_def split: if_splits sum.splits)
  with ok watch show ?thesis by (auto simp: run_ok_def intro: tasks_ok_put)
next
  case (receive org app now change t)
  then have k: "(org, app) \<in> W" using ok by (auto simp: run_ok_def tasks_ok_def)
  from receive(4) show ?thesis
  proof (cases rule: receive_cases)
    case 1
    with ok receive k show ?thesis by (auto simp: run_ok_def intro: tasks_ok_put)
  next
    case (2 ev)
    with publish_half_ok [OF ok, of ev N t s'] k receive show ?thesis by auto
  qed
next
  case (save k ev r)
  from ok save have k: "k = (ev_org_id ev, ev_app_id ev) \<and> nul_free (ev_org_id ev)" "k \<in> W"
    unfolding run_ok_def tasks_ok_def by blast+
  with W(1) save_cursor_moves [of s ev] ok save have
    "invar (cs_store s')" "cursor_moved ev (\<alpha> (cs_store s)) (\<alpha> (cs_store s'))" "cs_calls s' = cs_calls s"
    by (auto simp: run_ok_def)
  with ok k cursors_only_moved [of W a0 "\<alpha> (cs_store s)" ev] save show ?thesis
    by (auto simp: run_ok_def intro: tasks_ok_put)
next
  case (stream_end k)
  then have "k \<in> W" using ok by (auto simp: run_ok_def tasks_ok_def)
  with ok stream_end show ?thesis by (auto simp: run_ok_def intro: tasks_ok_put)
qed (use ok in \<open>auto simp: run_ok_def unwatch_formation_def shutdown_def map_le_def intro: tasks_ok_sub\<close>)

lemma run_ok_run:
  assumes "watcher_run N Z G M as x y" and "run_ok \<alpha> invar W a0 c0 (fst x) (snd x)"
    and "\<forall>k \<in> W. nul_free (snd k)" and "watched as \<subseteq> W"
  shows "run_ok \<alpha> invar W a0 c0 (fst y) (snd y)"
  using assms
proof (induction rule: watcher_run.induct)
  case (more a x y as z)
  have "watched [a] \<subseteq> W" "watched as \<subseteq> W" using more.prems(3) by (auto simp: watched_def)
  with step_ok [of W a0 c0 "fst x" "snd x" a N Z "fst y" "snd y"] more show ?case by simp
qed simp

lemma run_from_start:
  assumes "watcher_run N Z G M as (Map.empty, s) (h, s')" and "invar (cs_store s)"
    and "\<forall>k \<in> watched as. nul_free (snd k)"
  shows "run_ok \<alpha> invar (watched as) (\<alpha> (cs_store s)) (cs_calls s) h s'"
proof -
  have "cursors_only (watched as) (\<alpha> (cs_store s)) (\<alpha> (cs_store s))"
    unfolding cursors_only_def by (rule exI [of _ "a_cursors (\<alpha> (cs_store s))"]) simp
  with assms(2) have "run_ok \<alpha> invar (watched as) (\<alpha> (cs_store s)) (cs_calls s) Map.empty s"
    by (simp add: run_ok_def tasks_ok_def sent_due_def)
  with run_ok_run [OF assms(1), of "watched as"] assms(3) show ?thesis by simp
qed

text \<open>A change whose cursor was saved is not sent again.\<close>

lemma seen_after_cursor:
  assumes "invar (cs_store s)" and "nul_free (ev_org_id ev)" "nul_free (ev_app_id ev)"
    and "a_cursors (\<alpha> (cs_store s)) (ev_org_id ev, ev_app_id ev, ev_document_id ev) = Some (ev_change_hash ev)"
    and "is_ok (get_cursor M (ev_org_id ev) (ev_app_id ev) (ev_document_id ev) (cs_store s))"
  shows "seen M ev (cs_store s)"
  using assms rdD [OF get_cursor [OF assms(2,3)] assms(1), of "ev_document_id ev"]
  by (auto simp: seen_def get_cursor_def is_ok_def split: sum.splits option.splits)

end

section \<open>The loop of a task as steps\<close>

lemma receive_task: "receive N Z G M org app now change s = (t, s') \<Longrightarrow> t = Waiting \<or> (\<exists>ev. t = Saving ev)"
  by (auto simp: receive_def publish_half_def Let_def
      split: change_event.splits if_splits prod.splits sum.splits)

lemma handle_change_steps:
  assumes h: "h (org, app) = Some Waiting"
  shows "\<exists>as. watched as = {} \<and>
    watcher_run N Z G M as (h, s) (h, handle_change N Z G M org app now change s)"
proof -
  let ?k = "(org, app)"
  obtain t s1 where r: "receive N Z G M org app now change s = (t, s1)" by fastforce
  have same: "h(?k \<mapsto> t, ?k \<mapsto> Waiting) = h" using h by (simp add: fun_upd_idem)
  note rcv = watcher_step.receive [where h = h, OF h r]
  from receive_task [OF r] show ?thesis
  proof
    assume t: "t = Waiting"
    with same receive_then_save [of M N Z G org app now change s] r rcv
    have "watcher_step N Z G M (Receive ?k now change) (h, s) (h, handle_change N Z G M org app now change s)"
      by (simp add: finish_task_def)
    then show ?thesis
      by (intro exI [of _ "[Receive ?k now change]"]) (auto simp: watched_def intro: watcher_run.intros)
  next
    assume "\<exists>ev. t = Saving ev"
    then obtain ev where t: "t = Saving ev" by blast
    obtain r' s2 where sv: "save_cursor M ev s1 = (r', s2)" by fastforce
    have "watcher_step N Z G M (Save ?k) (h(?k \<mapsto> t), s1) (h(?k \<mapsto> t, ?k \<mapsto> Waiting), s2)"
      by (rule watcher_step.save [OF _ sv]) (simp add: t)
    with same receive_then_save [of M N Z G org app now change s] r sv t
    have "watcher_step N Z G M (Save ?k) (h(?k \<mapsto> t), s1) (h, handle_change N Z G M org app now change s)"
      by (simp add: finish_task_def)
    with rcv show ?thesis
      by (intro exI [of _ "[Receive ?k now change, Save ?k]"])
         (auto simp: watched_def intro: watcher_run.intros)
  qed
qed

lemma watcher_run_append:
  "watcher_run N Z G M as x y \<Longrightarrow> watcher_run N Z G M bs y z \<Longrightarrow> watcher_run N Z G M (as @ bs) x z"
  by (induction rule: watcher_run.induct) (auto intro: watcher_run.intros)

lemma watch_loop_steps:
  assumes h: "h (org, app) = Some Waiting"
  shows "\<exists>as. watched as = {} \<and> watcher_run N Z G M as (h, s) (h, watch_loop N Z G M org app evs s)"
proof (induction evs arbitrary: s)
  case Nil
  show ?case by (intro exI [of _ "[]"]) (auto simp: watched_def intro: watcher_run.intros)
next
  case (Cons e evs)
  obtain now change where e: "e = (now, change)" by fastforce
  obtain as where as: "watched as = {}"
      "watcher_run N Z G M as (h, s) (h, handle_change N Z G M org app now change s)"
    using handle_change_steps [of h org app, OF h] by blast
  obtain bs where "watched bs = {}" "watcher_run N Z G M bs (h, handle_change N Z G M org app now change s)
      (h, watch_loop N Z G M org app (e # evs) s)"
    using Cons e by auto
  with as show ?case
    by (intro exI [of _ "as @ bs"]) (auto simp: watched_def intro: watcher_run_append)
qed

section \<open>After the end of a watch\<close>

fun acts_on :: "'j action \<Rightarrow> watch_key \<Rightarrow> bool" where
  "acts_on (Receive k now change) j = (k = j)"
| "acts_on (Save k) j = (k = j)"
| "acts_on (End k) j = (k = j)"
| "acts_on _ j = False"

lemma silent_step:
  assumes "watcher_step N Z G M a (h, s) (h', s')" and "h (org, app) = None" and "a \<noteq> Watch org app"
  shows "\<not> acts_on a (org, app) \<and> h' (org, app) = None"
  using assms
  by cases (auto simp: watch_formation_def unwatch_formation_def shutdown_def Let_def
      split: if_splits sum.splits)

lemma silent_run:
  assumes "watcher_run N Z G M as x y" and "fst x (org, app) = None" and "Watch org app \<notin> set as"
  shows "(\<forall>a \<in> set as. \<not> acts_on a (org, app)) \<and> fst y (org, app) = None"
  using assms
proof (induction rule: watcher_run.induct)
  case (more a x y as z)
  from more.prems have "a \<noteq> Watch org app" by auto
  with silent_step [of N Z G M a "fst x" "snd x" "fst y" "snd y"] more show ?case by simp
qed simp

end
