(* ===== verification/Cdc_Properties.thy ===== *)
theory Cdc_Properties
  imports Tenant_Properties Watcher
begin

text \<open>
  Change data capture on the redb backend: what is sent, how often, to whom, and what becomes of the
  cursors, for one event and for every interleaving of the watcher's tasks.
\<close>

abbreviation redb_engine ::
  "'w serde \<Rightarrow> ('db, 'x, 'w) redb \<Rightarrow> 'n key_provider \<Rightarrow> bool \<Rightarrow> bool \<Rightarrow> bool \<Rightarrow> string option
     \<Rightarrow> ('db, 'n) cdc_engine" where
  "redb_engine S E P en fn fw ns \<equiv>
     \<lparr>eng_tenant_mgr = redb_manager S E P en, eng_feature_nats = fn, eng_feature_webhook = fw,
      eng_nats_sink = ns\<rparr>"

interpretation cdc: cdc_service "redb_manager S E P en" "\<lambda>db. redb_abs S (V db)" "redb_inv S E V X"
    "redb_engine S E P en fn fw ns"
  for S E P en V X fn fw ns
  by unfold_locales simp

section \<open>Examples\<close>

text \<open>A server that answers 500 twice and then 200; the outside counts the posts.\<close>

definition flaky_net :: "(nat, unit) net" where
  "flaky_net =
     \<lparr>net_http_client = Inr (), net_post = (\<lambda>rq n. (Inr (if n < 2 then 500 else 200), n + 1)),
      net_nats_connect = (\<lambda>_. Inr ()), net_nats_publish = (\<lambda>_ _ n. (Inr (), n)),
      net_nats_flush = (\<lambda>_ n. (Inr (), n)), net_to_vec = (\<lambda>_. Inr [1])\<rparr>"

definition ref_event :: "unit cdc_event" where
  "ref_event =
     \<lparr>ev_org_id = ''acme'', ev_app_id = ''ops'', ev_document_id = ''d'', ev_change_hash = ''ab'',
      ev_actor_id = ''x'', ev_timestamp_ms = 1, ev_patches = JNull\<rparr>"

definition ref_state :: "(mem_db, nat) cdc_state" where
  "ref_state = \<lparr>cs_store = ref_db, cs_net = 0, cs_calls = []\<rparr>"

section \<open>The webhook sink\<close>

text \<open>
  C27: the retry loop does exactly what its contract on the first four answers says: the first answer
  that is a success or a client error decides, four answers of any other kind are a failure, and the
  calls made are one identical post per answer looked at, with pauses of 100, 200 and 400 ms between
  them. Never more than four posts are sent, and the store is not touched.
\<close>

theorem webhook_delivery:
  assumes "net_to_vec N event = Inr payload"
    and "vs = map judge (answers N (webhook_request url event payload) 4 (cs_net s))"
    and "webhook_publish N url event s = (r, s')"
  shows "r = webhook_result vs \<and>
    cs_calls s' = cs_calls s @ webhook_calls (webhook_request url event payload) [100, 200, 400] vs \<and>
    length (filter is_post (webhook_calls (webhook_request url event payload) [100, 200, 400] vs)) \<le> 4"
  using webhook_publish_spec [OF assms(1) refl assms(2)] assms(2,3)
    webhook_calls_posts [of "webhook_request url event payload" "[100, 200, 400]" vs]
  by simp

theorem webhook_delivery_witness:
  "fst (webhook_publish flaky_net ''https://x'' ref_event ref_state) = Inr () \<and>
   length (cs_calls (snd (webhook_publish flaky_net ''https://x'' ref_event ref_state))) = 5"
proof -
  obtain r s' where run: "webhook_publish flaky_net ''https://x'' ref_event ref_state = (r, s')"
    by fastforce
  have vec: "net_to_vec flaky_net ref_event = Inr [1]" by (simp add: flaky_net_def)
  have vs: "map judge (answers flaky_net (webhook_request ''https://x'' ref_event [1]) 4 (cs_net ref_state)) =
      [Retry, Retry, Delivered, Delivered]"
    by (simp add: numeral_eq_Suc flaky_net_def ref_state_def is_success_def is_client_error_def)
  from webhook_delivery [OF vec vs [symmetric] run] run show ?thesis
    by (simp add: ref_state_def)
qed

section \<open>Routing\<close>

text \<open>
  C16: routing is a security boundary. In every run of the watcher from an empty table of tasks, with
  watches, aborts, shutdowns, received changes and cursor writes interleaved in any way, every request
  and message sent is due to an event of a watched formation and goes to an enabled sink stored for that
  formation's own organization, under its identity; and the store differs from the start in nothing but
  cursors of watched formations.
\<close>

theorem watcher_routing:
  assumes "redb_inv S E V X (cs_store s)"
    and "watcher_run N Z (redb_engine S E P en fn fw ns) (redb_manager S E P en) as (Map.empty, s) (h, s')"
    and "\<forall>k \<in> watched as. nul_free (snd k)"
  shows "redb_inv S E V X (cs_store s') \<and>
    cursors_only (watched as) (redb_abs S (V (cs_store s))) (redb_abs S (V (cs_store s'))) \<and>
    (\<exists>cs. cs_calls s' = cs_calls s @ cs \<and> sent_due (watched as) (redb_abs S (V (cs_store s))) cs)"
  using cdc.run_from_start [OF assms(2), of V X] assms(1,3) by (simp add: run_ok_def)

definition ref_hashing :: "unit hashing" where
  "ref_hashing = \<lparr>hs_finish = (\<lambda>xs. of_nat (length xs)), hs_json_text = (\<lambda>_. Inr ''v'')\<rparr>"

abbreviation ref_engine :: "(mem_db, unit) cdc_engine" where
  "ref_engine \<equiv> redb_engine mem_serde mem_engine plaintext_provider False False True None"

theorem watcher_routing_witness:
  "\<exists>h s'. watcher_run flaky_net ref_hashing ref_engine ref_manager
     [Watch ''acme'' ''ops'', Receive (''acme'', ''ops'') 1 (Removed ''acme.ops'' ''d'')]
     (Map.empty, ref_state) (h, s') \<and> mem_inv (cs_store s')"
proof -
  let ?h = "[(''acme'', ''ops'') \<mapsto> Waiting] :: unit handles"
  let ?ch = "Removed ''acme.ops'' ''d'' :: unit change_event"
  let ?acts = "[Watch ''acme'' ''ops'', Receive (''acme'', ''ops'') 1 ?ch]"
  obtain t s' where rcv: "receive flaky_net ref_hashing ref_engine ref_manager ''acme'' ''ops'' 1 ?ch ref_state =
      (t, s')" by fastforce
  have "watch_formation (\<lambda>_. Inr ()) ''acme'' ''ops'' Map.empty = (Inr (), ?h)"
    by (simp add: watch_formation_def)
  from watcher_step.watch [OF this]
  have 1: "watcher_step flaky_net ref_hashing ref_engine ref_manager (Watch ''acme'' ''ops'')
      (Map.empty, ref_state) (?h, ref_state)" .
  have 2: "watcher_step flaky_net ref_hashing ref_engine ref_manager (Receive (''acme'', ''ops'') 1 ?ch)
      (?h, ref_state) (?h((''acme'', ''ops'') \<mapsto> t), s')"
    by (rule watcher_step.receive [OF _ rcv]) simp
  have run: "watcher_run flaky_net ref_hashing ref_engine ref_manager ?acts
      (Map.empty, ref_state) (?h((''acme'', ''ops'') \<mapsto> t), s')"
    by (rule watcher_run.more, rule 1, rule watcher_run.more, rule 2, rule watcher_run.stop)
  have inv: "mem_inv (cs_store ref_state)" by (simp add: ref_state_def ref_db_inv)
  have "\<forall>k \<in> watched ?acts. nul_free (snd k)" by (auto simp: watched_def)
  from watcher_routing [OF inv run this] run show ?thesis by blast
qed

section \<open>Cursors\<close>

text \<open>
  A change whose cursor was saved is suppressed when it arrives again: handling it sends nothing and
  changes nothing, also when the document's fields come in another order.
\<close>

theorem duplicate_suppressed:
  assumes "redb_inv S E V X (cs_store s)" and "nul_free org" and "nul_free app"
    and "distinct (map fst (dc_fields d))" and "mset (dc_fields d) = mset (dc_fields d')"
    and "dc_id d' = dc_id d" and "dc_updated_at d' = dc_updated_at d"
    and "a_cursors (redb_abs S (V (cs_store s))) (org, app, ev_document_id (updated_event Z org app d)) =
      Some (ev_change_hash (updated_event Z org app d))"
    and "is_ok (Tenant.get_cursor (redb_manager S E P en) org app (ev_document_id (updated_event Z org app d))
      (cs_store s))"
  shows "handle_change N Z (redb_engine S E P en fn fw ns) (redb_manager S E P en) org app now (Updated c d') s = s"
proof -
  let ?ev = "updated_event Z org app d" and ?ev' = "updated_event Z org app d'"
  have same: "ev_document_id ?ev' = ev_document_id ?ev" "ev_change_hash ?ev' = ev_change_hash ?ev"
    using assms(6,7) hash_fields_perm [OF assms(4,5)] by (simp_all add: updated_event_def Let_def)
  then have "seen (redb_manager S E P en) ?ev' (cs_store s)"
    using cdc.seen_after_cursor [OF assms(1), of ?ev'] assms(2,3,8,9) by simp
  then show ?thesis by (simp add: handle_change_def)
qed

text \<open>A document of the example formation, and a database that holds its cursor.\<close>

definition ref_doc :: "unit document" where
  "ref_doc = \<lparr>dc_id = Some ''d'', dc_fields = [(''a'', JNull)], dc_updated_at = 5000000\<rparr>"

lemma ref_doc_event:
  "ev_document_id (updated_event ref_hashing ''acme'' ''ops'' ref_doc) = ''d''"
  by (simp add: updated_event_def ref_doc_def Let_def)

lemma ref_cursor_db:
  obtains db where "mem_inv db"
    "a_cursors (redb_abs mem_serde (mem_tables db)) (''acme'', ''ops'', ''d'') = Some h"
    "is_ok (Tenant.get_cursor ref_manager ''acme'' ''ops'' ''d'' db)"
proof -
  have "\<exists>db. Redb.set_cursor mem_serde mem_engine ''acme'' ''ops'' ''d'' h ref_db = (Inr (), db) \<and>
      is_ok (Tenant.get_cursor ref_manager ''acme'' ''ops'' ''d'' db)"
    by (simp add: Redb.set_cursor_def Tenant.get_cursor_def Redb.get_cursor_def cursor_key_def mem_run)
  then obtain db where run: "be_set_cursor (redb_backend mem_serde mem_engine) ''acme'' ''ops'' ''d'' h ref_db = (Inr (), db)"
    and ok: "is_ok (Tenant.get_cursor ref_manager ''acme'' ''ops'' ''d'' db)"
    by (auto simp: redb_backend_def)
  have "nul_free ''acme''" "nul_free ''ops''" by simp_all
  from wr_ok [OF redb.set_cursor [OF this] ref_db_inv run] ok show ?thesis
    by (intro that [of db]) simp_all
qed

theorem duplicate_suppressed_witness:
  "\<exists>s :: (mem_db, nat) cdc_state. mem_inv (cs_store s) \<and>
     handle_change flaky_net ref_hashing ref_engine ref_manager ''acme'' ''ops'' 7 (Updated ''c'' ref_doc) s = s"
proof -
  let ?ev = "updated_event ref_hashing ''acme'' ''ops'' ref_doc"
  obtain db where db: "mem_inv db"
    "a_cursors (redb_abs mem_serde (mem_tables db)) (''acme'', ''ops'', ''d'') = Some (ev_change_hash ?ev)"
    "is_ok (Tenant.get_cursor ref_manager ''acme'' ''ops'' ''d'' db)"
    by (rule ref_cursor_db)
  let ?s = "\<lparr>cs_store = db, cs_net = 0, cs_calls = []\<rparr> :: (mem_db, nat) cdc_state"
  have "handle_change flaky_net ref_hashing ref_engine ref_manager ''acme'' ''ops'' 7 (Updated ''c'' ref_doc) ?s = ?s"
    by (rule duplicate_suppressed [where V = mem_tables and d = ref_doc])
       (use db in \<open>simp_all add: ref_doc_event, simp_all add: ref_doc_def\<close>)
  with db(1) show ?thesis by (intro exI [of _ ?s]) simp
qed


section \<open>Tasks\<close>



text \<open>
  Once a formation is unwatched, its task does nothing any more, whatever the other tasks do and
  however the watcher goes on, until the formation is watched again.
\<close>

theorem unwatched_is_silent:
  assumes "watcher_run N Z G M (Unwatch org app # as) x y" and "Watch org app \<notin> set as"
  shows "(\<nexists>a. a \<in> set as \<and> acts_on a (org, app)) \<and> fst y (org, app) = None"
proof -
  from assms(1) obtain z where "watcher_step N Z G M (Unwatch org app) x z" "watcher_run N Z G M as z y"
    by (cases rule: watcher_run.cases) auto
  moreover from this(1) have "fst z (org, app) = None"
    by cases (simp add: unwatch_formation_def)
  ultimately show ?thesis using silent_run [OF _ _ assms(2)] by blast
qed

theorem unwatched_is_silent_witness:
  "\<exists>y. watcher_run flaky_net ref_hashing ref_engine ref_manager
     [Unwatch ''acme'' ''ops'', Shutdown] ([(''acme'', ''ops'') \<mapsto> Waiting], ref_state) y \<and>
     fst y (''acme'', ''ops'') = None"
proof -
  have run: "watcher_run flaky_net ref_hashing ref_engine ref_manager
      [Unwatch ''acme'' ''ops'', Shutdown] ([(''acme'', ''ops'') \<mapsto> Waiting], ref_state) (shutdown (unwatch_formation ''acme'' ''ops'' [(''acme'', ''ops'') \<mapsto> Waiting]), ref_state)"
    by (rule watcher_run.more, rule watcher_step.unwatch, rule watcher_run.more, rule watcher_step.shutdown,
        rule watcher_run.stop)
  have "Watch ''acme'' ''ops'' \<notin> set ([Shutdown] :: unit action list)" by simp
  from unwatched_is_silent [OF run this] run show ?thesis by blast
qed

end
