(* ===== verification/Delivery.thy ===== *)
theory Delivery
  imports Cdc_Properties
begin

text \<open>
  Every sink gets its chance: an event that is published is sent to every enabled sink of its
  organization, whatever the other sinks answer.
\<close>

text \<open>The call a sink is owed for an event, if the features of the build serve its kind.\<close>

definition owed ::
  "('w, 'j) net \<Rightarrow> ('s, 'n) cdc_engine \<Rightarrow> 'j cdc_event \<Rightarrow> cdc_sink_config \<Rightarrow> call option" where
  "owed N G ev sink =
     (case net_to_vec N ev of
        Inl _ \<Rightarrow> None
      | Inr payload \<Rightarrow>
          if \<not> sink_enabled sink then None
          else
            (case sink_sink_type sink of
               Webhook url \<Rightarrow> if eng_feature_webhook G then Some (Posted (webhook_request url ev payload)) else None
             | Nats p \<Rightarrow>
                 if eng_feature_nats G then
                   map_option (\<lambda>client. NatsPublished client
                     \<lparr>nm_subject = nats_subject p ev, nm_msg_id = ev_change_hash ev, nm_payload = payload\<rparr>) (eng_nats_sink G)
                 else None
             | Kafka topic \<Rightarrow> None))"

lemma webhook_calls_first: "vs \<noteq> [] \<Longrightarrow> Posted rq \<in> set (webhook_calls rq ps vs)"
  by (induction rq ps vs rule: webhook_calls.induct) auto

lemma webhook_publish_posts:
  assumes "net_to_vec N ev = Inr payload"
  shows "\<exists>cs. cs_calls (snd (webhook_publish N url ev s)) = cs_calls s @ cs \<and>
    Posted (webhook_request url ev payload) \<in> set cs"
proof -
  obtain r s' where run: "webhook_publish N url ev s = (r, s')" by fastforce
  let ?vs = "map judge (answers N (webhook_request url ev payload) 4 (cs_net s))"
  have "length ?vs = 4" by (simp add: length_answers)
  then have "?vs \<noteq> []" by (metis list.size(3) numeral_eq_iff zero_neq_numeral)
  with webhook_publish_spec [OF assms refl refl, of url s] run show ?thesis
    by (auto intro!: webhook_calls_first)
qed

lemma nats_publish_calls:
  assumes "net_to_vec N ev = Inr payload"
  shows "\<exists>cs. cs_calls (snd (nats_publish N client p ev s)) = cs_calls s @ cs \<and>
    NatsPublished client \<lparr>nm_subject = nats_subject p ev, nm_msg_id = ev_change_hash ev, nm_payload = payload\<rparr> \<in> set cs"
  using assms
  by (auto simp: nats_publish_def op_defs calling_def on_net_def Let_def split: sum.splits prod.splits)

lemma publish_to_owed:
  assumes "owed N G ev x = Some c"
  shows "\<exists>cs. cs_calls (snd (publish_to N G ev x s)) = cs_calls s @ cs \<and> c \<in> set cs"
  using assms webhook_publish_posts [of N ev] nats_publish_calls [of N ev]
  by (fastforce simp: owed_def publish_to_def ignoreE_def split: sum.splits if_splits cdc_sink_type.splits option.splits)

lemma publish_all_owed:
  assumes "x \<in> set xs" and "owed N G ev x = Some c"
  shows "\<exists>cs. cs_calls (snd (publish_all N G ev xs s)) = cs_calls s @ cs \<and> c \<in> set cs"
  using assms(1)
proof (induction xs arbitrary: s)
  case (Cons y xs)
  let ?t = "snd (publish_to N G ev y s)"
  obtain ds where ds: "cs_calls ?t = cs_calls s @ ds"
    using publish_to_only [of y "{y}" ev s N G] by (auto simp: only_calls_def)
  obtain es where es: "cs_calls (snd (publish_all N G ev xs ?t)) = cs_calls ?t @ es"
    using publish_all_only [OF subset_refl, of xs ev ?t N G] by (auto simp: only_calls_def)
  show ?case
  proof (cases "x = y")
    case True
    with publish_to_owed [OF assms(2), of s] ds have "c \<in> set ds" by auto
    with ds es show ?thesis by (auto simp: publish_all_Cons simp del: publish_all.simps)
  next
    case False
    with Cons have "\<exists>cs. cs_calls (snd (publish_all N G ev xs ?t)) = cs_calls ?t @ cs \<and> c \<in> set cs" by auto
    with ds show ?thesis by (auto simp: publish_all_Cons simp del: publish_all.simps)
  qed
qed simp

context cdc_service
begin

lemma publish_owed:
  assumes inv: "invar (cs_store s)" and run: "publish N G ev s = (Inr u, s')"
    and x: "x \<in> rows_of (a_sinks (\<alpha> (cs_store s))) (ev_org_id ev)" and c: "owed N G ev x = Some c"
  shows "\<exists>cs. cs_calls s' = cs_calls s @ cs \<and> c \<in> set cs"
proof -
  from run obtain xs where xs: "Tenant.list_sinks M (ev_org_id ev) (cs_store s) = Inr xs"
    "s' = snd (publish_all N G ev xs s)"
    by (auto simp: publish_eq engine_manager split: sum.splits)
  then have "set xs = rows_of (a_sinks (\<alpha> (cs_store s))) (ev_org_id ev)"
    using rdD [OF list_sinks inv] by (auto simp: Tenant.list_sinks_def result_iffs lists_rows_def)
  with x have "x \<in> set xs" by simp
  from publish_all_owed [OF this c] xs(2) show ?thesis by simp
qed

end

text \<open>
  C13: no sink is starved. When publishing an event returns without an error, every enabled webhook and NATS
  sink stored for the event's organization has been sent the event at least once (NATS when a connection
  is configured), however many other sinks there are and however they answer; and publishing fails only
  when the organization or its sinks cannot be read.
\<close>

theorem publish_reaches_every_sink:
  assumes "redb_inv S E V X (cs_store s)"
    and "publish N (redb_engine S E P en fn fw ns) ev s = (r, s')"
    and "x \<in> rows_of (a_sinks (redb_abs S (V (cs_store s)))) (ev_org_id ev)"
    and "owed N (redb_engine S E P en fn fw ns) ev x = Some c"
  shows "case r of
      Inr _ \<Rightarrow> \<exists>cs. cs_calls s' = cs_calls s @ cs \<and> c \<in> set cs
    | Inl e \<Rightarrow> Tenant.list_sinks (redb_manager S E P en) (ev_org_id ev) (cs_store s) = Inl e"
proof (cases r)
  case (Inl e)
  with assms(2) show ?thesis by (auto simp: publish_eq split: sum.splits)
next
  case (Inr u)
  with cdc.publish_owed [OF assms(1) _ assms(3,4)] assms(2) show ?thesis by simp
qed

text \<open>The example: a database with one webhook sink, and a server that fails twice.\<close>

definition ref_sink :: cdc_sink_config where
  "ref_sink = \<lparr>sink_sink_id = ''ops'', sink_org_id = ''acme'', sink_sink_type = Webhook ''https://h'', sink_enabled = True,
     sink_created_at = 1\<rparr>"

lemma ref_sink_db:
  obtains db where "mem_inv db" "a_sinks (redb_abs mem_serde (mem_tables db)) (''acme'', ''ops'') = Some ref_sink"
    "is_ok (Tenant.list_sinks ref_manager ''acme'' db)"
proof -
  have "\<exists>db. Redb.create_sink mem_serde mem_engine ref_sink ref_db = (Inr (), db) \<and>
      is_ok (Tenant.list_sinks ref_manager ''acme'' db)"
    by (simp add: Redb.create_sink_def Tenant.list_sinks_def Tenant.get_org_def Redb.get_org_def Redb.list_sinks_def
        mem_run ref_sink_def ref_org_def)
  then obtain db where run: "be_create_sink (redb_backend mem_serde mem_engine) ref_sink ref_db = (Inr (), db)"
    and ok: "is_ok (Tenant.list_sinks ref_manager ''acme'' db)"
    by (auto simp: redb_backend_def)
  have "nul_free (sink_org_id ref_sink)" "nul_free (sink_sink_id ref_sink)" by (simp_all add: ref_sink_def)
  from wr_ok [OF redb.create_sink [OF this] ref_db_inv run] ok show ?thesis
    by (intro that [of db]) (simp_all add: ref_sink_def)
qed

theorem publish_reaches_every_sink_witness:
  "\<exists>s s'. publish flaky_net ref_engine ref_event s = (Inr (), s') \<and> cs_calls s = [] \<and>
     Posted (webhook_request ''https://h'' ref_event [1]) \<in> set (cs_calls s')"
proof -
  obtain db where db: "mem_inv db" "a_sinks (redb_abs mem_serde (mem_tables db)) (''acme'', ''ops'') = Some ref_sink"
    "is_ok (Tenant.list_sinks ref_manager ''acme'' db)"
    by (rule ref_sink_db)
  let ?s = "\<lparr>cs_store = db, cs_net = 0, cs_calls = []\<rparr> :: (mem_db, nat) cdc_state"
  obtain r s' where run: "publish flaky_net ref_engine ref_event ?s = (r, s')" by fastforce
  have "r = Inr ()"
    using run db(3) by (cases "Tenant.list_sinks ref_manager ''acme'' db") (auto simp: publish_eq ref_event_def)
  moreover have "ref_sink \<in> rows_of (a_sinks (redb_abs mem_serde (mem_tables (cs_store ?s)))) (ev_org_id ref_event)"
    using db(2) by (auto simp: rows_of_def ref_event_def)
  moreover have "owed flaky_net ref_engine ref_event ref_sink = Some (Posted (webhook_request ''https://h'' ref_event [1]))"
    by (simp add: owed_def flaky_net_def ref_sink_def)
  moreover have "mem_inv (cs_store ?s)" using db(1) by simp
  ultimately show ?thesis
    using publish_reaches_every_sink [OF _ run] run by (intro exI [of _ ?s] exI [of _ s']) auto
qed

end
