(* ===== verification/Enroll_Properties.thy ===== *)
theory Enroll_Properties
  imports Tenant_Properties Enroll
begin

text \<open>
  Enrollment on the redb backend: who gets in, at which tier, how often, and what an attempt leaves in
  the store.
\<close>

interpretation te: enrollment_service "redb_manager S E P en" "\<lambda>db. redb_abs S (V db)" "redb_inv S E V X"
  for S E P en V X
  by unfold_locales

section \<open>A setting to run examples in\<close>

definition ref_enroll_crates :: "(bytes, unit) enroll_crates" where
  "ref_enroll_crates =
     \<lparr>ec_hex_decode = (\<lambda>s. if s = ''key'' then Inr (replicate 32 7) else Inl (Io ''hex'')),
      ec_issue_certificate = (\<lambda>g pk node tier perms validity. g @ pk @ [perms]),
      ec_authority_public_key = (\<lambda>g. g),
      ec_wire_bits = \<lparr>mp_RELAY = 0x01, mp_EMERGENCY = 0x02, mp_ENROLL = 0x04, mp_ADMIN = 0x80\<rparr>,
      ec_number_text = (\<lambda>_. ''0''),
      ec_discover = (\<lambda>_. Inr (JObject [(''introspection_endpoint'', JString ''https://idp/i'')])),
      ec_introspect = (\<lambda>_ _ _ bearer. Inr
        \<lparr>hr_status = 200, hr_text = [],
         hr_json = Inr [(''active'', JBool (bearer = ''live'')), (''role'', JString ''relay'')]\<rparr>),
      ec_userinfo = (\<lambda>_ _. Inl (Io ''none''))\<rparr>"

definition ref_enroll_env :: "unit enroll_env" where
  "ref_enroll_env =
     \<lparr>ee_now_limit = 5000000, ee_now_token = 5000000, ee_now_audit = 5000000, ee_audit_buf = [1],
      ee_call = \<lparr>ce_nonce = [], ce_net = ()\<rparr>\<rparr>"

definition ref_body :: "enroll_request option" where
  "ref_body = Some \<lparr>er_token = None, er_public_key = Some ''key'', er_node_id = Some ''n1''\<rparr>"

lemmas enroll_run =
  enroll_def decide_def settle_def Tenant.get_org_def Redb.get_org_def Tenant.get_formation_def
  Redb.get_formation_def count_recent_enrollments_def Redb.list_audit_def Tenant.append_audit_def Redb.append_audit_def build_audit_def audit_key_def
  validate_public_key_def try_issue_certificate_def load_genesis_def Redb.get_genesis_def
  mem_run ref_enroll_crates_def ref_enroll_env_def ref_body_def ref_org_def ref_formation_def
  ref_mesh_def default_quotas_def

text \<open>An anonymous device joins the open formation of the example database.\<close>

lemma ref_enroll:
  obtains resp db' where
    "enroll ref_mesh ref_enroll_crates ref_manager ref_enroll_env ''acme'' ''ops'' None ref_body ref_db =
       (Inr resp, db')"
    "resp_decision resp = Approved Endpoint 0" "resp_certificate resp = Some ''ab''"
proof -
  have "\<exists>resp db'. enroll ref_mesh ref_enroll_crates ref_manager ref_enroll_env ''acme'' ''ops'' None
      ref_body ref_db = (Inr resp, db') \<and> resp_decision resp = Approved Endpoint 0 \<and>
      resp_certificate resp = Some ''ab''"
    by (simp add: enroll_run)
  with that show ?thesis by blast
qed

section \<open>Who gets in\<close>

text \<open>
  C7: an enrollment succeeds only for an existing organization and formation and only as the
  formation's policy allows: never under \<open>Strict\<close>; under \<open>Controlled\<close> only when the presented bearer is
  a stored token of this formation that is neither revoked nor expired nor used up, or a credential
  that an enabled identity provider of the organization vouches for, with the decision the
  organization's rules give on its claims; under \<open>Open\<close> as an endpoint without permissions. The
  decision is always an approval and is the one that is returned.
\<close>

theorem enroll_authorized:
  assumes "redb_inv S E V X db"
    and "enroll K H (redb_manager S E P en) v k c auth body db = (Inr resp, db')"
  shows "\<exists>f tier perms. a_orgs (redb_abs S (V db)) k \<noteq> None \<and>
    a_formations (redb_abs S (V db)) (k, c) = Some f \<and>
    form_enrollment_policy f \<noteq> Strict \<and> resp_decision resp = Approved tier perms \<and>
    enrollment_allowed H (ee_now_token v) (redb_abs S (V db)) k c auth body (form_enrollment_policy f)
      (resp_decision resp)"
proof (rule te.enroll_Inr [OF assms])
  fix org f recent i sub s1
  assume org: "a_orgs (redb_abs S (V db)) k = Some org"
    and f: "a_formations (redb_abs S (V db)) (k, c) = Some f" "form_enrollment_policy f \<noteq> Strict"
    and d: "decide H (redb_manager S E P en) (ee_now_token v) k c auth body (form_enrollment_policy f) db =
      (Inr (resp_decision resp, i, sub), s1)"
  from te.decide_Inr [OF assms(1) d] org f show ?thesis by auto
qed

theorem enroll_authorized_witness:
  "\<exists>resp db'. enroll ref_mesh ref_enroll_crates ref_manager ref_enroll_env ''acme'' ''ops'' None ref_body
       ref_db = (Inr resp, db') \<and> resp_decision resp = Approved Endpoint 0"
proof -
  obtain resp db' where run: "enroll ref_mesh ref_enroll_crates ref_manager ref_enroll_env ''acme'' ''ops''
      None ref_body ref_db = (Inr resp, db')"
    by (rule ref_enroll)
  have "a_formations (redb_abs mem_serde (mem_tables ref_db)) (''acme'', ''ops'') = Some ref_formation"
    by (simp add: redb_abs_def tab_def pair_ok_def pair_key_def mem_tables_def ref_db_def mem_serde_def)
  with enroll_authorized [OF ref_db_inv run] have "resp_decision resp = Approved Endpoint 0"
    by (auto simp: ref_formation_def enrollment_allowed_def)
  with run show ?thesis by blast
qed

text \<open>
  C35: the policy engine returns the tier and the permissions of a matching rule of the lowest priority
  number, and an endpoint without permissions exactly when no rule matches. It never denies.
\<close>

theorem evaluate_policy_lowest:
  "(\<exists>r \<in> set rules. rule_applies num cs r \<and>
      evaluate_policy num rules cs = Approved (rule_tier r) (rule_permissions r) \<and>
      (\<nexists>q. q \<in> set rules \<and> rule_applies num cs q \<and> rule_priority q < rule_priority r)) \<or>
   ((\<nexists>q. q \<in> set rules \<and> rule_applies num cs q) \<and>
      evaluate_policy num rules cs = Approved Endpoint 0)"
  by (cases rule: evaluate_policy_cases [of rules num cs]) (auto simp: not_less)

text \<open>
  When the identity provider advertises an introspection endpoint, a bearer is accepted only if
  that endpoint answered with a success status and with \<open>active\<close> being \<open>true\<close>; the userinfo endpoint
  cannot be reached around it.
\<close>

theorem introspection_requires_active:
  assumes "ec_discover H (trim_end_matches issuer CHR ''/'' @ ''/.well-known/openid-configuration'') = Inr doc"
    and "json_get doc ''introspection_endpoint'' = Some (JString url)"
    and "introspect_oidc_token H issuer cid secret bearer = Inr cs"
  shows "\<exists>resp. ec_introspect H url cid secret bearer = Inr resp \<and> is_success (hr_status resp) \<and>
    hr_json resp = Inr cs \<and> map_of cs ''active'' = Some (JBool True)"
  using assms
  by (auto simp: introspect_oidc_token_def result_iffs check_active_Inr)

theorem introspection_requires_active_witness:
  "introspect_oidc_token ref_enroll_crates ''https://idp/'' ''id'' ''secret'' ''live'' =
     Inr [(''active'', JBool True), (''role'', JString ''relay'')] \<and>
   (\<exists>resp. ec_introspect ref_enroll_crates ''https://idp/i'' ''id'' ''secret'' ''live'' = Inr resp \<and>
     is_success (hr_status resp))"
proof -
  have run: "introspect_oidc_token ref_enroll_crates ''https://idp/'' ''id'' ''secret'' ''live'' =
      Inr [(''active'', JBool True), (''role'', JString ''relay'')]"
    by (simp add: introspect_oidc_token_def ref_enroll_crates_def check_active_def ensure_def is_success_def)
  have "json_get (JObject [(''introspection_endpoint'', JString ''https://idp/i'')] :: unit json)
      ''introspection_endpoint'' = Some (JString ''https://idp/i'')"
    by simp
  from introspection_requires_active [OF _ this run] run show ?thesis
    by (auto simp: ref_enroll_crates_def)
qed

section \<open>What an attempt leaves in the store\<close>

text \<open>
  C30: an enrollment that is rejected, for whatever reason, leaves the stored data of every organization
  as it was: a token is not used up by it, and no audit entry is written for it. One that is approved
  touches no other organization and adds at most one entry to the audit log, that of its decision.
\<close>

theorem enroll_effect_on_store:
  assumes "redb_inv S E V X db"
    and "enroll K H (redb_manager S E P en) v k c auth body db = (r, db')"
  shows "redb_inv S E V X db' \<and>
    (case r of
       Inl e \<Rightarrow> redb_abs S (V db') = redb_abs S (V db)
     | Inr resp \<Rightarrow> others_same k (redb_abs S (V db)) (redb_abs S (V db')) \<and>
         (a_audit (redb_abs S (V db')) = a_audit (redb_abs S (V db)) \<or>
          (\<exists>i sub. a_audit (redb_abs S (V db')) = (a_audit (redb_abs S (V db)))
             ((k, ee_now_audit v, resp_audit_id resp) \<mapsto>
                build_audit (ee_now_audit v) (resp_audit_id resp) k c i sub (resp_decision resp)))))"
proof (cases r)
  case (Inl e)
  from te.enroll_Inl [OF assms [unfolded Inl]] Inl show ?thesis by simp
next
  case (Inr resp)
  from te.enroll_effect [OF assms [unfolded Inr]] Inr show ?thesis by simp
qed

theorem enroll_effect_on_store_witness:
  "redb_abs mem_serde (mem_tables (snd (enroll ref_mesh ref_enroll_crates ref_manager ref_enroll_env
     ''acme'' ''nowhere'' None ref_body ref_db))) = redb_abs mem_serde (mem_tables ref_db)"
proof -
  have "\<exists>e db'. enroll ref_mesh ref_enroll_crates ref_manager ref_enroll_env ''acme'' ''nowhere'' None
      ref_body ref_db = (Inl e, db')"
    by (simp add: enroll_run)
  then obtain e db' where run: "enroll ref_mesh ref_enroll_crates ref_manager ref_enroll_env ''acme''
      ''nowhere'' None ref_body ref_db = (Inl e, db')" by blast
  from enroll_effect_on_store [OF ref_db_inv run] run show ?thesis by simp
qed

section \<open>How often\<close>

text \<open>
  C34: the rate limit. When an enrollment is approved, the organization's audit log held fewer entries of
  the last hour than \<open>max_enrollments_per_hour\<close>, provided the log is smaller than the \<open>u32\<close> the count is
  cut to; so after the approval there are at most that many.
\<close>

theorem enroll_rate_limit:
  assumes "redb_inv S E V X db" and "a_orgs (redb_abs S (V db)) k = Some org"
    and "enroll K H (redb_manager S E P en) v k c auth body db = (Inr resp, db')"
    and "finite (audit_matches (redb_abs S (V db)) k None)"
    and "card (audit_matches (redb_abs S (V db)) k None) < 2 ^ 32"
  shows "card {e \<in> audit_matches (redb_abs S (V db)) k None.
      saturating_sub (ee_now_limit v) 3600000 \<le> aud_timestamp_ms e}
    < unat (max_enrollments_per_hour (org_quotas org))"
proof (rule te.enroll_Inr [OF assms(1,3)])
  fix org' f recent i sub s1
  let ?a = "redb_abs S (V db)" and ?since = "saturating_sub (ee_now_limit v) 3600000"
  assume org: "a_orgs ?a k = Some org'" and k: "nul_free k"
    and n: "count_recent_enrollments (redb_manager S E P en) k ?since db = Inr recent"
    and lim: "\<not> max_enrollments_per_hour (org_quotas org') \<le> (of_nat recent :: u32)"
  have r: "recent = card {e \<in> audit_matches ?a k None. ?since \<le> aud_timestamp_ms e}"
    using assms(4,5) by (intro tm.count_recent_Inr [OF assms(1) k n]) (simp_all add: usize_MAX_def)
  also have "\<dots> \<le> card (audit_matches ?a k None)"
    using assms(4) by (intro card_mono) auto
  finally have "recent < 2 ^ 32" using assms(5) by simp
  then have "unat (of_nat recent :: u32) = recent" by (simp add: unsigned_of_nat take_bit_nat_eq_self)
  with lim org assms(2) r show ?thesis by (simp add: word_le_nat_alt)
qed

theorem enroll_rate_limit_witness:
  "\<exists>resp db'. enroll ref_mesh ref_enroll_crates ref_manager ref_enroll_env ''acme'' ''ops'' None ref_body
       ref_db = (Inr resp, db') \<and>
     card {e \<in> audit_matches (redb_abs mem_serde (mem_tables ref_db)) ''acme'' None.
       saturating_sub (ee_now_limit ref_enroll_env) 3600000 \<le> aud_timestamp_ms e}
       < unat (max_enrollments_per_hour default_quotas)"
proof -
  obtain resp db' where run: "enroll ref_mesh ref_enroll_crates ref_manager ref_enroll_env ''acme'' ''ops''
      None ref_body ref_db = (Inr resp, db')"
    by (rule ref_enroll)
  have org: "a_orgs (redb_abs mem_serde (mem_tables ref_db)) ''acme'' = Some ref_org"
    by (simp add: redb_abs_def mem_tables_def ref_db_def mem_serde_def)
  have empty: "audit_matches (redb_abs mem_serde (mem_tables ref_db)) ''acme'' None = {}"
    by (simp add: audit_matches_def redb_abs_def tab_def mem_tables_def ref_db_def mem_empty_def)
  from enroll_rate_limit [where V = mem_tables, OF ref_db_inv org run] run show ?thesis
    by (simp add: empty ref_org_def)
qed

section \<open>The certificate\<close>

lemma try_issue_certificate_Some:
  assumes "(Some crt, mid, apk) = try_issue_certificate K H M e k c d body s"
  obtains tier perms b pk node pk_bytes g where
    "d = Approved tier perms" "body = Some b" "er_public_key b = Some pk" "er_node_id b = Some node"
    "ec_hex_decode H pk = Inr pk_bytes" "length pk_bytes = 32" "load_genesis K M e k c s = Inr g"
    "crt = mc_hex_encode K (ec_issue_certificate H g pk_bytes node (to_mesh_tier tier)
       (to_mesh (ec_wire_bits H) perms) cert_validity_ms)"
    "mid = Some (mc_mesh_id K g)" "apk = Some (mc_hex_encode K (ec_authority_public_key H g))"
  using assms
  by (auto simp: try_issue_certificate_def Let_def
      split: enrollment_decision.splits option.splits sum.splits if_splits)

text \<open>
  C25: the certificate an approved enrollment returns is issued by the formation's own genesis key, for
  the 32-byte key and the node of the request, valid for 24 hours, at the tier of the decision, and
  carries exactly the decision's permissions: bits 0 to 2 in place, bit 3 (admin) as bit 7 of the wire,
  every other bit clear.
\<close>

theorem certificate_matches_decision:
  assumes "redb_inv S E V X db" and "wire_bits_documented (ec_wire_bits H)"
    and "enroll K H (redb_manager S E P en) v k c auth body db = (Inr resp, db')"
    and "resp_certificate resp = Some crt"
  shows "\<exists>tier perms b pk node pk_bytes g wire.
    resp_decision resp = Approved tier perms \<and> body = Some b \<and>
    er_public_key b = Some pk \<and> er_node_id b = Some node \<and>
    ec_hex_decode H pk = Inr pk_bytes \<and> length pk_bytes = 32 \<and>
    load_genesis K (redb_manager S E P en) (ee_call v) k c db' = Inr g \<and>
    crt = mc_hex_encode K (ec_issue_certificate H g pk_bytes node (to_mesh_tier tier) wire 86400000) \<and>
    resp_mesh_id resp = Some (mc_mesh_id K g) \<and>
    (\<forall>n. bit wire n = ((n = 0 \<and> bit perms 0) \<or> (n = 1 \<and> bit perms 1) \<or> (n = 2 \<and> bit perms 2) \<or>
       (n = 7 \<and> bit perms 3)))"
proof (rule te.enroll_Inr [OF assms(1,3)])
  assume "(resp_certificate resp, resp_mesh_id resp, resp_authority_public_key resp) =
    try_issue_certificate K H (redb_manager S E P en) (ee_call v) k c (resp_decision resp) body db'"
  with assms(4) show ?thesis
    by (fastforce elim!: try_issue_certificate_Some simp: cert_validity_ms_def bit_to_mesh [OF assms(2)]
        intro: exI [of _ "to_mesh (ec_wire_bits H) perms" for perms])
qed

theorem certificate_matches_decision_witness:
  "\<exists>resp db'. enroll ref_mesh ref_enroll_crates ref_manager ref_enroll_env ''acme'' ''ops'' None ref_body
       ref_db = (Inr resp, db') \<and> resp_certificate resp = Some ''ab'' \<and> resp_mesh_id resp = Some ''mesh''"
proof -
  obtain resp db' where run: "enroll ref_mesh ref_enroll_crates ref_manager ref_enroll_env ''acme'' ''ops''
      None ref_body ref_db = (Inr resp, db')" "resp_certificate resp = Some ''ab''"
    by (rule ref_enroll)
  have "wire_bits_documented (ec_wire_bits ref_enroll_crates)"
    by (simp add: wire_bits_documented_def ref_enroll_crates_def)
  from certificate_matches_decision [OF ref_db_inv this run] run show ?thesis
    by (auto simp: ref_mesh_def)
qed

end
