(* ===== verification/Api.thy ===== *)
theory Api
  imports Enroll
begin

text \<open>
  The HTTP API (\<open>src/api\<close>): the admin-token middleware, the handlers of organizations, formations,
  tokens, sinks, identity federation and of the read-only mesh endpoints, and the router that puts them
  behind the middleware and the enrollment endpoint beside it.

  A request is its method, the decoded segments of its path, the \<open>Authorization\<close> header when it is
  text, and its body as \<open>serde\<close> decoded it (a body that does not decode is rejected by the extractor
  before the handler runs). Fields with a serde default are options here and the default is filled in
  by the code's own function. What a handler draws from the outside (clock, random bytes) is in the
  environment of the call.
\<close>

section \<open>The admin token\<close>

definition constant_time_eq :: "bytes \<Rightarrow> bytes \<Rightarrow> bool" where
  "constant_time_eq a b =
     (if length a \<noteq> length b then False
      else foldl (\<lambda>acc (x, y). acc OR (x XOR y)) 0 (zip a b) = 0)"

definition require_admin_token ::
  "string option \<Rightarrow> string option \<Rightarrow> ('s, api_error, 'a) op \<Rightarrow> ('s, api_error, 'a) op" where
  "require_admin_token expected authorization run =
     (case expected of
        None \<Rightarrow> run
      | Some token \<Rightarrow>
          (case Option.bind authorization (\<lambda>v. strip_prefix v ''Bearer '') of
             Some provided \<Rightarrow>
               if constant_time_eq (into_bytes provided) (into_bytes token) then run
               else failE (403, Inr ''Invalid admin token'')
           | None \<Rightarrow> failE (401, Inr ''Admin token required'')))"

section \<open>Replies and environments\<close>

definition not_found :: "err \<Rightarrow> api_error" where
  "not_found e = (404, Inl e)"

record document_summary =
  ds_doc_id :: string
  ds_key_count :: nat
  ds_last_modified :: u64

record certificate_summary =
  cer_peer_id :: string
  cer_fingerprint :: string
  cer_issued_at :: u64
  cer_expires_at :: u64
  cer_revoked :: bool

datatype reply =
    RUnit
  | ROrg organization
  | ROrgs "organization list"
  | RFormation formation_config
  | RFormations "formation_config list"
  | RToken enrollment_token
  | RTokens "enrollment_token list"
  | RSink cdc_sink_config
  | RSinks "cdc_sink_config list"
  | RIdp idp_config_response
  | RIdps "idp_config_response list"
  | RRule policy_rule
  | RRules "policy_rule list"
  | RAudit "audit_entry list"
  | RPeers "peer_info list"
  | RDocuments "document_summary list"
  | RCertificates "certificate_summary list"
  | REnrollment enrollment_response
  | RHealth string string
  | RMetrics string
  | RPublished string

type_synonym 's handler = "('s, api_error, nat \<times> reply) op"

definition ok_json :: "('a \<Rightarrow> reply) \<Rightarrow> (err \<Rightarrow> api_error) \<Rightarrow> ('s, err, 'a) op \<Rightarrow> 's handler" where
  "ok_json f g m = mapErrE g (mapE (\<lambda>x. (200, f x)) m)"

definition created_json :: "('a \<Rightarrow> reply) \<Rightarrow> (err \<Rightarrow> api_error) \<Rightarrow> ('s, err, 'a) op \<Rightarrow> 's handler" where
  "created_json f g m = mapErrE g (mapE (\<lambda>x. (201, f x)) m)"

record 'n api_env =
  ae_now :: u64
  ae_buf :: bytes
  ae_entropy :: bytes
  ae_seal :: "'n seal_env"
  ae_call :: "'n call_env"

section \<open>Organizations and formations\<close>

definition api_create_org :: "('s, 'n) tenant_manager \<Rightarrow> 'n api_env \<Rightarrow> string \<Rightarrow> string \<Rightarrow> 's handler" where
  "api_create_org M v org_id display_name = ok_json ROrg bad_request (create_org M (ae_now v) org_id display_name)"

definition api_list_orgs :: "('s, 'n) tenant_manager \<Rightarrow> 's handler" where
  "api_list_orgs M = ok_json ROrgs bad_request (readE (list_orgs M))"

definition api_get_org :: "('s, 'n) tenant_manager \<Rightarrow> string \<Rightarrow> 's handler" where
  "api_get_org M org_id = ok_json ROrg not_found (readE (get_org M org_id))"

definition api_update_org ::
  "('s, 'n) tenant_manager \<Rightarrow> string \<Rightarrow> string option \<Rightarrow> org_quotas option \<Rightarrow> 's handler" where
  "api_update_org M org_id display_name quotas = ok_json ROrg not_found (update_org M org_id display_name quotas)"

definition api_delete_org :: "('s, 'n) tenant_manager \<Rightarrow> string \<Rightarrow> 's handler" where
  "api_delete_org M org_id = ok_json (\<lambda>_. RUnit) not_found (delete_org M org_id)"

definition default_enrollment_policy :: enrollment_policy where
  "default_enrollment_policy = Controlled"

definition api_create_formation ::
  "('k, 'g) mesh_crates \<Rightarrow> ('s, 'n) tenant_manager \<Rightarrow> 'n api_env \<Rightarrow> string \<Rightarrow> string \<Rightarrow> enrollment_policy option
     \<Rightarrow> 's handler" where
  "api_create_formation K M v org_id app_id policy =
     created_json RFormation bad_request
       (create_formation K M (ae_entropy v) (ae_seal v) org_id app_id
          (case policy of Some p \<Rightarrow> p | None \<Rightarrow> default_enrollment_policy))"

definition api_list_formations :: "('s, 'n) tenant_manager \<Rightarrow> string \<Rightarrow> 's handler" where
  "api_list_formations M org_id = ok_json RFormations not_found (readE (list_formations M org_id))"

definition api_get_formation :: "('s, 'n) tenant_manager \<Rightarrow> string \<Rightarrow> string \<Rightarrow> 's handler" where
  "api_get_formation M org_id app_id = ok_json RFormation not_found (readE (get_formation M org_id app_id))"

definition api_delete_formation :: "('s, 'n) tenant_manager \<Rightarrow> string \<Rightarrow> string \<Rightarrow> 's handler" where
  "api_delete_formation M org_id app_id = ok_json (\<lambda>_. RUnit) not_found (delete_formation M org_id app_id)"

section \<open>Tokens\<close>

record token_request_body =
  tr_app_id :: string
  tr_label :: string
  tr_max_uses :: "u32 option"
  tr_expires_at :: "u64 option"

definition api_create_token ::
  "('k, 'g) mesh_crates \<Rightarrow> ('s, 'n) tenant_manager \<Rightarrow> 'n api_env \<Rightarrow> string \<Rightarrow> token_request_body \<Rightarrow> 's handler" where
  "api_create_token K M v org_id req =
     created_json RToken bad_request
       (create_token K M (ae_buf v) (ae_now v) org_id (tr_app_id req) (tr_label req) (tr_max_uses req)
          (tr_expires_at req))"

definition api_list_tokens :: "('s, 'n) tenant_manager \<Rightarrow> string \<Rightarrow> string \<Rightarrow> 's handler" where
  "api_list_tokens M org_id app_id = ok_json RTokens not_found (readE (list_tokens M org_id app_id))"

definition api_get_token :: "('s, 'n) tenant_manager \<Rightarrow> string \<Rightarrow> string \<Rightarrow> 's handler" where
  "api_get_token M org_id token_id = ok_json RToken not_found (readE (get_token M org_id token_id))"

definition api_revoke_token :: "('s, 'n) tenant_manager \<Rightarrow> string \<Rightarrow> string \<Rightarrow> 's handler" where
  "api_revoke_token M org_id token_id = ok_json RToken bad_request (revoke_token M org_id token_id)"

definition api_delete_token :: "('s, 'n) tenant_manager \<Rightarrow> string \<Rightarrow> string \<Rightarrow> 's handler" where
  "api_delete_token M org_id token_id = ok_json (\<lambda>_. RUnit) not_found (delete_token M org_id token_id)"

section \<open>CDC sinks\<close>

definition api_create_sink ::
  "('k, 'g) mesh_crates \<Rightarrow> ('s, 'n) tenant_manager \<Rightarrow> 'n api_env \<Rightarrow> string \<Rightarrow> cdc_sink_type \<Rightarrow> 's handler" where
  "api_create_sink K M v org_id sink_type =
     created_json RSink bad_request (create_sink K M (ae_buf v) (ae_now v) org_id sink_type)"

definition api_list_sinks :: "('s, 'n) tenant_manager \<Rightarrow> string \<Rightarrow> 's handler" where
  "api_list_sinks M org_id = ok_json RSinks not_found (readE (list_sinks M org_id))"

definition api_get_sink :: "('s, 'n) tenant_manager \<Rightarrow> string \<Rightarrow> string \<Rightarrow> 's handler" where
  "api_get_sink M org_id sink_id = ok_json RSink not_found (readE (get_sink M org_id sink_id))"

definition api_toggle_sink :: "('s, 'n) tenant_manager \<Rightarrow> string \<Rightarrow> string \<Rightarrow> bool \<Rightarrow> 's handler" where
  "api_toggle_sink M org_id sink_id enabled = ok_json RSink not_found (toggle_sink M org_id sink_id enabled)"

definition api_delete_sink :: "('s, 'n) tenant_manager \<Rightarrow> string \<Rightarrow> string \<Rightarrow> 's handler" where
  "api_delete_sink M org_id sink_id = ok_json (\<lambda>_. RUnit) not_found (delete_sink M org_id sink_id)"

section \<open>Identity federation\<close>

record idp_request_body =
  ir_issuer_url :: string
  ir_client_id :: string
  ir_client_secret :: string

definition api_create_idp ::
  "('k, 'g) mesh_crates \<Rightarrow> ('s, 'n) tenant_manager \<Rightarrow> 'n api_env \<Rightarrow> string \<Rightarrow> idp_request_body \<Rightarrow> 's handler" where
  "api_create_idp K M v org_id req =
     created_json (\<lambda>idp. RIdp (idp_response idp)) bad_request
       (create_idp K M (ae_buf v) (ae_now v) org_id (ir_issuer_url req) (ir_client_id req) (ir_client_secret req))"

definition api_list_idps :: "('s, 'n) tenant_manager \<Rightarrow> string \<Rightarrow> 's handler" where
  "api_list_idps M org_id = ok_json (\<lambda>idps. RIdps (map idp_response idps)) not_found (readE (list_idps M org_id))"

definition api_get_idp :: "('s, 'n) tenant_manager \<Rightarrow> string \<Rightarrow> string \<Rightarrow> 's handler" where
  "api_get_idp M org_id idp_id = ok_json (\<lambda>idp. RIdp (idp_response idp)) not_found (readE (get_idp M org_id idp_id))"

definition api_toggle_idp :: "('s, 'n) tenant_manager \<Rightarrow> string \<Rightarrow> string \<Rightarrow> bool \<Rightarrow> 's handler" where
  "api_toggle_idp M org_id idp_id enabled =
     ok_json (\<lambda>idp. RIdp (idp_response idp)) not_found (toggle_idp M org_id idp_id enabled)"

definition api_delete_idp :: "('s, 'n) tenant_manager \<Rightarrow> string \<Rightarrow> string \<Rightarrow> 's handler" where
  "api_delete_idp M org_id idp_id = ok_json (\<lambda>_. RUnit) not_found (delete_idp M org_id idp_id)"

record rule_request_body =
  rr_claim_key :: string
  rr_claim_value :: string
  rr_tier :: mesh_tier
  rr_permissions :: "u32 option"
  rr_priority :: "u32 option"

definition default_priority :: u32 where
  "default_priority = 100"

definition api_create_policy_rule ::
  "('k, 'g) mesh_crates \<Rightarrow> ('s, 'n) tenant_manager \<Rightarrow> 'n api_env \<Rightarrow> string \<Rightarrow> rule_request_body \<Rightarrow> 's handler" where
  "api_create_policy_rule K M v org_id req =
     created_json RRule bad_request
       (create_policy_rule K M (ae_buf v) org_id (rr_claim_key req) (rr_claim_value req) (rr_tier req)
          (case rr_permissions req of Some p \<Rightarrow> p | None \<Rightarrow> 0)
          (case rr_priority req of Some p \<Rightarrow> p | None \<Rightarrow> default_priority))"

definition api_list_policy_rules :: "('s, 'n) tenant_manager \<Rightarrow> string \<Rightarrow> 's handler" where
  "api_list_policy_rules M org_id = ok_json RRules not_found (readE (list_policy_rules M org_id))"

definition api_delete_policy_rule :: "('s, 'n) tenant_manager \<Rightarrow> string \<Rightarrow> string \<Rightarrow> 's handler" where
  "api_delete_policy_rule M org_id rule_id = ok_json (\<lambda>_. RUnit) not_found (delete_policy_rule M org_id rule_id)"

record audit_query =
  aq_app_id :: "string option"
  aq_limit :: "nat option"

definition default_limit :: nat where
  "default_limit = 100"

definition api_list_audit :: "('s, 'n) tenant_manager \<Rightarrow> string \<Rightarrow> audit_query \<Rightarrow> 's handler" where
  "api_list_audit M org_id q =
     ok_json RAudit not_found
       (readE (list_audit M org_id (aq_app_id q) (case aq_limit q of Some l \<Rightarrow> l | None \<Rightarrow> default_limit)))"

section \<open>Mesh state of a formation\<close>

text \<open>
  \<open>MeshBrokerState\<close> is a trait of \<open>peat_mesh\<close>: what a registered handle answers is a parameter. The
  registry maps formations to handles.
\<close>

record 'j mesh_broker =
  br_list_peers :: "(string \<times> bool) list"     \<comment> \<open>identifier and whether connected\<close>
  br_list_documents :: "string \<Rightarrow> 'j json list option"

type_synonym 'j mesh_state_registry = "string \<times> string \<rightharpoonup> 'j mesh_broker"

definition register ::
  "string \<Rightarrow> string \<Rightarrow> 'j mesh_broker \<Rightarrow> 'j mesh_state_registry \<Rightarrow> 'j mesh_state_registry" where
  "register org_id app_id state reg = reg((org_id, app_id) \<mapsto> state)"

definition deregister :: "string \<Rightarrow> string \<Rightarrow> 'j mesh_state_registry \<Rightarrow> 'j mesh_state_registry" where
  "deregister org_id app_id reg = reg((org_id, app_id) := None)"

definition registry_get :: "'j mesh_state_registry \<Rightarrow> string \<Rightarrow> string \<Rightarrow> 'j mesh_broker option" where
  "registry_get reg org_id app_id = reg (org_id, app_id)"

definition peer_of :: "u64 \<Rightarrow> string \<Rightarrow> string \<times> bool \<Rightarrow> peer_info" where
  "peer_of now app_id s =
     \<lparr>peer_peer_id = fst s, peer_app_id = app_id,
      peer_status = (if snd s then Connected else Disconnected), peer_last_seen = now\<rparr>"

definition list_peers ::
  "('s, 'n) tenant_manager \<Rightarrow> 'j mesh_state_registry \<Rightarrow> 'n api_env \<Rightarrow> string \<Rightarrow> string \<Rightarrow> 's handler" where
  "list_peers M reg v org_id app_id =
     seqE (mapErrE not_found (readE (get_formation M org_id app_id)))
       (case registry_get reg org_id app_id of
          None \<Rightarrow> retE (200, RPeers [])
        | Some broker \<Rightarrow> retE (200, RPeers (map (peer_of (ae_now v) app_id) (br_list_peers broker))))"

text \<open>\<open>as_u64\<close> of a JSON number is a parameter, numbers being opaque.\<close>

definition tag_collection :: "string \<Rightarrow> 'j json \<Rightarrow> 'j json" where
  "tag_collection collection doc =
     (case doc of
        JObject m \<Rightarrow>
          JObject (if map_of m ''_collection'' = None then m @ [(''_collection'', JString collection)] else m)
      | _ \<Rightarrow> doc)"

definition default_collections :: "string list" where
  "default_collections = [''cot-broadcast'', ''contacts'', ''markers'', ''missions'']"

definition broker_documents :: "'j mesh_broker \<Rightarrow> string \<Rightarrow> 'j json list" where
  "broker_documents broker app_id =
     (case br_list_documents broker app_id of
        Some docs \<Rightarrow> docs
      | None \<Rightarrow>
          concat (map (\<lambda>collection.
            case br_list_documents broker collection of
              Some docs \<Rightarrow> map (tag_collection collection) docs
            | None \<Rightarrow> []) default_collections))"

definition summarize_document :: "('j \<Rightarrow> u64 option) \<Rightarrow> 'j json \<Rightarrow> document_summary" where
  "summarize_document as_u64 val =
     (let id_val = (case json_get val ''_id'' of Some x \<Rightarrow> Some x | None \<Rightarrow> json_get val ''uid'')
      in \<lparr>ds_doc_id = (case Option.bind id_val as_str of Some s \<Rightarrow> s | None \<Rightarrow> ''unknown''),
          ds_key_count = (case val of JObject m \<Rightarrow> length m | _ \<Rightarrow> 0),
          ds_last_modified =
            (case json_get val ''_last_modified'' of
               Some (JNumber n) \<Rightarrow> (case as_u64 n of Some u \<Rightarrow> u | None \<Rightarrow> 0)
             | _ \<Rightarrow> 0)\<rparr>)"

definition list_documents ::
  "('j \<Rightarrow> u64 option) \<Rightarrow> ('s, 'n) tenant_manager \<Rightarrow> 'j mesh_state_registry \<Rightarrow> string \<Rightarrow> string \<Rightarrow> 's handler" where
  "list_documents as_u64 M reg org_id app_id =
     seqE (mapErrE not_found (readE (get_formation M org_id app_id)))
       (case registry_get reg org_id app_id of
          None \<Rightarrow> retE (200, RDocuments [])
        | Some broker \<Rightarrow>
            retE (200, RDocuments (map (summarize_document as_u64) (broker_documents broker app_id))))"

record root_certificate =
  rc_node_id :: string
  rc_subject_public_key :: bytes
  rc_issued_at_ms :: u64
  rc_expires_at_ms :: u64

definition root_summary :: "('k, 'g) mesh_crates \<Rightarrow> root_certificate \<Rightarrow> certificate_summary" where
  "root_summary K c =
     \<lparr>cer_peer_id = rc_node_id c, cer_fingerprint = mc_hex_encode K (take 8 (rc_subject_public_key c)),
      cer_issued_at = rc_issued_at_ms c, cer_expires_at = rc_expires_at_ms c, cer_revoked = False\<rparr>"

definition enrollment_summary :: "('k, 'g) mesh_crates \<Rightarrow> audit_entry \<Rightarrow> certificate_summary" where
  "enrollment_summary K e =
     \<lparr>cer_peer_id = aud_subject e,
      cer_fingerprint = mc_hex_encode K (take (min 8 (length (aud_subject e))) (into_bytes (aud_subject e))),
      cer_issued_at = aud_timestamp_ms e, cer_expires_at = 0, cer_revoked = False\<rparr>"

definition is_approved :: "audit_entry \<Rightarrow> bool" where
  "is_approved e = (case aud_decision e of Approved _ _ \<Rightarrow> True | Denied _ \<Rightarrow> False)"

definition list_certificates ::
  "('k, 'g) mesh_crates \<Rightarrow> ('g \<Rightarrow> string \<Rightarrow> root_certificate) \<Rightarrow> ('s, 'n) tenant_manager \<Rightarrow> 'n api_env
     \<Rightarrow> string \<Rightarrow> string \<Rightarrow> 's handler" where
  "list_certificates K root_cert M v org_id app_id =
     seqE (mapErrE not_found (readE (get_formation M org_id app_id)))
    (bindE (mapErrE internal (readE (load_genesis K M (ae_call v) org_id app_id))) (\<lambda>genesis.
     bindE (mapErrE internal (readE (list_audit M org_id (Some app_id) 1000))) (\<lambda>audit_entries.
       retE (200, RCertificates
         (root_summary K (root_cert genesis ''authority-0'') #
          map (enrollment_summary K) (filter is_approved audit_entries))))))"

section \<open>The router\<close>

datatype http_method = GET | POST | PATCH | DELETE

datatype body =
    NoBody           \<comment> \<open>no \<open>application/json\<close> body\<close>
  | BMalformed       \<comment> \<open>not JSON\<close>
  | BCreateOrg string string
  | BUpdateOrg "string option" "org_quotas option"
  | BCreateFormation string "enrollment_policy option"
  | BCreateToken token_request_body
  | BCreateSink cdc_sink_type
  | BToggle bool
  | BCreateIdp idp_request_body
  | BCreateRule rule_request_body
  | BEnroll enroll_request

record http_request =
  hq_method :: http_method
  hq_path :: "string list"
  hq_authorization :: "string option"
  hq_query :: audit_query
  hq_body :: body

datatype endpoint =
    Health
  | Metrics
  | EnrollAt string string
  | CreateOrgAt
  | ListOrgs
  | GetOrg string
  | UpdateOrgAt string
  | DeleteOrgAt string
  | CreateFormationAt string
  | ListFormations string
  | GetFormation string string
  | DeleteFormationAt string string
  | CreateTokenAt string
  | ListTokens string string
  | GetToken string string
  | DeleteTokenAt string string
  | RevokeTokenAt string string
  | CreateSinkAt string
  | ListSinks string
  | GetSink string string
  | ToggleSinkAt string string
  | DeleteSinkAt string string
  | CreateIdpAt string
  | ListIdps string
  | GetIdp string string
  | ToggleIdpAt string string
  | DeleteIdpAt string string
  | CreateRuleAt string
  | ListRules string
  | DeleteRuleAt string string
  | ListAudit string
  | ListPeers string string
  | ListDocuments string string
  | ListCertificates string string

definition by_method ::
  "http_method \<Rightarrow> endpoint option \<Rightarrow> endpoint option \<Rightarrow> endpoint option \<Rightarrow> endpoint option \<Rightarrow> endpoint option" where
  "by_method m g po pa d = (case m of GET \<Rightarrow> g | POST \<Rightarrow> po | PATCH \<Rightarrow> pa | DELETE \<Rightarrow> d)"

text \<open>The routers of the components, on the path below \<open>/orgs\<close>, in the order \<open>api/mod.rs\<close> nests them.\<close>

definition orgs_router :: "http_method \<Rightarrow> string list \<Rightarrow> endpoint option" where
  "orgs_router m path =
     (case path of
        [] \<Rightarrow> by_method m (Some ListOrgs) (Some CreateOrgAt) None None
      | [k] \<Rightarrow> by_method m (Some (GetOrg k)) None (Some (UpdateOrgAt k)) (Some (DeleteOrgAt k))
      | [k, x] \<Rightarrow>
          if x = ''formations'' then by_method m (Some (ListFormations k)) (Some (CreateFormationAt k)) None None
          else None
      | [k, x, c] \<Rightarrow>
          if x = ''formations'' then by_method m (Some (GetFormation k c)) None None (Some (DeleteFormationAt k c))
          else None
      | _ \<Rightarrow> None)"

definition tokens_router :: "http_method \<Rightarrow> string list \<Rightarrow> endpoint option" where
  "tokens_router m path =
     (case path of
        [k, x] \<Rightarrow> if x = ''tokens'' then by_method m None (Some (CreateTokenAt k)) None None else None
      | [k, x, c] \<Rightarrow>
          if x = ''tokens'' then by_method m (Some (GetToken k c)) None None (Some (DeleteTokenAt k c)) else None
      | [k, x, c, y] \<Rightarrow>
          if x = ''formations'' \<and> y = ''tokens'' then by_method m (Some (ListTokens k c)) None None None
          else if x = ''tokens'' \<and> y = ''revoke'' then by_method m None (Some (RevokeTokenAt k c)) None None
          else None
      | _ \<Rightarrow> None)"

definition sinks_router :: "http_method \<Rightarrow> string list \<Rightarrow> endpoint option" where
  "sinks_router m path =
     (case path of
        [k, x] \<Rightarrow> if x = ''sinks'' then by_method m (Some (ListSinks k)) (Some (CreateSinkAt k)) None None else None
      | [k, x, c] \<Rightarrow>
          if x = ''sinks'' then
            by_method m (Some (GetSink k c)) None (Some (ToggleSinkAt k c)) (Some (DeleteSinkAt k c))
          else None
      | _ \<Rightarrow> None)"

definition identity_router :: "http_method \<Rightarrow> string list \<Rightarrow> endpoint option" where
  "identity_router m path =
     (case path of
        [k, x] \<Rightarrow>
          if x = ''idps'' then by_method m (Some (ListIdps k)) (Some (CreateIdpAt k)) None None
          else if x = ''policy-rules'' then by_method m (Some (ListRules k)) (Some (CreateRuleAt k)) None None
          else if x = ''audit'' then by_method m (Some (ListAudit k)) None None None
          else None
      | [k, x, c] \<Rightarrow>
          if x = ''idps'' then
            by_method m (Some (GetIdp k c)) None (Some (ToggleIdpAt k c)) (Some (DeleteIdpAt k c))
          else if x = ''policy-rules'' then by_method m None None None (Some (DeleteRuleAt k c))
          else None
      | _ \<Rightarrow> None)"

definition formations_router :: "http_method \<Rightarrow> string list \<Rightarrow> endpoint option" where
  "formations_router m path =
     (case path of
        [k, x, c, y] \<Rightarrow>
          if x = ''formations'' \<and> y = ''peers'' then by_method m (Some (ListPeers k c)) None None None
          else if x = ''formations'' \<and> y = ''documents'' then by_method m (Some (ListDocuments k c)) None None None
          else if x = ''formations'' \<and> y = ''certificates'' then
            by_method m (Some (ListCertificates k c)) None None None
          else None
      | _ \<Rightarrow> None)"

definition enroll_router :: "http_method \<Rightarrow> string list \<Rightarrow> endpoint option" where
  "enroll_router m path =
     (case path of
        [k, x, c, y] \<Rightarrow>
          if x = ''formations'' \<and> y = ''enroll'' then by_method m None (Some (EnrollAt k c)) None None else None
      | _ \<Rightarrow> None)"

definition health_router :: "http_method \<Rightarrow> string list \<Rightarrow> endpoint option" where
  "health_router m path =
     (case path of
        [x] \<Rightarrow>
          if x = ''health'' then by_method m (Some Health) None None None
          else if x = ''metrics'' then by_method m (Some Metrics) None None None
          else None
      | _ \<Rightarrow> None)"

fun first_route :: "endpoint option list \<Rightarrow> endpoint option" where
  "first_route [] = None"
| "first_route (None # rs) = first_route rs"
| "first_route (Some ep # rs) = Some ep"

definition nest_orgs :: "string list \<Rightarrow> (string list \<Rightarrow> endpoint option) \<Rightarrow> endpoint option" where
  "nest_orgs path router =
     (case path of x # rest \<Rightarrow> if x = ''orgs'' then router rest else None | [] \<Rightarrow> None)"

text \<open>The routes under the admin middleware, and the public ones.\<close>

definition admin_routes :: "http_method \<Rightarrow> string list \<Rightarrow> endpoint option" where
  "admin_routes m path =
     first_route (map (\<lambda>router. nest_orgs path (router m))
       [orgs_router, tokens_router, sinks_router, identity_router, formations_router])"

definition public_routes :: "http_method \<Rightarrow> string list \<Rightarrow> endpoint option" where
  "public_routes m path = first_route [nest_orgs path (enroll_router m), health_router m path]"

definition route :: "http_method \<Rightarrow> string list \<Rightarrow> endpoint option" where
  "route m path = first_route [admin_routes m path, public_routes m path]"

lemmas routers =
  orgs_router_def tokens_router_def sinks_router_def identity_router_def formations_router_def
  enroll_router_def health_router_def nest_orgs_def admin_routes_def public_routes_def route_def by_method_def

text \<open>The endpoints of the public routes.\<close>

fun is_public :: "endpoint \<Rightarrow> bool" where
  "is_public Health = True"
| "is_public Metrics = True"
| "is_public (EnrollAt k c) = True"
| "is_public _ = False"

lemma first_route_Some: "first_route rs = Some ep \<Longrightarrow> Some ep \<in> set rs"
  by (induction rs rule: first_route.induct) auto

lemma public_routes_public: "public_routes m path = Some ep \<Longrightarrow> is_public ep"
  by (auto simp: public_routes_def dest!: first_route_Some)
     (auto simp: nest_orgs_def enroll_router_def health_router_def by_method_def
       split: list.splits if_splits http_method.splits)

record ('k, 'g, 'j, 's, 'n) gateway =
  gw_mesh_crates :: "('k, 'g) mesh_crates"
  gw_enroll_crates :: "('g, 'j) enroll_crates"
  gw_root_certificate :: "'g \<Rightarrow> string \<Rightarrow> root_certificate"
  gw_as_u64 :: "'j \<Rightarrow> u64 option"
  gw_feature_oidc :: bool
  gw_version :: string
  gw_metrics :: string
  gw_tenant_mgr :: "('s, 'n) tenant_manager"
  gw_admin_token :: "string option"
  gw_mesh :: "'j mesh_state_registry"

text \<open>The answers of the \<open>Json\<close> extractor and of the router itself.\<close>

definition rejected :: "body \<Rightarrow> 's handler" where
  "rejected b =
     (case b of
        NoBody \<Rightarrow> failE (415, Inr ''Expected request with `Content-Type: application/json`'')
      | BMalformed \<Rightarrow> failE (400, Inr ''Failed to parse the request body as JSON'')
      | _ \<Rightarrow> failE (422, Inr ''Failed to deserialize the JSON body into the target type''))"

definition no_route :: "'s handler" where
  "no_route = failE (404, Inr [])"

definition method_not_allowed :: "'s handler" where
  "method_not_allowed = failE (405, Inr [])"

definition known_path :: "(http_method \<Rightarrow> string list \<Rightarrow> endpoint option) \<Rightarrow> string list \<Rightarrow> bool" where
  "known_path routes path \<longleftrightarrow> list_ex (\<lambda>m. routes m path \<noteq> None) [GET, POST, PATCH, DELETE]"

fun handle_admin ::
  "('k, 'g, 'j, 's, 'n) gateway \<Rightarrow> 'n api_env \<Rightarrow> audit_query \<Rightarrow> body \<Rightarrow> endpoint \<Rightarrow> 's handler" where
  "handle_admin W v q b CreateOrgAt =
     (case b of BCreateOrg i n \<Rightarrow> api_create_org (gw_tenant_mgr W) v i n | _ \<Rightarrow> rejected b)"
| "handle_admin W v q b ListOrgs = api_list_orgs (gw_tenant_mgr W)"
| "handle_admin W v q b (GetOrg k) = api_get_org (gw_tenant_mgr W) k"
| "handle_admin W v q b (UpdateOrgAt k) =
     (case b of BUpdateOrg n qs \<Rightarrow> api_update_org (gw_tenant_mgr W) k n qs | _ \<Rightarrow> rejected b)"
| "handle_admin W v q b (DeleteOrgAt k) = api_delete_org (gw_tenant_mgr W) k"
| "handle_admin W v q b (CreateFormationAt k) =
     (case b of BCreateFormation c p \<Rightarrow> api_create_formation (gw_mesh_crates W) (gw_tenant_mgr W) v k c p
      | _ \<Rightarrow> rejected b)"
| "handle_admin W v q b (ListFormations k) = api_list_formations (gw_tenant_mgr W) k"
| "handle_admin W v q b (GetFormation k c) = api_get_formation (gw_tenant_mgr W) k c"
| "handle_admin W v q b (DeleteFormationAt k c) = api_delete_formation (gw_tenant_mgr W) k c"
| "handle_admin W v q b (CreateTokenAt k) =
     (case b of BCreateToken r \<Rightarrow> api_create_token (gw_mesh_crates W) (gw_tenant_mgr W) v k r | _ \<Rightarrow> rejected b)"
| "handle_admin W v q b (ListTokens k c) = api_list_tokens (gw_tenant_mgr W) k c"
| "handle_admin W v q b (GetToken k c) = api_get_token (gw_tenant_mgr W) k c"
| "handle_admin W v q b (DeleteTokenAt k c) = api_delete_token (gw_tenant_mgr W) k c"
| "handle_admin W v q b (RevokeTokenAt k c) = api_revoke_token (gw_tenant_mgr W) k c"
| "handle_admin W v q b (CreateSinkAt k) =
     (case b of BCreateSink st \<Rightarrow> api_create_sink (gw_mesh_crates W) (gw_tenant_mgr W) v k st | _ \<Rightarrow> rejected b)"
| "handle_admin W v q b (ListSinks k) = api_list_sinks (gw_tenant_mgr W) k"
| "handle_admin W v q b (GetSink k c) = api_get_sink (gw_tenant_mgr W) k c"
| "handle_admin W v q b (ToggleSinkAt k c) =
     (case b of BToggle en \<Rightarrow> api_toggle_sink (gw_tenant_mgr W) k c en | _ \<Rightarrow> rejected b)"
| "handle_admin W v q b (DeleteSinkAt k c) = api_delete_sink (gw_tenant_mgr W) k c"
| "handle_admin W v q b (CreateIdpAt k) =
     (case b of BCreateIdp r \<Rightarrow> api_create_idp (gw_mesh_crates W) (gw_tenant_mgr W) v k r | _ \<Rightarrow> rejected b)"
| "handle_admin W v q b (ListIdps k) = api_list_idps (gw_tenant_mgr W) k"
| "handle_admin W v q b (GetIdp k c) = api_get_idp (gw_tenant_mgr W) k c"
| "handle_admin W v q b (ToggleIdpAt k c) =
     (case b of BToggle en \<Rightarrow> api_toggle_idp (gw_tenant_mgr W) k c en | _ \<Rightarrow> rejected b)"
| "handle_admin W v q b (DeleteIdpAt k c) = api_delete_idp (gw_tenant_mgr W) k c"
| "handle_admin W v q b (CreateRuleAt k) =
     (case b of BCreateRule r \<Rightarrow> api_create_policy_rule (gw_mesh_crates W) (gw_tenant_mgr W) v k r | _ \<Rightarrow> rejected b)"
| "handle_admin W v q b (ListRules k) = api_list_policy_rules (gw_tenant_mgr W) k"
| "handle_admin W v q b (DeleteRuleAt k c) = api_delete_policy_rule (gw_tenant_mgr W) k c"
| "handle_admin W v q b (ListAudit k) = api_list_audit (gw_tenant_mgr W) k q"
| "handle_admin W v q b (ListPeers k c) = list_peers (gw_tenant_mgr W) (gw_mesh W) v k c"
| "handle_admin W v q b (ListDocuments k c) = list_documents (gw_as_u64 W) (gw_tenant_mgr W) (gw_mesh W) k c"
| "handle_admin W v q b (ListCertificates k c) =
     list_certificates (gw_mesh_crates W) (gw_root_certificate W) (gw_tenant_mgr W) v k c"
| "handle_admin W v q b _ = no_route"

definition handle_public ::
  "('k, 'g, 'j, 's, 'n) gateway \<Rightarrow> 'n enroll_env \<Rightarrow> http_request \<Rightarrow> endpoint \<Rightarrow> 's handler" where
  "handle_public W ve rq ep =
     (case ep of
        Health \<Rightarrow> retE (200, RHealth ''ok'' (gw_version W))
      | Metrics \<Rightarrow> retE (200, RMetrics (gw_metrics W))
      | EnrollAt k c \<Rightarrow>
          if gw_feature_oidc W then
            mapE (\<lambda>r. (200, REnrollment r))
              (enroll (gw_mesh_crates W) (gw_enroll_crates W) (gw_tenant_mgr W) ve k c (hq_authorization rq)
                (case hq_body rq of BEnroll r \<Rightarrow> Some r | _ \<Rightarrow> None))
          else no_route
      | _ \<Rightarrow> no_route)"

text \<open>
  A request no handler takes: a path that is routed for other methods answers 405, for an admin path behind
  the middleware like its handlers; every other path answers 404.
\<close>

definition unrouted :: "('k, 'g, 'j, 's, 'n) gateway \<Rightarrow> http_request \<Rightarrow> 's handler" where
  "unrouted W rq =
     (if known_path admin_routes (hq_path rq) then
        require_admin_token (gw_admin_token W) (hq_authorization rq) method_not_allowed
      else if known_path public_routes (hq_path rq) then method_not_allowed
      else no_route)"

definition app ::
  "('k, 'g, 'j, 's, 'n) gateway \<Rightarrow> 'n api_env \<Rightarrow> 'n enroll_env \<Rightarrow> http_request \<Rightarrow> 's handler" where
  "app W v ve rq =
     (case admin_routes (hq_method rq) (hq_path rq) of
        Some ep \<Rightarrow>
          require_admin_token (gw_admin_token W) (hq_authorization rq)
            (handle_admin W v (hq_query rq) (hq_body rq) ep)
      | None \<Rightarrow>
          (case public_routes (hq_method rq) (hq_path rq) of
             Some ep \<Rightarrow> handle_public W ve rq ep
           | None \<Rightarrow> unrouted W rq))"

lemma app_cases:
  "app W v ve rq =
     (case route (hq_method rq) (hq_path rq) of
        None \<Rightarrow> unrouted W rq
      | Some ep \<Rightarrow>
          if admin_routes (hq_method rq) (hq_path rq) = Some ep
          then require_admin_token (gw_admin_token W) (hq_authorization rq)
                 (handle_admin W v (hq_query rq) (hq_body rq) ep)
          else handle_public W ve rq ep)"
  by (simp add: app_def route_def split: option.split)

lemma route_not_public:
  "route m path = Some ep \<Longrightarrow> \<not> is_public ep \<Longrightarrow> admin_routes m path = Some ep"
  using public_routes_public [of m path ep]
  by (cases "admin_routes m path"; cases "public_routes m path") (simp_all add: route_def)

text \<open>HTTP requests served one after the other, each with the environment of its call.\<close>

primrec serve_http ::
  "('k, 'g, 'j, 's, 'n) gateway \<Rightarrow> ('n api_env \<times> 'n enroll_env \<times> http_request) list \<Rightarrow> 's \<Rightarrow> 's" where
  "serve_http W [] s = s"
| "serve_http W (x # xs) s = serve_http W xs (snd (app W (fst x) (fst (snd x)) (snd (snd x)) s))"

section \<open>The comparison and the middleware\<close>

lemma word_or_eq_0: "(a :: 'a::len word) OR b = 0 \<longleftrightarrow> a = 0 \<and> b = 0"
  by (auto simp: bit_eq_iff bit_or_iff)

lemma word_xor_eq_0: "(a :: 'a::len word) XOR b = 0 \<longleftrightarrow> a = b"
  by (simp add: bit_eq_iff bit_xor_iff)

lemma foldl_differences:
  assumes "length a = length b"
  shows "foldl (\<lambda>acc (x, y). acc OR (x XOR y)) (c :: u8) (zip a b) = 0 \<longleftrightarrow> c = 0 \<and> a = b"
  using assms
proof (induction a b arbitrary: c rule: list_induct2)
  case (Cons x xs y ys)
  then show ?case by (simp add: word_or_eq_0 word_xor_eq_0)
qed simp

lemma constant_time_eq_iff: "constant_time_eq a b \<longleftrightarrow> a = b"
  using foldl_differences [of a b 0] by (auto simp: constant_time_eq_def)

lemma into_bytes_inject: "into_bytes s = into_bytes t \<longleftrightarrow> s = t"
  by (metis chars_of_into_bytes)

lemma require_admin_token_cases:
  "require_admin_token expected auth run s =
     (if expected = None \<or> (\<exists>t. expected = Some t \<and> auth = Some (''Bearer '' @ t)) then run s
      else (Inl (if \<exists>p. auth = Some (''Bearer '' @ p) then (403, Inr ''Invalid admin token'')
                 else (401, Inr ''Admin token required'')), s))"
proof (cases expected)
  case (Some t)
  show ?thesis
  proof (cases "Option.bind auth (\<lambda>v. strip_prefix v ''Bearer '')")
    case None
    then show ?thesis
      using Some by (auto simp: require_admin_token_def failE_def strip_prefix_def starts_with_def split: option.splits)
  next
    case (Some p)
    then have "auth = Some (''Bearer '' @ p)"
      by (auto simp: bind_eq_Some_conv strip_prefix_Some)
    with Some \<open>expected = Some t\<close> show ?thesis
      by (auto simp: require_admin_token_def failE_def constant_time_eq_iff into_bytes_inject)
  qed
qed (simp add: require_admin_token_def)

section \<open>What a request can touch\<close>

text \<open>The organization a request is about, and the one identifier that reaches the store unchecked.\<close>

fun endpoint_org :: "body \<Rightarrow> endpoint \<Rightarrow> string option" where
  "endpoint_org b CreateOrgAt = (case b of BCreateOrg i n \<Rightarrow> Some i | _ \<Rightarrow> None)"
| "endpoint_org b (EnrollAt k c) = Some k"
| "endpoint_org b (UpdateOrgAt k) = Some k"
| "endpoint_org b (DeleteOrgAt k) = Some k"
| "endpoint_org b (CreateFormationAt k) = Some k"
| "endpoint_org b (DeleteFormationAt k c) = Some k"
| "endpoint_org b (CreateTokenAt k) = Some k"
| "endpoint_org b (DeleteTokenAt k c) = Some k"
| "endpoint_org b (RevokeTokenAt k c) = Some k"
| "endpoint_org b (CreateSinkAt k) = Some k"
| "endpoint_org b (ToggleSinkAt k c) = Some k"
| "endpoint_org b (DeleteSinkAt k c) = Some k"
| "endpoint_org b (CreateIdpAt k) = Some k"
| "endpoint_org b (ToggleIdpAt k c) = Some k"
| "endpoint_org b (DeleteIdpAt k c) = Some k"
| "endpoint_org b (CreateRuleAt k) = Some k"
| "endpoint_org b (DeleteRuleAt k c) = Some k"
| "endpoint_org b _ = None"

fun endpoint_ok :: "endpoint \<Rightarrow> bool" where
  "endpoint_ok (DeleteOrgAt k) = nul_free k"
| "endpoint_ok _ = True"

definition request_target :: "http_request \<Rightarrow> string option" where
  "request_target rq = Option.bind (route (hq_method rq) (hq_path rq)) (endpoint_org (hq_body rq))"

definition http_ok :: "http_request \<Rightarrow> bool" where
  "http_ok rq = (case route (hq_method rq) (hq_path rq) of None \<Rightarrow> True | Some ep \<Rightarrow> endpoint_ok ep)"

definition may_touch :: "string option \<Rightarrow> abs_store \<Rightarrow> abs_store \<Rightarrow> bool" where
  "may_touch k a a' \<longleftrightarrow> (case k of None \<Rightarrow> a' = a | Some j \<Rightarrow> others_same j a a')"

lemma may_touch_refl [simp]: "may_touch k a a"
  by (simp add: may_touch_def split: option.split)

lemmas api_handlers =
  api_create_org_def api_list_orgs_def api_get_org_def api_update_org_def api_delete_org_def
  api_create_formation_def api_list_formations_def api_get_formation_def api_delete_formation_def
  api_create_token_def api_list_tokens_def api_get_token_def api_revoke_token_def api_delete_token_def
  api_create_sink_def api_list_sinks_def api_get_sink_def api_toggle_sink_def api_delete_sink_def
  api_create_idp_def api_list_idps_def api_get_idp_def api_toggle_idp_def api_delete_idp_def
  api_create_policy_rule_def api_list_policy_rules_def api_delete_policy_rule_def api_list_audit_def
  list_peers_def list_documents_def list_certificates_def

locale api_service = enrollment_service M \<alpha> invar
  for M :: "('s, 'n) tenant_manager" and \<alpha> :: "'s \<Rightarrow> abs_store" and invar :: "'s \<Rightarrow> bool"
begin

text \<open>A handler that keeps the invariant and touches nothing but the organization \<open>k\<close>.\<close>

definition calm :: "string option \<Rightarrow> ('s, api_error, 'a) op \<Rightarrow> bool" where
  "calm k f \<longleftrightarrow> (\<forall>s r s'. invar s \<longrightarrow> f s = (r, s') \<longrightarrow> invar s' \<and> may_touch k (\<alpha> s) (\<alpha> s'))"

lemma calm_pure [simp]:
  "calm k (readE g)" "calm k (retE x)" "calm k (failE e)" "calm k (mapErrE h (readE g'))"
  "calm k (ok_json f h (readE g'))" "calm k (rejected b)" "calm k no_route"
  "calm k method_not_allowed"
  by (auto simp: calm_def op_iffs ok_json_def rejected_def no_route_def method_not_allowed_def split: body.splits)

lemma calm_json:
  assumes "keeps (others_same k) m"
  shows "calm (Some k) (ok_json f g m)" "calm (Some k) (created_json f g m)"
  using assms
  by (auto simp: calm_def may_touch_def ok_json_def created_json_def op_iffs dest: keepsD)

lemma calm_reads:
  "calm k m \<Longrightarrow> calm k (seqE (mapErrE h (readE g)) m)"
  "(\<And>x. calm k (n x)) \<Longrightarrow> calm k (bindE (mapErrE h (readE g)) n)"
  by (auto simp: calm_def seqE_def bindE_def mapErrE_def readE_def split: prod.splits sum.splits)

lemmas calm_writes =
  calm_json [OF keeps_quiet, OF keeps_create_org] calm_json [OF keeps_quiet, OF keeps_update_org]
  calm_json [OF keeps_delete_org] calm_json [OF keeps_quiet, OF keeps_create_formation]
  calm_json [OF keeps_quiet, OF keeps_delete_formation] calm_json [OF keeps_create_token]
  calm_json [OF keeps_revoke_token] calm_json [OF keeps_delete_token]
  calm_json [OF keeps_quiet, OF keeps_create_sink] calm_json [OF keeps_quiet, OF keeps_toggle_sink]
  calm_json [OF keeps_quiet, OF keeps_delete_sink] calm_json [OF keeps_quiet, OF keeps_create_idp]
  calm_json [OF keeps_quiet, OF keeps_toggle_idp] calm_json [OF keeps_quiet, OF keeps_delete_idp]
  calm_json [OF keeps_quiet, OF keeps_create_policy_rule]
  calm_json [OF keeps_quiet, OF keeps_delete_policy_rule]

lemma handle_admin_calm:
  assumes "gw_tenant_mgr W = M" and "mesh_crates_ok (gw_mesh_crates W)" and "endpoint_ok ep"
  shows "calm (endpoint_org b ep) (handle_admin W v q b ep)"
  using assms
  by (cases ep)
     (simp_all add: api_handlers calm_writes calm_reads split: body.split option.split)

end

context api_service
begin

lemma enroll_calm: "calm (Some k) (enroll K H M ve k c auth body)"
  unfolding calm_def
proof (intro allI impI)
  fix s r s'
  assume s: "invar s" and run: "enroll K H M ve k c auth body s = (r, s')"
  show "invar s' \<and> may_touch (Some k) (\<alpha> s) (\<alpha> s')"
  proof (cases r)
    case (Inl e)
    from enroll_Inl [OF s run [unfolded Inl]] show ?thesis by (simp add: may_touch_def)
  next
    case (Inr resp)
    from enroll_effect [OF s run [unfolded Inr]] show ?thesis by (simp add: may_touch_def)
  qed
qed

lemma calm_mapE: "calm k m \<Longrightarrow> calm k (mapE f m)"
  by (auto simp: calm_def op_iffs)

lemma calm_admin: "calm k m \<Longrightarrow> calm k (require_admin_token expected auth m)"
  by (auto simp: calm_def require_admin_token_cases split: if_splits)

lemma app_calm:
  assumes W: "gw_tenant_mgr W = M" "mesh_crates_ok (gw_mesh_crates W)" and rq: "http_ok rq"
  shows "calm (request_target rq) (app W v ve rq)"
proof (cases "route (hq_method rq) (hq_path rq)")
  case (Some ep)
  have "calm (endpoint_org (hq_body rq) ep) (handle_public W ve rq ep)"
    using W(1) by (cases ep) (simp_all add: handle_public_def calm_mapE enroll_calm)
  moreover have "endpoint_ok ep" using rq Some by (simp add: http_ok_def)
  ultimately show ?thesis
    using Some calm_admin [OF handle_admin_calm [OF W], of ep]
    by (simp add: app_cases request_target_def)
qed (simp add: app_cases request_target_def unrouted_def calm_admin)

lemma serve_http_calm:
  assumes W: "gw_tenant_mgr W = M" "mesh_crates_ok (gw_mesh_crates W)" and "invar s"
    and "\<forall>x \<in> set xs. http_ok (snd (snd x)) \<and> request_target (snd (snd x)) \<noteq> Some j"
  shows "invar (serve_http W xs s) \<and> org_view j (\<alpha> (serve_http W xs s)) = org_view j (\<alpha> s)"
  using assms(3,4)
proof (induction xs arbitrary: s)
  case (Cons x xs)
  obtain v ve rq where x: "x = (v, ve, rq)" by (cases x)
  obtain r s1 where run: "app W v ve rq s = (r, s1)" by fastforce
  from Cons.prems x have "http_ok rq" "request_target rq \<noteq> Some j" by auto
  with app_calm [OF W, of rq v ve] run Cons.prems(1)
  have "invar s1" "may_touch (request_target rq) (\<alpha> s) (\<alpha> s1)" unfolding calm_def by blast+
  moreover from this(2) \<open>request_target rq \<noteq> Some j\<close> have "org_view j (\<alpha> s1) = org_view j (\<alpha> s)"
    by (auto simp: may_touch_def others_same_def split: option.splits)
  ultimately show ?case using Cons x run by simp
qed simp

end

section \<open>Reads of an organization that is gone\<close>

fun reads_org :: "endpoint \<Rightarrow> string option" where
  "reads_org (GetOrg k) = Some k"
| "reads_org (ListFormations k) = Some k"
| "reads_org (GetFormation k c) = Some k"
| "reads_org (ListTokens k c) = Some k"
| "reads_org (GetToken k c) = Some k"
| "reads_org (ListSinks k) = Some k"
| "reads_org (GetSink k c) = Some k"
| "reads_org (ListIdps k) = Some k"
| "reads_org (GetIdp k c) = Some k"
| "reads_org (ListRules k) = Some k"
| "reads_org (ListAudit k) = Some k"
| "reads_org (ListPeers k c) = Some k"
| "reads_org (ListDocuments k c) = Some k"
| "reads_org (ListCertificates k c) = Some k"
| "reads_org _ = None"

definition org_gone :: "string \<Rightarrow> abs_store \<Rightarrow> bool" where
  "org_gone k a \<longleftrightarrow> org_view k a =
     (None, Map.empty, Map.empty, Map.empty, Map.empty, Map.empty, Map.empty, Map.empty, Map.empty)"

lemma failed_read:
  assumes "\<exists>e. g s = Inl e"
  shows "\<exists>e. ok_json f not_found (readE g) s = (Inl (404, Inl e), s)"
    "\<exists>e. seqE (mapErrE not_found (readE g)) m s = (Inl (404, Inl e), s)"
  using assms by (auto simp: ok_json_def not_found_def op_defs)

context api_service
begin

lemma gone_reads:
  assumes inv: "invar s" and gone: "org_gone k (\<alpha> s)"
  shows "\<exists>e. get_org M k s = Inl e" "\<exists>e. get_formation M k c s = Inl e" "\<exists>e. get_token M k c s = Inl e"
    "\<exists>e. get_sink M k c s = Inl e" "\<exists>e. get_idp M k c s = Inl e"
proof -
  have "a_orgs (\<alpha> s) k = None" "a_formations (\<alpha> s) (k, c) = None" "a_tokens (\<alpha> s) (k, c) = None"
    "a_sinks (\<alpha> s) (k, c) = None" "a_idps (\<alpha> s) (k, c) = None"
    using gone by (auto simp: org_gone_def org_view_def fun_eq_iff)
  then show "\<exists>e. get_org M k s = Inl e" "\<exists>e. get_formation M k c s = Inl e" "\<exists>e. get_token M k c s = Inl e"
    "\<exists>e. get_sink M k c s = Inl e" "\<exists>e. get_idp M k c s = Inl e"
    using get_org_Inr(1) [OF inv] get_formation_Inr [OF inv] get_token_Inr(1) [OF inv]
      get_sink_Inr(1) [OF inv] get_idp_Inr(1) [OF inv]
    by (metis option.distinct(1) sum.exhaust_sel sum.collapse)+
qed

lemma handle_admin_gone:
  assumes inv: "invar s" and gone: "org_gone k (\<alpha> s)" and W: "gw_tenant_mgr W = M"
    and ep: "reads_org ep = Some k"
  shows "\<exists>e. handle_admin W v q b ep s = (Inl (404, Inl e), s)"
proof -
  note * = gone_reads [OF inv gone]
  obtain e0 where e0: "get_org M k s = Inl e0" using *(1) by blast
  have lists: "\<exists>e. list_formations M k s = Inl e" "\<exists>e. list_tokens M k c s = Inl e" "\<exists>e. list_sinks M k s = Inl e"
    "\<exists>e. list_idps M k s = Inl e" "\<exists>e. list_policy_rules M k s = Inl e" "\<exists>e. list_audit M k f l s = Inl e" for c f l
    by (simp_all add: list_formations_def list_tokens_def list_sinks_def list_idps_def list_policy_rules_def
        list_audit_def e0)
  from ep W * lists show ?thesis
    by (cases ep) (simp_all add: api_handlers failed_read)
qed

end

section \<open>Status codes\<close>

definition error_statuses :: "nat set" where
  "error_statuses = {400, 401, 403, 404, 405, 415, 422, 429, 500}"

text \<open>A handler answers with 200 or 201, or with one of the error statuses.\<close>

definition answers_well :: "(api_error + nat \<times> reply) \<Rightarrow> bool" where
  "answers_well r = (case r of Inl e \<Rightarrow> fst e \<in> error_statuses | Inr x \<Rightarrow> fst x \<in> {200, 201})"

definition fails_well :: "('s, api_error, 'a) op \<Rightarrow> bool" where
  "fails_well m \<longleftrightarrow> (\<forall>s e s'. m s = (Inl e, s') \<longrightarrow> fst e \<in> error_statuses)"

lemma error_constructors [simp]:
  "fst (bad_request e) \<in> error_statuses" "fst (not_found e) \<in> error_statuses"
  "fst (internal e) \<in> error_statuses" "fst (unauthorized m) \<in> error_statuses"
  "fst (forbidden m) \<in> error_statuses" "fst (too_many_requests m) \<in> error_statuses"
  by (simp_all add: error_statuses_def bad_request_def not_found_def internal_def unauthorized_def
      forbidden_def too_many_requests_def)

lemma fails_well_ops [simp]:
  "fails_well (retE x)" "fails_well (readE (\<lambda>s. Inr (g s)))" "fails_well (ignoreE m)"
  "fails_well (mapErrE bad_request m1)" "fails_well (mapErrE internal m1)" "fails_well (mapErrE not_found m1)"
  "fst e \<in> error_statuses \<Longrightarrow> fails_well (failE e)"
  by (auto simp: fails_well_def op_iffs result_iffs bad_request_def not_found_def internal_def
      error_statuses_def)

lemma fails_well_bind:
  "fails_well m \<Longrightarrow> (\<And>x. fails_well (f x)) \<Longrightarrow> fails_well (bindE m f)"
  "fails_well m \<Longrightarrow> fails_well n \<Longrightarrow> fails_well (seqE m n)"
  by (fastforce simp: fails_well_def op_iffs)+

lemma fails_well_lift: "(\<And>e. r = Inl e \<Longrightarrow> fst e \<in> error_statuses) \<Longrightarrow> fails_well (liftE r)"
  by (auto simp: fails_well_def op_iffs)

lemma decide_controlled_fails: "fails_well (decide_controlled H M now k c bearer)"
proof (cases "starts_with bearer ''peat_''")
  case True
  then show ?thesis
    by (auto simp: decide_controlled_def fails_well_def unauthorized_def error_statuses_def
        split: prod.splits sum.splits)
next
  case False
  have "fst e \<in> error_statuses" if "map_err (\<lambda>_. unauthorized m) r = Inl e" for e m and r :: "err + 'z"
    using that by (auto simp: result_iffs)
  with False show ?thesis
    by (auto simp: decide_controlled_def Let_def ok_or_eq_Inl
        intro!: fails_well_bind fails_well_lift)
qed

lemma enroll_fails: "fails_well (enroll K H M v k c auth body)"
proof -
  have "fst e \<in> error_statuses" if "validate_public_key H pk = Inl e" for pk e
    using that by (auto simp: validate_public_key_def split: sum.splits if_splits)
  then have pk: "fails_well (liftE (case Option.bind body er_public_key of
      None \<Rightarrow> Inr () | Some pk \<Rightarrow> validate_public_key H pk))"
    by (auto intro!: fails_well_lift split: option.splits)
  have "fails_well (decide H M now k c auth body pol)" for now pol
    by (cases pol)
       (auto simp: decide_def ok_or_eq_Inl error_statuses_def unauthorized_def
         intro!: fails_well_bind fails_well_lift decide_controlled_fails)
  moreover have "fails_well (settle K H M v k c body d i sub)" for d i sub
    by (cases d) (auto simp: settle_def Let_def fails_well_def op_iffs split: prod.splits)
  ultimately show ?thesis
    unfolding enroll_def using pk by (auto intro!: fails_well_bind)
qed

lemma answers_well_json [simp]:
  "g \<in> {bad_request, not_found} \<Longrightarrow> answers_well (fst (ok_json f g m s))"
  "g \<in> {bad_request, not_found} \<Longrightarrow> answers_well (fst (created_json f g m s))"
  by (auto simp: answers_well_def ok_json_def created_json_def op_defs result_iffs
      error_statuses_def bad_request_def not_found_def split: prod.splits sum.splits)

lemma answers_well_fail [simp]:
  "answers_well (fst (rejected b s))" "answers_well (fst (no_route s))" "answers_well (fst (method_not_allowed s))"
  "answers_well (fst (retE (200, x) s))"
  by (simp_all add: answers_well_def rejected_def no_route_def method_not_allowed_def failE_def retE_def
      error_statuses_def split: body.splits)

lemma answers_well_bind:
  assumes "fails_well m" and "\<And>x t. answers_well (fst (f x t))"
  shows "answers_well (fst (bindE m f s))" "answers_well (fst (seqE m (f x) s))"
proof -
  have *: "answers_well (fst (bindE m g s))" if g: "\<And>x t. answers_well (fst (g x t))" for g
  proof (cases "m s")
    case (Pair r t)
    have "fst e \<in> error_statuses" if "r = Inl e" for e
      using assms(1) Pair that unfolding fails_well_def by blast
    with Pair g show ?thesis by (cases r) (simp_all add: bindE_def answers_well_def)
  qed
  show "answers_well (fst (bindE m f s))" "answers_well (fst (seqE m (f x) s))"
    unfolding seqE_def by (rule *, rule assms(2))+
qed

lemma handle_admin_answers: "answers_well (fst (handle_admin W v q b ep s))"
  by (cases ep)
     (auto simp: api_handlers
       intro!: answers_well_bind split: body.split option.split)

lemma answers_well_admin:
  "answers_well (fst (m s)) \<Longrightarrow> answers_well (fst (require_admin_token expected auth m s))"
  by (simp add: require_admin_token_cases answers_well_def error_statuses_def)

lemma app_answers: "answers_well (fst (app W v ve rq s))"
proof (cases "route (hq_method rq) (hq_path rq)")
  case (Some ep)
  have "answers_well (fst (mapE (\<lambda>r. (200, REnrollment r)) (enroll K H M ve k c auth body) s))" for K H M k c auth body
    using enroll_fails [of K H M ve k c auth body]
    by (auto simp: mapE_def answers_well_def fails_well_def split: prod.splits sum.splits)
       (auto simp: result_iffs)
  then have "answers_well (fst (handle_public W ve rq ep s))"
    by (auto simp: handle_public_def split: endpoint.split)
  then show ?thesis
    by (simp add: app_cases Some answers_well_admin handle_admin_answers)
qed (simp add: app_cases unrouted_def answers_well_admin)

end
