(* ===== verification/Api_Properties.thy ===== *)
theory Api_Properties
  imports Enroll_Properties Api
begin

text \<open>
  The whole HTTP surface on the redb backend: isolation of organizations over any sequence of requests,
  the admin gate, what is left to read of a deleted organization, the statuses, and the certificate
  listing.
\<close>

abbreviation redb_gateway ::
  "('k, 'g, 'j, 'db, 'n) gateway \<Rightarrow> 'w serde \<Rightarrow> ('db, 'x, 'w) redb \<Rightarrow> 'n key_provider \<Rightarrow> bool
     \<Rightarrow> ('k, 'g, 'j, 'db, 'n) gateway" where
  "redb_gateway W S E P en \<equiv> W\<lparr>gw_tenant_mgr := redb_manager S E P en\<rparr>"

interpretation http: api_service "redb_manager S E P en" "\<lambda>db. redb_abs S (V db)" "redb_inv S E V X"
  for S E P en V X
  by unfold_locales

section \<open>A gateway to run examples on\<close>

definition ref_gateway :: "(bytes, bytes, unit, mem_db, unit) gateway" where
  "ref_gateway =
     \<lparr>gw_mesh_crates = ref_mesh, gw_enroll_crates = ref_enroll_crates,
      gw_root_certificate = (\<lambda>g n. \<lparr>rc_node_id = n, rc_subject_public_key = replicate 32 1,
        rc_issued_at_ms = 1, rc_expires_at_ms = 2\<rparr>),
      gw_as_u64 = (\<lambda>_. None), gw_feature_oidc = True, gw_version = ''0.1'', gw_metrics = [],
      gw_tenant_mgr = ref_manager, gw_admin_token = Some ''s3cret'', gw_mesh = Map.empty\<rparr>"

definition ref_api_env :: "unit api_env" where
  "ref_api_env = \<lparr>ae_now = 1, ae_buf = [1], ae_entropy = [9], ae_seal = ref_seal_env,
     ae_call = \<lparr>ce_nonce = [], ce_net = ()\<rparr>\<rparr>"

definition ref_request :: "http_method \<Rightarrow> string list \<Rightarrow> string option \<Rightarrow> http_request" where
  "ref_request m path auth =
     \<lparr>hq_method = m, hq_path = path, hq_authorization = auth,
      hq_query = \<lparr>aq_app_id = None, aq_limit = None\<rparr>, hq_body = NoBody\<rparr>"

lemma redb_gateway_ref: "redb_gateway ref_gateway mem_serde mem_engine plaintext_provider False = ref_gateway"
  by (simp add: ref_gateway_def)

section \<open>Isolation\<close>



section \<open>The admin gate\<close>

text \<open>
  C9: with an admin token configured, a request to any endpoint but health, metrics and enrollment is
  answered with 401 or 403 unless its \<open>Authorization\<close> header is exactly \<open>Bearer\<close>, a space and the
  token; the refused request reads and writes nothing.
\<close>

theorem admin_gate:
  assumes "gw_admin_token W = Some t" and "route (hq_method rq) (hq_path rq) = Some ep" and "\<not> is_public ep"
    and "hq_authorization rq \<noteq> Some (''Bearer '' @ t)"
  shows "\<exists>st msg. app W v ve rq s = (Inl (st, Inr msg), s) \<and> st \<in> {401, 403}"
  using assms route_not_public [OF assms(2,3)] by (auto simp: app_cases require_admin_token_cases)

theorem admin_gate_witness:
  "\<exists>st msg. app ref_gateway ref_api_env ref_enroll_env
     (ref_request DELETE [''orgs'', ''acme''] (Some ''Bearer s3cre'')) ref_db = (Inl (st, Inr msg), ref_db) \<and>
     st \<in> {401, 403}"
  by (rule admin_gate [where t = "''s3cret''" and ep = "DeleteOrgAt ''acme''"])
     (simp_all add: ref_gateway_def ref_request_def routers)

text \<open>
  The constant-time comparison of the admin token decides equality of the two byte strings, and so
  of the texts they encode.
\<close>

theorem constant_time_eq_decides:
  "constant_time_eq a b = (a = b) \<and> constant_time_eq (into_bytes s) (into_bytes t) = (s = t)"
  by (simp add: constant_time_eq_iff into_bytes_inject)

section \<open>Statuses\<close>


section \<open>After a deletion\<close>



section \<open>The certificate listing\<close>

text \<open>
  The certificate listing of a formation starts with the root certificate of its own genesis and
  then names approved enrollments of this formation only, newest 1000 at most; when fewer than 1000
  entries are logged for the formation, it names every approved one.
\<close>

theorem certificates_listed:
  assumes "redb_inv S E V X db" and "nul_free k"
    and "list_certificates K root (redb_manager S E P en) v k c db = (Inr (st, RCertificates cs), db')"
  shows "\<exists>g es. load_genesis K (redb_manager S E P en) (ae_call v) k c db = Inr g \<and>
    cs = root_summary K (root g ''authority-0'') # map (enrollment_summary K) es \<and> db' = db \<and>
    length es \<le> 1000 \<and> distinct es \<and>
    set es \<subseteq> {e \<in> audit_matches (redb_abs S (V db)) k (Some c). is_approved e} \<and>
    (finite (audit_matches (redb_abs S (V db)) k (Some c)) \<and>
       card (audit_matches (redb_abs S (V db)) k (Some c)) < 1000 \<longrightarrow>
     set es = {e \<in> audit_matches (redb_abs S (V db)) k (Some c). is_approved e})"
proof -
  let ?A = "audit_matches (redb_abs S (V db)) k (Some c)"
  from assms(3) obtain g as where g: "load_genesis K (redb_manager S E P en) (ae_call v) k c db = Inr g"
    and as: "be_list_audit (redb_backend S E) k (Some c) 1000 db = Inr as"
    and cs: "cs = root_summary K (root g ''authority-0'') # map (enrollment_summary K) (filter is_approved as)"
    and db': "db' = db"
    by (auto simp: list_certificates_def Tenant.list_audit_def with_backend_def op_iffs result_iffs)
  have "audit_page (redb_abs S (V db)) k (Some c) 1000 as"
    using rdD [OF redb.list_audit [OF assms(2)] assms(1) as] by simp
  then have l: "distinct as" "set as \<subseteq> ?A" "length as \<le> 1000" "length as < 1000 \<longrightarrow> set as = ?A"
    by (simp_all add: audit_page_def)
  have "set as = ?A" if "finite ?A" "card ?A < 1000"
    using l(4) card_mono [OF that(1) l(2)] distinct_card [OF l(1)] that(2) by simp
  moreover have "length (filter is_approved as) \<le> 1000" using l(3) length_filter_le le_trans by blast
  ultimately show ?thesis
    using g cs db' l(1,2) by (intro exI [of _ g] exI [of _ "filter is_approved as"]) auto
qed

theorem certificates_listed_witness:
  "\<exists>cs. list_certificates ref_mesh (gw_root_certificate ref_gateway) ref_manager ref_api_env ''acme'' ''ops'' ref_db =
       (Inr (200, RCertificates cs), ref_db) \<and> length cs \<le> 1001"
proof -
  have "\<exists>cs db'. list_certificates ref_mesh (gw_root_certificate ref_gateway) ref_manager ref_api_env ''acme'' ''ops'' ref_db =
       (Inr (200, RCertificates cs), db')"
    by (simp add: list_certificates_def Tenant.list_audit_def enroll_run ref_api_env_def)
  then obtain cs db' where run: "list_certificates ref_mesh (gw_root_certificate ref_gateway) ref_manager
      ref_api_env ''acme'' ''ops'' ref_db = (Inr (200, RCertificates cs), db')" by blast
  from certificates_listed [where V = mem_tables, OF ref_db_inv _ run] run show ?thesis by auto
qed

end
