(* ===== verification/Cdc_Test.thy ===== *)
theory Cdc_Test
  imports Delivery Api_Properties
begin

text \<open>
  The test endpoint of change data capture (\<open>src/api/cdc_test.rs\<close>, feature \<open>loadtest\<close>): it publishes an event of
  the caller's making to the sinks of an organization. The random number of the event's hash and the clock are
  arguments.
\<close>

section \<open>The endpoint\<close>

record 'j test_event_payload =
  te_app_id :: string
  te_document_id :: string
  te_actor_id :: "string option"
  te_patches :: "'j json option"

definition default_actor :: string where
  "default_actor = ''test-actor''"

text \<open>\<open>u64::to_le_bytes\<close>.\<close>

definition u64_to_le_bytes :: "u64 \<Rightarrow> bytes" where
  "u64_to_le_bytes x = map (\<lambda>i. ucast (drop_bit (8 * i) x)) [0..<8]"

record cdc_test_env =
  ct_next_u64 :: u64
  ct_now :: u64

definition test_change_hash :: "(bytes \<Rightarrow> string) \<Rightarrow> cdc_test_env \<Rightarrow> string" where
  "test_change_hash hex v = ''test-'' @ hex (u64_to_le_bytes (ct_next_u64 v))"

definition test_event ::
  "(bytes \<Rightarrow> string) \<Rightarrow> cdc_test_env \<Rightarrow> string \<Rightarrow> 'j test_event_payload \<Rightarrow> 'j cdc_event" where
  "test_event hex v org_id payload =
     \<lparr>ev_org_id = org_id, ev_app_id = te_app_id payload, ev_document_id = te_document_id payload,
      ev_change_hash = test_change_hash hex v, ev_actor_id = unwrap_or (te_actor_id payload) default_actor,
      ev_timestamp_ms = ct_now v, ev_patches = unwrap_or (te_patches payload) JNull\<rparr>"

definition publish_test_event ::
  "(bytes \<Rightarrow> string) \<Rightarrow> ('w, 'j) net \<Rightarrow> ('s, 'n) tenant_manager \<Rightarrow> ('s, 'n) cdc_engine \<Rightarrow> cdc_test_env \<Rightarrow> string
     \<Rightarrow> 'j test_event_payload \<Rightarrow> ('s, 'w) cdc_state handler" where
  "publish_test_event hex N M G v org_id payload =
     seqE (mapErrE not_found (on_store (readE (Tenant.get_org M org_id))))
       (mapErrE internal
         (mapE (\<lambda>_. (200, RPublished (test_change_hash hex v))) (publish N G (test_event hex v org_id payload))))"

text \<open>The router: the organization of a path that is routed here.\<close>

definition cdc_test_router :: "string list \<Rightarrow> string option" where
  "cdc_test_router path =
     (case path of
        [o', k, x, y] \<Rightarrow> if o' = ''orgs'' \<and> x = ''cdc'' \<and> y = ''test'' then Some k else None
      | _ \<Rightarrow> None)"

lemma cdc_test_router_Some: "cdc_test_router path = Some k \<longleftrightarrow> path = [''orgs'', k, ''cdc'', ''test'']"
  by (auto simp: cdc_test_router_def split: list.splits if_splits)

text \<open>No other router takes a path of the test endpoint.\<close>

lemma cdc_test_apart:
  assumes "cdc_test_router path = Some k"
  shows "route m path = None" "\<not> known_path admin_routes path" "\<not> known_path public_routes path"
  using assms by (auto simp: cdc_test_router_Some routers known_path_def)

section \<open>What it does\<close>

lemma publish_test_event_eq:
  "publish_test_event hex N M G v k payload s =
     (case Tenant.get_org M k (cs_store s) of
        Inl e \<Rightarrow> (Inl (404, Inl e), s)
      | Inr _ \<Rightarrow>
          (case publish N G (test_event hex v k payload) s of
             (Inl e, s') \<Rightarrow> (Inl (500, Inl e), s')
           | (Inr _, s') \<Rightarrow> (Inr (200, RPublished (test_change_hash hex v)), s')))"
  by (auto simp: publish_test_event_def on_store_def op_defs not_found_def internal_def result_iffs
      split: sum.splits prod.splits)

lemma publish_test_event_store [simp]: "cs_store (snd (publish_test_event hex N M G v k payload s)) = cs_store s"
  by (auto simp: publish_test_event_eq publish_eq split: sum.splits prod.splits)

context cdc_service
begin

lemma publish_test_event_due:
  assumes "invar (cs_store s)" and "publish_test_event hex N M G v k payload s = (r, s')"
  shows "only_calls (call_due (rows_of (a_sinks (\<alpha> (cs_store s))) k) (test_event hex v k payload)) s s'"
  using assms(2) publish_due [OF assms(1), of "test_event hex v k payload" N]
  by (auto simp: publish_test_event_eq test_event_def split: sum.splits prod.splits)

end

end
