(* ===== verification/Postgres.thy ===== *)
theory Postgres
  imports Storage "HOL-Library.Multiset"
begin

text \<open>
  The Postgres backend (\<open>src/storage/postgres.rs\<close>): every method is one SQL statement. The statements
  are data here (table, columns, the values bound to \<open>$1\<close>, \<open>$2\<close>, \dots), and what runs them, sqlx and the server,
  is a parameter: the record \<open>postgres\<close>, with the documented meaning of the statements as the locale
  \<open>sql_engine\<close>. Either may fail at any time.
\<close>

section \<open>Statements\<close>

datatype pg_table =
    Orgs | Formations | Enrollment_tokens | Cdc_sinks | Cdc_cursors | Idp_configs | Policy_rules
  | Genesis | Enrollment_audit

text \<open>A column's value: text, a big integer, or a JSON or byte value of the codec's type.\<close>

datatype 'w cell = Text string | BigInt u64 | Data 'w

type_synonym 'w row = "(string \<times> 'w cell) list"

datatype 'w statement =
    CreateTable pg_table "string list" "string list"   \<comment> \<open>columns, primary key\<close>
  | InsertRow pg_table "'w row"
  | UpsertRow pg_table "'w row" string       \<comment> \<open>on conflict of the primary key update this column\<close>
  | SetColumn pg_table string "'w cell" "'w row"   \<comment> \<open>column, value, condition\<close>
  | DeleteRows pg_table "'w row"

datatype order_by = Asc string | Desc string

record 'w query =
  qy_column :: string
  qy_table :: pg_table
  qy_where :: "'w row"
  qy_order :: "order_by option"
  qy_limit :: "u64 option"      \<comment> \<open>bound as \<open>i64\<close>\<close>

record ('db, 'w) postgres =
  pg_open :: "string \<Rightarrow> err + unit"
  pg_execute :: "'w statement \<Rightarrow> ('db, err, nat) op"      \<comment> \<open>rows affected\<close>
  pg_fetch :: "'w query \<Rightarrow> 'db \<Rightarrow> err + 'w cell list"      \<comment> \<open>the selected column of each row\<close>

section \<open>Connecting\<close>

definition pg_columns :: "pg_table \<Rightarrow> string list" where
  "pg_columns t =
     (case t of
        Orgs \<Rightarrow> [''org_id'', ''data'']
      | Formations \<Rightarrow> [''org_id'', ''app_id'', ''data'']
      | Enrollment_tokens \<Rightarrow> [''org_id'', ''token_id'', ''data'']
      | Cdc_sinks \<Rightarrow> [''org_id'', ''sink_id'', ''data'']
      | Cdc_cursors \<Rightarrow> [''org_id'', ''app_id'', ''document_id'', ''change_hash'']
      | Idp_configs \<Rightarrow> [''org_id'', ''idp_id'', ''data'']
      | Policy_rules \<Rightarrow> [''org_id'', ''rule_id'', ''data'']
      | Genesis \<Rightarrow> [''org_id'', ''app_id'', ''data'']
      | Enrollment_audit \<Rightarrow> [''org_id'', ''audit_id'', ''app_id'', ''timestamp_ms'', ''data''])"

definition pkey :: "pg_table \<Rightarrow> string list" where
  "pkey t =
     (case t of
        Orgs \<Rightarrow> [''org_id'']
      | Formations \<Rightarrow> [''org_id'', ''app_id'']
      | Enrollment_tokens \<Rightarrow> [''org_id'', ''token_id'']
      | Cdc_sinks \<Rightarrow> [''org_id'', ''sink_id'']
      | Cdc_cursors \<Rightarrow> [''org_id'', ''app_id'', ''document_id'']
      | Idp_configs \<Rightarrow> [''org_id'', ''idp_id'']
      | Policy_rules \<Rightarrow> [''org_id'', ''rule_id'']
      | Genesis \<Rightarrow> [''org_id'', ''app_id'']
      | Enrollment_audit \<Rightarrow> [''org_id'', ''audit_id''])"

text \<open>Every table but \<open>orgs\<close> refers to it with \<open>ON DELETE CASCADE\<close>.\<close>

definition migrations :: "'w statement list" where
  "migrations =
     map (\<lambda>t. CreateTable t (pg_columns t) (pkey t))
       [Orgs, Formations, Enrollment_tokens, Cdc_sinks, Cdc_cursors, Idp_configs, Policy_rules, Genesis,
        Enrollment_audit]"

primrec run_statements :: "('db, 'w) postgres \<Rightarrow> 'w statement list \<Rightarrow> ('db, err, unit) op" where
  "run_statements E [] = retE ()"
| "run_statements E (st # sts) = seqE (pg_execute E st) (run_statements E sts)"

definition connect :: "('db, 'w) postgres \<Rightarrow> string \<Rightarrow> ('db, err, unit) op" where
  "connect E url = seqE (liftE (pg_open E url)) (run_statements E migrations)"

section \<open>The shapes of the methods\<close>

definition pg_write :: "('db, 'w) postgres \<Rightarrow> 'w statement \<Rightarrow> ('db, err, unit) op" where
  "pg_write E st = mapE (\<lambda>_. ()) (pg_execute E st)"

definition pg_affected :: "('db, 'w) postgres \<Rightarrow> 'w statement \<Rightarrow> ('db, err, bool) op" where
  "pg_affected E st = mapE (\<lambda>n. 0 < n) (pg_execute E st)"

text \<open>\<open>row.get\<close> panics when the column has another type.\<close>

fun data_cell :: "'w cell \<Rightarrow> err + 'w" where
  "data_cell (Data w) = Inr w"
| "data_cell _ = Inl (Panic ''row.get'')"

fun text_cell :: "'w cell \<Rightarrow> err + string" where
  "text_cell (Text s) = Inr s"
| "text_cell _ = Inl (Panic ''row.get'')"

definition fetch_optional :: "('db, 'w) postgres \<Rightarrow> 'w query \<Rightarrow> ('w cell \<Rightarrow> err + 'a) \<Rightarrow> 'db \<Rightarrow> err + 'a option" where
  "fetch_optional E q f db =
     bindR (pg_fetch E q db) (\<lambda>cs. case cs of [] \<Rightarrow> Inr None | c # _ \<Rightarrow> mapR Some (f c))"

fun traverse :: "('b \<Rightarrow> err + 'a) \<Rightarrow> 'b list \<Rightarrow> err + 'a list" where
  "traverse f [] = Inr []"
| "traverse f (c # cs) = bindR (f c) (\<lambda>x. mapR (\<lambda>xs. x # xs) (traverse f cs))"

definition fetch_rows :: "('db, 'w) postgres \<Rightarrow> 'w query \<Rightarrow> ('w cell \<Rightarrow> err + 'a) \<Rightarrow> 'db \<Rightarrow> err + 'a list" where
  "fetch_rows E q f db = bindR (pg_fetch E q db) (traverse f)"

definition from_value :: "('w \<Rightarrow> err + 'a) \<Rightarrow> 'w cell \<Rightarrow> err + 'a" where
  "from_value de c = bindR (data_cell c) de"

text \<open>\<open>SELECT data FROM t WHERE \dots\<close>\<close>

definition select_data :: "pg_table \<Rightarrow> 'w row \<Rightarrow> order_by option \<Rightarrow> u64 option \<Rightarrow> 'w query" where
  "select_data t cond ord lim =
     \<lparr>qy_column = ''data'', qy_table = t, qy_where = cond, qy_order = ord, qy_limit = lim\<rparr>"

definition pg_insert ::
  "('db, 'w) postgres \<Rightarrow> pg_table \<Rightarrow> 'w row \<Rightarrow> (err + 'w) \<Rightarrow> ('db, err, unit) op" where
  "pg_insert E t cols value =
     bindE (liftE value) (\<lambda>data. pg_write E (InsertRow t (cols @ [(''data'', Data data)])))"

definition pg_update ::
  "('db, 'w) postgres \<Rightarrow> pg_table \<Rightarrow> 'w row \<Rightarrow> (err + 'w) \<Rightarrow> ('db, err, unit) op" where
  "pg_update E t cond value =
     bindE (liftE value) (\<lambda>data. pg_write E (SetColumn t ''data'' (Data data) cond))"

section \<open>The methods\<close>

definition pg_create_org :: "'w serde \<Rightarrow> ('db, 'w) postgres \<Rightarrow> organization \<Rightarrow> ('db, err, unit) op" where
  "pg_create_org S E org = pg_insert E Orgs [(''org_id'', Text (org_org_id org))] (ser_org S org)"

definition pg_get_org :: "'w serde \<Rightarrow> ('db, 'w) postgres \<Rightarrow> string \<Rightarrow> 'db \<Rightarrow> err + organization option" where
  "pg_get_org S E org_id =
     fetch_optional E (select_data Orgs [(''org_id'', Text org_id)] None None) (from_value (de_org S))"

definition pg_list_orgs :: "'w serde \<Rightarrow> ('db, 'w) postgres \<Rightarrow> 'db \<Rightarrow> err + organization list" where
  "pg_list_orgs S E =
     fetch_rows E (select_data Orgs [] (Some (Asc ''org_id'')) None) (from_value (de_org S))"

definition pg_update_org :: "'w serde \<Rightarrow> ('db, 'w) postgres \<Rightarrow> organization \<Rightarrow> ('db, err, unit) op" where
  "pg_update_org S E org = pg_update E Orgs [(''org_id'', Text (org_org_id org))] (ser_org S org)"

definition pg_delete_org :: "('db, 'w) postgres \<Rightarrow> string \<Rightarrow> ('db, err, bool) op" where
  "pg_delete_org E org_id = pg_affected E (DeleteRows Orgs [(''org_id'', Text org_id)])"

definition pg_create_formation ::
  "'w serde \<Rightarrow> ('db, 'w) postgres \<Rightarrow> string \<Rightarrow> formation_config \<Rightarrow> ('db, err, unit) op" where
  "pg_create_formation S E org_id formation =
     pg_insert E Formations [(''org_id'', Text org_id), (''app_id'', Text (form_app_id formation))]
       (ser_formation S formation)"

definition pg_get_formation ::
  "'w serde \<Rightarrow> ('db, 'w) postgres \<Rightarrow> string \<Rightarrow> string \<Rightarrow> 'db \<Rightarrow> err + formation_config option" where
  "pg_get_formation S E org_id app_id =
     fetch_optional E (select_data Formations [(''org_id'', Text org_id), (''app_id'', Text app_id)] None None)
       (from_value (de_formation S))"

definition pg_list_formations ::
  "'w serde \<Rightarrow> ('db, 'w) postgres \<Rightarrow> string \<Rightarrow> 'db \<Rightarrow> err + formation_config list" where
  "pg_list_formations S E org_id =
     fetch_rows E (select_data Formations [(''org_id'', Text org_id)] (Some (Asc ''app_id'')) None)
       (from_value (de_formation S))"

definition pg_delete_formation :: "('db, 'w) postgres \<Rightarrow> string \<Rightarrow> string \<Rightarrow> ('db, err, bool) op" where
  "pg_delete_formation E org_id app_id =
     pg_affected E (DeleteRows Formations [(''org_id'', Text org_id), (''app_id'', Text app_id)])"

definition pg_create_token :: "'w serde \<Rightarrow> ('db, 'w) postgres \<Rightarrow> enrollment_token \<Rightarrow> ('db, err, unit) op" where
  "pg_create_token S E token =
     pg_insert E Enrollment_tokens
       [(''org_id'', Text (tok_org_id token)), (''token_id'', Text (tok_token_id token))] (ser_token S token)"

definition pg_get_token ::
  "'w serde \<Rightarrow> ('db, 'w) postgres \<Rightarrow> string \<Rightarrow> string \<Rightarrow> 'db \<Rightarrow> err + enrollment_token option" where
  "pg_get_token S E org_id token_id =
     fetch_optional E
       (select_data Enrollment_tokens [(''org_id'', Text org_id), (''token_id'', Text token_id)] None None)
       (from_value (de_token S))"

definition pg_list_tokens ::
  "'w serde \<Rightarrow> ('db, 'w) postgres \<Rightarrow> string \<Rightarrow> string \<Rightarrow> 'db \<Rightarrow> err + enrollment_token list" where
  "pg_list_tokens S E org_id app_id db =
     mapR (filter (\<lambda>t. tok_app_id t = app_id))
       (fetch_rows E (select_data Enrollment_tokens [(''org_id'', Text org_id)] (Some (Asc ''token_id'')) None)
          (from_value (de_token S)) db)"

definition pg_update_token :: "'w serde \<Rightarrow> ('db, 'w) postgres \<Rightarrow> enrollment_token \<Rightarrow> ('db, err, unit) op" where
  "pg_update_token S E token =
     pg_update E Enrollment_tokens
       [(''org_id'', Text (tok_org_id token)), (''token_id'', Text (tok_token_id token))] (ser_token S token)"

definition pg_delete_token :: "('db, 'w) postgres \<Rightarrow> string \<Rightarrow> string \<Rightarrow> ('db, err, bool) op" where
  "pg_delete_token E org_id token_id =
     pg_affected E (DeleteRows Enrollment_tokens [(''org_id'', Text org_id), (''token_id'', Text token_id)])"

definition pg_create_sink :: "'w serde \<Rightarrow> ('db, 'w) postgres \<Rightarrow> cdc_sink_config \<Rightarrow> ('db, err, unit) op" where
  "pg_create_sink S E sink =
     pg_insert E Cdc_sinks
       [(''org_id'', Text (sink_org_id sink)), (''sink_id'', Text (sink_sink_id sink))] (ser_sink S sink)"

definition pg_get_sink ::
  "'w serde \<Rightarrow> ('db, 'w) postgres \<Rightarrow> string \<Rightarrow> string \<Rightarrow> 'db \<Rightarrow> err + cdc_sink_config option" where
  "pg_get_sink S E org_id sink_id =
     fetch_optional E (select_data Cdc_sinks [(''org_id'', Text org_id), (''sink_id'', Text sink_id)] None None)
       (from_value (de_sink S))"

definition pg_list_sinks ::
  "'w serde \<Rightarrow> ('db, 'w) postgres \<Rightarrow> string \<Rightarrow> 'db \<Rightarrow> err + cdc_sink_config list" where
  "pg_list_sinks S E org_id =
     fetch_rows E (select_data Cdc_sinks [(''org_id'', Text org_id)] (Some (Asc ''sink_id'')) None)
       (from_value (de_sink S))"

definition pg_update_sink :: "'w serde \<Rightarrow> ('db, 'w) postgres \<Rightarrow> cdc_sink_config \<Rightarrow> ('db, err, unit) op" where
  "pg_update_sink S E sink =
     pg_update E Cdc_sinks
       [(''org_id'', Text (sink_org_id sink)), (''sink_id'', Text (sink_sink_id sink))] (ser_sink S sink)"

definition pg_delete_sink :: "('db, 'w) postgres \<Rightarrow> string \<Rightarrow> string \<Rightarrow> ('db, err, bool) op" where
  "pg_delete_sink E org_id sink_id =
     pg_affected E (DeleteRows Cdc_sinks [(''org_id'', Text org_id), (''sink_id'', Text sink_id)])"

definition pg_create_idp :: "'w serde \<Rightarrow> ('db, 'w) postgres \<Rightarrow> idp_config \<Rightarrow> ('db, err, unit) op" where
  "pg_create_idp S E idp =
     pg_insert E Idp_configs
       [(''org_id'', Text (idp_org_id idp)), (''idp_id'', Text (idp_idp_id idp))] (ser_idp S idp)"

definition pg_get_idp ::
  "'w serde \<Rightarrow> ('db, 'w) postgres \<Rightarrow> string \<Rightarrow> string \<Rightarrow> 'db \<Rightarrow> err + idp_config option" where
  "pg_get_idp S E org_id idp_id =
     fetch_optional E (select_data Idp_configs [(''org_id'', Text org_id), (''idp_id'', Text idp_id)] None None)
       (from_value (de_idp S))"

definition pg_list_idps :: "'w serde \<Rightarrow> ('db, 'w) postgres \<Rightarrow> string \<Rightarrow> 'db \<Rightarrow> err + idp_config list" where
  "pg_list_idps S E org_id =
     fetch_rows E (select_data Idp_configs [(''org_id'', Text org_id)] (Some (Asc ''idp_id'')) None)
       (from_value (de_idp S))"

definition pg_update_idp :: "'w serde \<Rightarrow> ('db, 'w) postgres \<Rightarrow> idp_config \<Rightarrow> ('db, err, unit) op" where
  "pg_update_idp S E idp =
     pg_update E Idp_configs
       [(''org_id'', Text (idp_org_id idp)), (''idp_id'', Text (idp_idp_id idp))] (ser_idp S idp)"

definition pg_delete_idp :: "('db, 'w) postgres \<Rightarrow> string \<Rightarrow> string \<Rightarrow> ('db, err, bool) op" where
  "pg_delete_idp E org_id idp_id =
     pg_affected E (DeleteRows Idp_configs [(''org_id'', Text org_id), (''idp_id'', Text idp_id)])"

definition pg_create_policy_rule :: "'w serde \<Rightarrow> ('db, 'w) postgres \<Rightarrow> policy_rule \<Rightarrow> ('db, err, unit) op" where
  "pg_create_policy_rule S E rule =
     pg_insert E Policy_rules
       [(''org_id'', Text (rule_org_id rule)), (''rule_id'', Text (rule_rule_id rule))] (ser_rule S rule)"

definition pg_list_policy_rules ::
  "'w serde \<Rightarrow> ('db, 'w) postgres \<Rightarrow> string \<Rightarrow> 'db \<Rightarrow> err + policy_rule list" where
  "pg_list_policy_rules S E org_id =
     fetch_rows E (select_data Policy_rules [(''org_id'', Text org_id)] (Some (Asc ''rule_id'')) None)
       (from_value (de_rule S))"

definition pg_delete_policy_rule :: "('db, 'w) postgres \<Rightarrow> string \<Rightarrow> string \<Rightarrow> ('db, err, bool) op" where
  "pg_delete_policy_rule E org_id rule_id =
     pg_affected E (DeleteRows Policy_rules [(''org_id'', Text org_id), (''rule_id'', Text rule_id)])"

text \<open>\<open>timestamp_ms as i64\<close> and \<open>limit as i64\<close> keep the 64 bits and read them signed.\<close>

definition pg_append_audit :: "'w serde \<Rightarrow> ('db, 'w) postgres \<Rightarrow> audit_entry \<Rightarrow> ('db, err, unit) op" where
  "pg_append_audit S E entry =
     pg_insert E Enrollment_audit
       [(''org_id'', Text (aud_org_id entry)), (''audit_id'', Text (aud_audit_id entry)),
        (''app_id'', Text (aud_app_id entry)), (''timestamp_ms'', BigInt (aud_timestamp_ms entry))]
       (ser_audit S entry)"

definition pg_list_audit ::
  "'w serde \<Rightarrow> ('db, 'w) postgres \<Rightarrow> string \<Rightarrow> string option \<Rightarrow> nat \<Rightarrow> 'db \<Rightarrow> err + audit_entry list" where
  "pg_list_audit S E org_id app_id limit =
     fetch_rows E
       (select_data Enrollment_audit
          (case app_id of
             Some a \<Rightarrow> [(''org_id'', Text org_id), (''app_id'', Text a)]
           | None \<Rightarrow> [(''org_id'', Text org_id)])
          (Some (Desc ''timestamp_ms'')) (Some (of_nat limit)))
       (from_value (de_audit S))"

definition pg_store_genesis ::
  "'w serde \<Rightarrow> ('db, 'w) postgres \<Rightarrow> string \<Rightarrow> string \<Rightarrow> bytes \<Rightarrow> ('db, err, unit) op" where
  "pg_store_genesis S E org_id app_id encoded =
     pg_write E (UpsertRow Genesis
       [(''org_id'', Text org_id), (''app_id'', Text app_id), (''data'', Data (val_bytes S encoded))] ''data'')"

definition pg_get_genesis ::
  "'w serde \<Rightarrow> ('db, 'w) postgres \<Rightarrow> string \<Rightarrow> string \<Rightarrow> 'db \<Rightarrow> err + bytes option" where
  "pg_get_genesis S E org_id app_id =
     fetch_optional E (select_data Genesis [(''org_id'', Text org_id), (''app_id'', Text app_id)] None None)
       (from_value (\<lambda>w. Inr (bytes_val S w)))"

definition pg_delete_genesis :: "('db, 'w) postgres \<Rightarrow> string \<Rightarrow> string \<Rightarrow> ('db, err, bool) op" where
  "pg_delete_genesis E org_id app_id =
     pg_affected E (DeleteRows Genesis [(''org_id'', Text org_id), (''app_id'', Text app_id)])"

definition pg_get_cursor ::
  "('db, 'w) postgres \<Rightarrow> string \<Rightarrow> string \<Rightarrow> string \<Rightarrow> 'db \<Rightarrow> err + string option" where
  "pg_get_cursor E org_id app_id document_id =
     fetch_optional E
       \<lparr>qy_column = ''change_hash'', qy_table = Cdc_cursors,
        qy_where = [(''org_id'', Text org_id), (''app_id'', Text app_id), (''document_id'', Text document_id)],
        qy_order = None, qy_limit = None\<rparr> text_cell"

definition pg_set_cursor ::
  "('db, 'w) postgres \<Rightarrow> string \<Rightarrow> string \<Rightarrow> string \<Rightarrow> string \<Rightarrow> ('db, err, unit) op" where
  "pg_set_cursor E org_id app_id document_id change_hash =
     pg_write E (UpsertRow Cdc_cursors
       [(''org_id'', Text org_id), (''app_id'', Text app_id), (''document_id'', Text document_id),
        (''change_hash'', Text change_hash)] ''change_hash'')"

definition postgres_backend :: "'w serde \<Rightarrow> ('db, 'w) postgres \<Rightarrow> 'db backend" where
  "postgres_backend S E =
     \<lparr>be_create_org = pg_create_org S E, be_get_org = pg_get_org S E, be_list_orgs = pg_list_orgs S E,
      be_update_org = pg_update_org S E, be_delete_org = pg_delete_org E,
      be_create_formation = pg_create_formation S E, be_get_formation = pg_get_formation S E,
      be_list_formations = pg_list_formations S E, be_delete_formation = pg_delete_formation E,
      be_create_token = pg_create_token S E, be_get_token = pg_get_token S E,
      be_list_tokens = pg_list_tokens S E, be_update_token = pg_update_token S E,
      be_delete_token = pg_delete_token E, be_create_sink = pg_create_sink S E,
      be_get_sink = pg_get_sink S E, be_list_sinks = pg_list_sinks S E, be_update_sink = pg_update_sink S E,
      be_delete_sink = pg_delete_sink E, be_create_idp = pg_create_idp S E, be_get_idp = pg_get_idp S E,
      be_list_idps = pg_list_idps S E, be_update_idp = pg_update_idp S E, be_delete_idp = pg_delete_idp E,
      be_create_policy_rule = pg_create_policy_rule S E, be_list_policy_rules = pg_list_policy_rules S E,
      be_delete_policy_rule = pg_delete_policy_rule E, be_append_audit = pg_append_audit S E,
      be_list_audit = pg_list_audit S E, be_store_genesis = pg_store_genesis S E,
      be_get_genesis = pg_get_genesis S E, be_delete_genesis = pg_delete_genesis E,
      be_get_cursor = pg_get_cursor E, be_set_cursor = pg_set_cursor E\<rparr>"

section \<open>What the statements mean\<close>

text \<open>The contents of the tables, and a row that meets a condition.\<close>

type_synonym 'w tables = "pg_table \<Rightarrow> 'w row list"

definition holds :: "'w row \<Rightarrow> 'w row \<Rightarrow> bool" where
  "holds cond r = list_all (\<lambda>(c, v). map_of r c = Some v) cond"

definition row_key :: "pg_table \<Rightarrow> 'w row \<Rightarrow> 'w cell option list" where
  "row_key t r = map (map_of r) (pkey t)"

definition set_column :: "string \<Rightarrow> 'w cell \<Rightarrow> 'w row \<Rightarrow> 'w row" where
  "set_column c v r = map (\<lambda>(d, u). (d, if d = c then v else u)) r"

definition references_org :: "'w tables \<Rightarrow> 'w row \<Rightarrow> bool" where
  "references_org tabs r = list_ex (\<lambda>o'. map_of o' ''org_id'' = map_of r ''org_id'') (tabs Orgs)"

text \<open>
  A statement's effect and the number of rows it affects; \<open>None\<close> when a constraint is violated. The
  server runs each statement atomically.
\<close>

fun sql_exec :: "'w statement \<Rightarrow> 'w tables \<Rightarrow> (nat \<times> 'w tables) option" where
  "sql_exec (CreateTable t cols key) tabs = Some (0, tabs)"
| "sql_exec (InsertRow t r) tabs =
     (if list_ex (\<lambda>x. row_key t x = row_key t r) (tabs t) \<or> (t \<noteq> Orgs \<and> \<not> references_org tabs r) then None
      else Some (1, tabs(t := tabs t @ [r])))"
| "sql_exec (UpsertRow t r c) tabs =
     (if list_ex (\<lambda>x. row_key t x = row_key t r) (tabs t)
      then Some (1, tabs(t := map (\<lambda>x. if row_key t x = row_key t r
                                        then (case map_of r c of Some v \<Rightarrow> set_column c v x | None \<Rightarrow> x)
                                        else x) (tabs t)))
      else if t \<noteq> Orgs \<and> \<not> references_org tabs r then None
      else Some (1, tabs(t := tabs t @ [r])))"
| "sql_exec (SetColumn t c v cond) tabs =
     Some (length (filter (holds cond) (tabs t)),
           tabs(t := map (\<lambda>x. if holds cond x then set_column c v x else x) (tabs t)))"
| "sql_exec (DeleteRows t cond) tabs =
     (let gone = filter (holds cond) (tabs t)
      in Some (length gone,
           if t = Orgs
           then (\<lambda>u. if u = Orgs then filter (\<lambda>x. \<not> holds cond x) (tabs Orgs)
                       else filter (\<lambda>x. \<not> list_ex (\<lambda>g. map_of g ''org_id'' = map_of x ''org_id'') gone) (tabs u))
           else tabs(t := filter (\<lambda>x. \<not> holds cond x) (tabs t))))"

text \<open>
  A query's answer: the rows that meet the condition in some order, sorted when a big integer is sorted
  by (text is sorted by the server's collation, on which nothing depends), cut to the limit, which must
  not be negative.
\<close>

definition in_order :: "order_by option \<Rightarrow> 'w row list \<Rightarrow> bool" where
  "in_order ord rs =
     (case ord of
        Some (Desc c) \<Rightarrow>
          sorted_wrt (\<lambda>x y. case (map_of x c, map_of y c) of
            (Some (BigInt a), Some (BigInt b)) \<Rightarrow> sint b \<le> sint a | _ \<Rightarrow> True) rs
      | _ \<Rightarrow> True)"

definition sql_select :: "'w query \<Rightarrow> 'w tables \<Rightarrow> 'w cell list \<Rightarrow> bool" where
  "sql_select q tabs cs \<longleftrightarrow>
     (\<exists>rs. mset rs = mset (filter (holds (qy_where q)) (tabs (qy_table q))) \<and> in_order (qy_order q) rs \<and>
       (case qy_limit q of
          None \<Rightarrow> map (\<lambda>r. map_of r (qy_column q)) rs = map Some cs
        | Some l \<Rightarrow> 0 \<le> sint l \<and> map (\<lambda>r. map_of r (qy_column q)) (take (unat l) rs) = map Some cs))"

locale sql_engine =
  fixes E :: "('db, 'w) postgres" and V :: "'db \<Rightarrow> 'w tables"
  assumes execute_ok: "pg_execute E st db = (Inr n, db') \<Longrightarrow> sql_exec st (V db) = Some (n, V db')"
    and execute_failed: "pg_execute E st db = (Inl e, db') \<Longrightarrow> V db' = V db"
    and fetch: "pg_fetch E q db = Inr cs \<Longrightarrow> sql_select q (V db) cs"

end
