(* ===== verification/Pg_Rows.thy ===== *)
theory Pg_Rows
  imports Postgres
begin

text \<open>
  What the statements of the Postgres backend do to a table, seen as a partial map from primary keys to
  values: an insert, an update, an upsert, a delete and the cascade are updates of the map, a lookup reads
  it and a listing enumerates part of it. Proved once for every table, as the locale \<open>pg_rows\<close>.
\<close>

section \<open>A table as a map from keys to rows\<close>

definition rm :: "pg_table \<Rightarrow> 'w row list \<Rightarrow> 'w cell option list \<Rightarrow> 'w row option" where
  "rm t rows key = find (\<lambda>r. row_key t r = key) rows"

definition keyed :: "pg_table \<Rightarrow> 'w row list \<Rightarrow> bool" where
  "keyed t rows \<longleftrightarrow> distinct (map (row_key t) rows)"

lemma rm_Some: "keyed t rows \<Longrightarrow> rm t rows key = Some r \<longleftrightarrow> r \<in> set rows \<and> row_key t r = key"
  by (induction rows) (auto simp: rm_def keyed_def)

lemma rm_None: "rm t rows key = None \<longleftrightarrow> key \<notin> row_key t ` set rows"
  by (auto simp: rm_def find_None_iff)

lemma rm_Nil [simp]: "rm t [] key = None"
  by (simp add: rm_def)

lemma rm_snoc:
  assumes "row_key t r \<notin> row_key t ` set rows"
  shows "rm t (rows @ [r]) = (rm t rows)(row_key t r \<mapsto> r)"
  using assms by (induction rows) (auto simp: rm_def fun_eq_iff)

lemma rm_modify:
  assumes "\<And>x. row_key t (f x) = row_key t x"
  shows "rm t (map (\<lambda>x. if row_key t x = k then f x else x) rows) =
    (rm t rows)(k := map_option f (rm t rows k))"
  using assms by (induction rows) (auto simp: rm_def fun_eq_iff)

lemma rm_filter:
  "rm t (filter (\<lambda>x. P (row_key t x)) rows) key = (if P key then rm t rows key else None)"
  by (induction rows) (auto simp: rm_def)

lemma filter_key:
  assumes "keyed t rows"
  shows "filter (\<lambda>x. row_key t x = key) rows = (case rm t rows key of None \<Rightarrow> [] | Some r \<Rightarrow> [r])"
  using assms
proof (induction rows)
  case (Cons r rows)
  show ?case
  proof (cases "row_key t r = key")
    case True
    with Cons.prems have "filter (\<lambda>x. row_key t x = key) rows = []"
      by (auto simp: keyed_def filter_empty_conv image_iff eq_commute [of "row_key t r"])
    with True show ?thesis by (simp add: rm_def)
  next
    case False
    with Cons show ?thesis by (simp add: rm_def keyed_def)
  qed
qed simp

lemma keyed_snoc: "keyed t rows \<Longrightarrow> row_key t r \<notin> row_key t ` set rows \<Longrightarrow> keyed t (rows @ [r])"
  by (simp add: keyed_def)

lemma keyed_modify:
  assumes "keyed t rows" and "\<And>x. row_key t (f x) = row_key t x"
  shows "keyed t (map (\<lambda>x. if P x then f x else x) rows)"
proof -
  have "map (row_key t) (map (\<lambda>x. if P x then f x else x) rows) = map (row_key t) rows"
    using assms(2) by simp
  with assms(1) show ?thesis by (simp only: keyed_def)
qed

lemma keyed_filter: "keyed t rows \<Longrightarrow> keyed t (filter P rows)"
  by (simp add: keyed_def distinct_map_filter)

lemma map_of_set_column: "map_of (set_column c v r) d = (if d = c then map_option (\<lambda>_. v) (map_of r d) else map_of r d)"
  by (induction r) (auto simp: set_column_def)

lemma row_key_set_column: "c \<notin> set (pkey t) \<Longrightarrow> row_key t (set_column c v r) = row_key t r"
  by (auto simp: row_key_def map_of_set_column)

lemma list_ex_key: "list_ex (\<lambda>x. row_key t x = k) rows \<longleftrightarrow> k \<in> row_key t ` set rows"
  by (auto simp: list_ex_iff)

lemma option_ext: "(\<And>x. a = Some x \<longleftrightarrow> b = Some x) \<Longrightarrow> a = b"
  by (cases a; cases b) auto

section \<open>Decoding\<close>

definition dec :: "('w \<Rightarrow> err + 'a) \<Rightarrow> 'w row \<Rightarrow> 'a option" where
  "dec de r =
     (case map_of r ''data'' of
        Some (Data w) \<Rightarrow> (case de w of Inr x \<Rightarrow> Some x | Inl _ \<Rightarrow> None)
      | _ \<Rightarrow> None)"

lemma from_value_dec: "map_of r ''data'' = Some c \<Longrightarrow> from_value de c = Inr x \<Longrightarrow> dec de r = Some x"
  by (cases c) (auto simp: from_value_def dec_def result_iffs)

lemma traverse_Inr: "traverse f cs = Inr xs \<longleftrightarrow> list_all2 (\<lambda>c x. f c = Inr x) cs xs"
  by (induction cs arbitrary: xs) (auto simp: result_iffs list_all2_Cons1)

section \<open>The rows of a table\<close>

text \<open>
  A table with the key columns \<open>cols key\<close>: its rows carry them and some further columns, are
  distinct by key, and have a value \<open>val\<close>; \<open>pg_tab\<close> is the map from keys to values.
\<close>

definition kv :: "('k \<Rightarrow> 'w row) \<Rightarrow> 'k \<Rightarrow> 'w cell option list" where
  "kv cols key = map (Some \<circ> snd) (cols key)"

definition pg_tab ::
  "pg_table \<Rightarrow> ('k \<Rightarrow> 'w row) \<Rightarrow> ('w row \<Rightarrow> 'v option) \<Rightarrow> 'w row list \<Rightarrow> 'k \<Rightarrow> 'v option" where
  "pg_tab t cols val rows key = Option.bind (rm t rows (kv cols key)) val"

definition pg_rows_ok ::
  "pg_table \<Rightarrow> ('k \<Rightarrow> 'w row) \<Rightarrow> ('w row \<Rightarrow> 'v option) \<Rightarrow> ('k \<Rightarrow> 'w row \<Rightarrow> 'v \<Rightarrow> bool) \<Rightarrow> 'w row list \<Rightarrow> bool" where
  "pg_rows_ok t cols val good rows \<longleftrightarrow>
     keyed t rows \<and>
     (\<forall>r \<in> set rows. \<exists>key rest x. r = cols key @ rest \<and> val r = Some x \<and> good key rest x)"

lemma distinct_pkey: "distinct (pkey t)"
  by (cases t) (simp_all add: pkey_def)

lemma map_of_cols: "distinct (map fst cs) \<Longrightarrow> map (map_of (cs @ rest)) (map fst cs) = map (Some \<circ> snd) cs"
  by (auto simp: map_add_def intro!: map_cong)

locale pg_rows =
  fixes t :: pg_table and cols :: "'k \<Rightarrow> 'w row" and own :: "'k \<Rightarrow> string"
  assumes columns: "map fst (cols key) = pkey t"
    and cols_inject: "cols key = cols key' \<Longrightarrow> key = key'"
    and owner: "\<exists>more. cols key = (''org_id'', Text (own key)) # more"
begin

lemma row_key_cols: "row_key t (cols key @ rest) = kv cols key"
  using map_of_cols [of "cols key" rest] distinct_pkey [of t] by (simp add: row_key_def kv_def columns)

lemma holds_key: "holds (cols key) r \<longleftrightarrow> row_key t r = kv cols key"
  unfolding holds_def row_key_def kv_def columns [of key, symmetric]
  by (auto simp: list_all_iff map_eq_conv split: prod.splits)

lemma kv_inject: "kv cols key = kv cols key' \<longleftrightarrow> key = key'"
proof
  assume "kv cols key = kv cols key'"
  then have "map snd (cols key) = map snd (cols key')"
    by (simp add: kv_def inj_map_eq_map flip: map_map)
  moreover have "map fst (cols key) = map fst (cols key')"
    by (simp add: columns)
  ultimately have "cols key = cols key'"
    by (metis zip_map_fst_snd)
  then show "key = key'" by (rule cols_inject)
qed simp

lemma map_of_owner: "map_of (cols key @ rest) ''org_id'' = Some (Text (own key))"
  using owner [of key] by auto

lemma key_set_column:
  assumes "c \<notin> set (pkey t)"
  shows "set_column c v (cols key @ rest) = cols key @ set_column c v rest"
proof -
  from assms have "c \<notin> fst ` set (cols key)"
    by (metis columns list.set_map)
  then have "set_column c v (cols key) = cols key"
    by (auto simp: set_column_def intro!: map_idI) force
  then show ?thesis by (simp add: set_column_def)
qed

lemma tab_Some:
  assumes "pg_rows_ok t cols val good rows"
  shows "pg_tab t cols val rows key = Some x \<longleftrightarrow>
    (\<exists>rest. cols key @ rest \<in> set rows \<and> val (cols key @ rest) = Some x)"
proof
  assume "pg_tab t cols val rows key = Some x"
  then obtain r where r: "rm t rows (kv cols key) = Some r" "val r = Some x"
    by (auto simp: pg_tab_def bind_eq_Some_conv)
  with assms have "r \<in> set rows" "row_key t r = kv cols key"
    by (auto simp: pg_rows_ok_def rm_Some)
  with assms obtain key' rest where "r = cols key' @ rest"
    by (auto simp: pg_rows_ok_def)
  with \<open>row_key t r = kv cols key\<close> have "r = cols key @ rest"
    by (simp add: row_key_cols kv_inject)
  with r \<open>r \<in> set rows\<close> show "\<exists>rest. cols key @ rest \<in> set rows \<and> val (cols key @ rest) = Some x"
    by blast
next
  assume "\<exists>rest. cols key @ rest \<in> set rows \<and> val (cols key @ rest) = Some x"
  then obtain rest where "cols key @ rest \<in> set rows" "val (cols key @ rest) = Some x"
    by blast
  with assms have "rm t rows (kv cols key) = Some (cols key @ rest)"
    by (simp add: pg_rows_ok_def rm_Some row_key_cols)
  with \<open>val (cols key @ rest) = Some x\<close> show "pg_tab t cols val rows key = Some x"
    by (simp add: pg_tab_def)
qed

lemma tab_good:
  assumes "pg_rows_ok t cols val good rows" and "pg_tab t cols val rows key = Some x"
  shows "\<exists>rest. cols key @ rest \<in> set rows \<and> val (cols key @ rest) = Some x \<and> good key rest x"
proof -
  from assms obtain rest where r: "cols key @ rest \<in> set rows" "val (cols key @ rest) = Some x"
    by (auto simp: tab_Some [OF assms(1)])
  with assms(1) obtain key' rest' where "cols key @ rest = cols key' @ rest'" "good key' rest' x"
    unfolding pg_rows_ok_def by fastforce
  moreover from this(1) have "key = key'"
    by (metis row_key_cols kv_inject)
  ultimately show ?thesis using r by auto
qed

lemma tab_None:
  assumes "pg_rows_ok t cols val good rows"
  shows "pg_tab t cols val rows key = None \<longleftrightarrow> kv cols key \<notin> row_key t ` set rows"
proof -
  have "val r \<noteq> None" if "rm t rows (kv cols key) = Some r" for r
    using assms that by (auto simp: pg_rows_ok_def rm_Some)
  then show ?thesis
    unfolding pg_tab_def rm_None [symmetric] by (cases "rm t rows (kv cols key)") auto
qed

lemma insert_row:
  assumes ok: "pg_rows_ok t cols val good rows" and "pg_tab t cols val rows key = None"
    and "val (cols key @ rest) = Some x" and "good key rest x"
  shows "pg_rows_ok t cols val good (rows @ [cols key @ rest])"
    and "pg_tab t cols val (rows @ [cols key @ rest]) = (pg_tab t cols val rows)(key \<mapsto> x)"
proof -
  have new: "row_key t (cols key @ rest) \<notin> row_key t ` set rows"
    using assms(2) by (simp add: tab_None [OF ok] row_key_cols)
  with ok assms(3,4) show "pg_rows_ok t cols val good (rows @ [cols key @ rest])"
    unfolding pg_rows_ok_def by (auto intro: keyed_snoc)
  show "pg_tab t cols val (rows @ [cols key @ rest]) = (pg_tab t cols val rows)(key \<mapsto> x)"
    using assms(3) by (auto simp: fun_eq_iff pg_tab_def rm_snoc [OF new] row_key_cols kv_inject)
qed

lemma modify_row:
  assumes ok: "pg_rows_ok t cols val good rows" and c: "c \<notin> set (pkey t)"
    and new: "\<And>rest y. cols key @ rest \<in> set rows \<Longrightarrow> good key rest y \<Longrightarrow>
      val (cols key @ set_column c v rest) = Some x \<and> good key (set_column c v rest) x"
    and rows': "rows' = map (\<lambda>r. if row_key t r = kv cols key then set_column c v r else r) rows"
  shows "pg_rows_ok t cols val good rows'"
    and "pg_tab t cols val rows' = (if pg_tab t cols val rows key = None then pg_tab t cols val rows
       else (pg_tab t cols val rows)(key \<mapsto> x))"
proof -
  have hit: "\<exists>rest. r = cols key @ rest \<and> val (set_column c v r) = Some x \<and>
      set_column c v r = cols key @ set_column c v rest \<and> good key (set_column c v rest) x"
    if r: "r \<in> set rows" "row_key t r = kv cols key" for r
  proof -
    from ok r(1) obtain key' rest y where "r = cols key' @ rest" "good key' rest y"
      by (auto simp: pg_rows_ok_def)
    with r(2) have *: "r = cols key @ rest" "good key rest y"
      by (simp_all add: row_key_cols kv_inject)
    with new [of rest y] r(1) c show ?thesis by (auto simp: key_set_column)
  qed
  have "keyed t rows'"
    unfolding rows' by (rule keyed_modify) (use ok c in \<open>simp_all add: pg_rows_ok_def row_key_set_column\<close>)
  moreover have "\<exists>key' rest y. r' = cols key' @ rest \<and> val r' = Some y \<and> good key' rest y"
    if "r' \<in> set rows'" for r'
  proof -
    from that obtain r where "r \<in> set rows" "r' = (if row_key t r = kv cols key then set_column c v r else r)"
      unfolding rows' by auto
    with ok hit [of r] show ?thesis
      by (cases "row_key t r = kv cols key") (auto simp: pg_rows_ok_def)
  qed
  ultimately show "pg_rows_ok t cols val good rows'"
    unfolding pg_rows_ok_def by blast
  have "rm t rows' = (rm t rows)(kv cols key := map_option (set_column c v) (rm t rows (kv cols key)))"
    unfolding rows' by (rule rm_modify) (simp add: row_key_set_column c)
  moreover have "val (set_column c v r) = Some x \<and> val r \<noteq> None" if "rm t rows (kv cols key) = Some r" for r
    using ok hit [of r] that by (auto simp: pg_rows_ok_def rm_Some)
  ultimately show "pg_tab t cols val rows' = (if pg_tab t cols val rows key = None then pg_tab t cols val rows
       else (pg_tab t cols val rows)(key \<mapsto> x))"
    by (cases "rm t rows (kv cols key)") (auto simp: fun_eq_iff pg_tab_def kv_inject)
qed

lemma filter_rows:
  assumes ok: "pg_rows_ok t cols val good rows" and P: "\<And>key rest. P (cols key @ rest) \<longleftrightarrow> p key"
  shows "pg_rows_ok t cols val good (filter P rows)"
    and "pg_tab t cols val (filter P rows) = (\<lambda>key. if p key then pg_tab t cols val rows key else None)"
proof -
  show ok': "pg_rows_ok t cols val good (filter P rows)"
    using ok by (auto simp: pg_rows_ok_def keyed_filter)
  show "pg_tab t cols val (filter P rows) = (\<lambda>key. if p key then pg_tab t cols val rows key else None)"
  proof (rule ext, rule option_ext)
    fix key x
    show "pg_tab t cols val (filter P rows) key = Some x \<longleftrightarrow>
      (if p key then pg_tab t cols val rows key else None) = Some x"
      using P by (simp add: tab_Some [OF ok] tab_Some [OF ok'])
  qed
qed

lemma delete_row:
  assumes "pg_rows_ok t cols val good rows"
  shows "pg_rows_ok t cols val good (filter (\<lambda>r. \<not> holds (cols key) r) rows)"
    and "pg_tab t cols val (filter (\<lambda>r. \<not> holds (cols key) r) rows) = (pg_tab t cols val rows)(key := None)"
    and "0 < length (filter (holds (cols key)) rows) \<longleftrightarrow> key \<in> dom (pg_tab t cols val rows)"
  using filter_rows [OF assms, of "\<lambda>r. \<not> holds (cols key) r" "\<lambda>key'. key' \<noteq> key"] tab_None [OF assms, of key]
  by (auto simp: holds_key row_key_cols kv_inject fun_eq_iff filter_empty_conv domIff image_iff
        eq_commute [of "kv cols key"])

lemma keep_orgs:
  assumes "pg_rows_ok t cols val good rows"
  shows "pg_rows_ok t cols val good (filter (\<lambda>r. Q (map_of r ''org_id'')) rows)"
    and "pg_tab t cols val (filter (\<lambda>r. Q (map_of r ''org_id'')) rows) =
      (\<lambda>key. if Q (Some (Text (own key))) then pg_tab t cols val rows key else None)"
  by (rule filter_rows [OF assms, where p = "\<lambda>key. Q (Some (Text (own key)))"]; simp only: map_of_owner)+

text \<open>A lookup by primary key.\<close>

lemma fetch_key:
  assumes ok: "pg_rows_ok t cols val good (tabs t)"
    and q: "sql_select q tabs cs" "qy_table q = t" "qy_where q = cols key" "qy_limit q = None"
    and f: "\<And>r c x. map_of r (qy_column q) = Some c \<Longrightarrow> f c = Inr x \<Longrightarrow> val r = Some x"
    and r: "(case cs of [] \<Rightarrow> Inr None | c # _ \<Rightarrow> mapR Some (f c)) = Inr r"
  shows "r = pg_tab t cols val (tabs t) key"
proof -
  have "filter (holds (cols key)) (tabs t) = (case rm t (tabs t) (kv cols key) of None \<Rightarrow> [] | Some r \<Rightarrow> [r])"
    using filter_key [of t "tabs t" "kv cols key"] ok by (simp add: holds_key [abs_def] pg_rows_ok_def)
  with q have "map Some cs =
      (case rm t (tabs t) (kv cols key) of None \<Rightarrow> [] | Some r \<Rightarrow> [map_of r (qy_column q)])"
    by (auto simp: sql_select_def simp del: mset_filter split: option.splits)
  with r show ?thesis
    by (cases "rm t (tabs t) (kv cols key)")
      (auto simp: pg_tab_def result_iffs f [OF sym] split: list.splits)
qed

text \<open>A listing: the values of the rows that meet a condition, each once.\<close>

lemma listed:
  assumes ok: "pg_rows_ok t cols val good rows" and rs: "mset rs = mset (filter H rows)"
    and H: "\<And>key rest x. val (cols key @ rest) = Some x \<Longrightarrow> good key rest x \<Longrightarrow> H (cols key @ rest) \<longleftrightarrow> P key x"
  shows "set (map (the \<circ> val) rs) = {x. \<exists>key. pg_tab t cols val rows key = Some x \<and> P key x}"
proof -
  have set_rs: "set rs = {r \<in> set rows. H r}"
    using arg_cong [OF rs, of set_mset] by simp
  show ?thesis
  proof (rule equalityI; rule subsetI)
    fix x
    assume "x \<in> set (map (the \<circ> val) rs)"
    then obtain r where r: "r \<in> set rows" "H r" "x = the (val r)"
      by (auto simp: set_rs)
    with ok obtain key rest where "r = cols key @ rest" "val r = Some x" "good key rest x"
      by (force simp: pg_rows_ok_def)
    with r H show "x \<in> {x. \<exists>key. pg_tab t cols val rows key = Some x \<and> P key x}"
      by (auto simp: tab_Some [OF ok])
  next
    fix x
    assume "x \<in> {x. \<exists>key. pg_tab t cols val rows key = Some x \<and> P key x}"
    then obtain key where key: "pg_tab t cols val rows key = Some x" "P key x"
      by blast
    from tab_good [OF ok key(1)] obtain rest where
      "cols key @ rest \<in> set rows" "val (cols key @ rest) = Some x" "good key rest x" by blast
    with key(2) H show "x \<in> set (map (the \<circ> val) rs)"
      by (force simp: set_rs)
  qed
qed

lemma listed_distinct:
  assumes ok: "pg_rows_ok t cols val good rows" and rs: "mset rs = mset (filter H rows)"
    and H: "\<And>key rest x. val (cols key @ rest) = Some x \<Longrightarrow> good key rest x \<Longrightarrow> H (cols key @ rest) \<longleftrightarrow> P key x"
    and ident: "\<And>key key' rest rest' x. good key rest x \<Longrightarrow> good key' rest' x \<Longrightarrow> P key x \<Longrightarrow> P key' x \<Longrightarrow> key = key'"
  shows "distinct (map (the \<circ> val) rs)"
proof -
  have set_rs: "set rs = {r \<in> set rows. H r}"
    using arg_cong [OF rs, of set_mset] by simp
  have "distinct (filter H rows)"
    using ok by (auto simp: pg_rows_ok_def keyed_def distinct_map)
  with rs have "distinct rs"
    by (metis mset_eq_imp_distinct_iff)
  moreover have "inj_on (the \<circ> val) (set rs)"
  proof (rule inj_onI)
    fix r r'
    assume r: "r \<in> set rs" "r' \<in> set rs" "(the \<circ> val) r = (the \<circ> val) r'"
    with ok set_rs obtain key rest x where *: "r = cols key @ rest" "val r = Some x" "good key rest x" "H r"
      unfolding pg_rows_ok_def by blast
    from r ok set_rs obtain key' rest' x' where **:
      "r' = cols key' @ rest'" "val r' = Some x'" "good key' rest' x'" "H r'"
      unfolding pg_rows_ok_def by blast
    from r(3) * ** H ident have "key = key'" by (metis comp_apply option.sel)
    with * ** have "row_key t r = row_key t r'" by (simp add: row_key_cols)
    with r set_rs ok show "r = r'"
      by (auto simp: pg_rows_ok_def keyed_def distinct_map dest: inj_onD)
  qed
  ultimately show ?thesis by (simp add: distinct_map)
qed

end

lemma traverse_values:
  assumes "map (\<lambda>r. map_of r col) rs = map Some cs" and "traverse f cs = Inr xs"
    and "\<And>r c x. map_of r col = Some c \<Longrightarrow> f c = Inr x \<Longrightarrow> val r = Some x"
  shows "xs = map (the \<circ> val) rs"
proof (rule nth_equalityI)
  have "length cs = length rs" by (metis assms(1) length_map)
  with assms(2) show len: "length xs = length (map (the \<circ> val) rs)"
    by (simp add: traverse_Inr list_all2_conv_all_nth)
  fix i
  assume "i < length xs"
  then have i: "i < length rs" "i < length cs" using len \<open>length cs = length rs\<close> by simp_all
  from arg_cong [OF assms(1), of "\<lambda>l. l ! i"] i have "map_of (rs ! i) col = Some (cs ! i)" by simp
  moreover from assms(2) i have "f (cs ! i) = Inr (xs ! i)"
    by (simp add: traverse_Inr list_all2_conv_all_nth)
  ultimately show "xs ! i = map (the \<circ> val) rs ! i"
    using assms(3) i by simp
qed

section \<open>The statements\<close>

context pg_rows
begin

lemma insert_exec:
  assumes ok: "pg_rows_ok t cols val good (tabs t)"
    and ex: "sql_exec (InsertRow t (cols key @ rest)) tabs = Some (n, tabs')"
    and "val (cols key @ rest) = Some x" and "good key rest x"
  shows "pg_rows_ok t cols val good (tabs' t)"
    and "pg_tab t cols val (tabs' t) = (pg_tab t cols val (tabs t))(key \<mapsto> x)"
    and "pg_tab t cols val (tabs t) key = None" and "\<And>u. u \<noteq> t \<Longrightarrow> tabs' u = tabs u"
proof -
  from ex have new: "pg_tab t cols val (tabs t) key = None" and tabs': "tabs' = tabs(t := tabs t @ [cols key @ rest])"
    by (auto simp: tab_None [OF ok] list_ex_key row_key_cols split: if_splits)
  show "pg_tab t cols val (tabs t) key = None" by (rule new)
  show "\<And>u. u \<noteq> t \<Longrightarrow> tabs' u = tabs u" by (simp add: tabs')
  show "pg_rows_ok t cols val good (tabs' t)"
    "pg_tab t cols val (tabs' t) = (pg_tab t cols val (tabs t))(key \<mapsto> x)"
    using insert_row [OF ok new assms(3,4)] by (simp_all add: tabs')
qed

lemma update_exec:
  assumes ok: "pg_rows_ok t cols val good (tabs t)" and c: "c \<notin> set (pkey t)"
    and ex: "sql_exec (SetColumn t c v (cols key)) tabs = Some (n, tabs')"
    and new: "\<And>rest y. good key rest y \<Longrightarrow>
      val (cols key @ set_column c v rest) = Some x \<and> good key (set_column c v rest) x"
  shows "pg_rows_ok t cols val good (tabs' t)"
    and "pg_tab t cols val (tabs' t) = (if pg_tab t cols val (tabs t) key = None then pg_tab t cols val (tabs t)
       else (pg_tab t cols val (tabs t))(key \<mapsto> x))"
    and "\<And>u. u \<noteq> t \<Longrightarrow> tabs' u = tabs u"
proof -
  have tabs': "tabs' = tabs(t := map (\<lambda>r. if row_key t r = kv cols key then set_column c v r else r) (tabs t))"
    using ex by (simp add: holds_key [abs_def])
  show "pg_rows_ok t cols val good (tabs' t)"
    "pg_tab t cols val (tabs' t) = (if pg_tab t cols val (tabs t) key = None then pg_tab t cols val (tabs t)
       else (pg_tab t cols val (tabs t))(key \<mapsto> x))"
    by (rule modify_row [OF ok c new]; simp add: tabs')+
  show "\<And>u. u \<noteq> t \<Longrightarrow> tabs' u = tabs u" by (simp add: tabs')
qed

lemma upsert_exec:
  assumes ok: "pg_rows_ok t cols val good (tabs t)" and c: "c \<notin> set (pkey t)"
    and ex: "sql_exec (UpsertRow t (cols key @ [(c, v)]) c) tabs = Some (n, tabs')"
    and x: "val (cols key @ [(c, v)]) = Some x" "good key [(c, v)] x"
    and new: "\<And>rest y. good key rest y \<Longrightarrow> set_column c v rest = [(c, v)]"
  shows "pg_rows_ok t cols val good (tabs' t)"
    and "pg_tab t cols val (tabs' t) = (pg_tab t cols val (tabs t))(key \<mapsto> x)"
    and "\<And>u. u \<noteq> t \<Longrightarrow> tabs' u = tabs u"
proof -
  have mc: "map_of (cols key @ [(c, v)]) c = Some v"
    using c columns [of key] by (auto simp: map_add_def map_of_eq_None_iff split: option.splits)
      (metis list.set_map map_of_eq_None_iff option.distinct(1))
  have "pg_rows_ok t cols val good (tabs' t) \<and> pg_tab t cols val (tabs' t) = (pg_tab t cols val (tabs t))(key \<mapsto> x) \<and>
      (\<forall>u. u \<noteq> t \<longrightarrow> tabs' u = tabs u)"
  proof (cases "pg_tab t cols val (tabs t) key")
    case None
    then have "sql_exec (InsertRow t (cols key @ [(c, v)])) tabs = Some (n, tabs')"
      using ex by (auto simp: tab_None [OF ok] list_ex_key row_key_cols split: if_splits)
    from insert_exec [where val = val and good = good, OF ok this x] show ?thesis by blast
  next
    case (Some y)
    then have hit: "kv cols key \<in> row_key t ` set (tabs t)"
      using tab_None [OF ok, of key] by simp
    have ex': "sql_exec (SetColumn t c v (cols key)) tabs = Some (length (filter (holds (cols key)) (tabs t)), tabs')"
      using ex hit by (simp add: list_ex_key row_key_cols mc [simplified] holds_key [abs_def] cong: if_cong)
    have keep: "val (cols key @ set_column c v rest) = Some x \<and> good key (set_column c v rest) x"
      if "good key rest y" for rest y
      using new [OF that] x by simp
    have "pg_rows_ok t cols val good (tabs' t)"
      by (rule update_exec(1) [where val = val and good = good and tabs = tabs, OF ok c ex' keep])
    moreover have "pg_tab t cols val (tabs' t) = (pg_tab t cols val (tabs t))(key \<mapsto> x)"
      using update_exec(2) [where val = val and good = good and tabs = tabs, OF ok c ex' keep] Some by simp
    moreover have "\<forall>u. u \<noteq> t \<longrightarrow> tabs' u = tabs u"
      using ex' by auto
    ultimately show ?thesis by blast
  qed
  then show "pg_rows_ok t cols val good (tabs' t)"
    and "pg_tab t cols val (tabs' t) = (pg_tab t cols val (tabs t))(key \<mapsto> x)"
    and "\<And>u. u \<noteq> t \<Longrightarrow> tabs' u = tabs u"
    by blast+
qed

lemma delete_exec:
  assumes ok: "pg_rows_ok t cols val good (tabs t)" and "t \<noteq> Orgs"
    and ex: "sql_exec (DeleteRows t (cols key)) tabs = Some (n, tabs')"
  shows "pg_rows_ok t cols val good (tabs' t)"
    and "pg_tab t cols val (tabs' t) = (pg_tab t cols val (tabs t))(key := None)"
    and "0 < n \<longleftrightarrow> key \<in> dom (pg_tab t cols val (tabs t))" and "\<And>u. u \<noteq> t \<Longrightarrow> tabs' u = tabs u"
  using delete_row [OF ok, of key] assms(2) ex by (auto simp: Let_def)

end

section \<open>Tables with a data column\<close>

definition data_row :: "('k \<Rightarrow> 'v \<Rightarrow> bool) \<Rightarrow> 'k \<Rightarrow> 'w row \<Rightarrow> 'v \<Rightarrow> bool" where
  "data_row own key rest x \<longleftrightarrow> (\<exists>w. rest = [(''data'', Data w)]) \<and> own key x"

lemma dec_data: "''data'' \<notin> fst ` set cs \<Longrightarrow> de w = Inr x \<Longrightarrow> dec de (cs @ [(''data'', Data w)]) = Some x"
  by (simp add: dec_def map_add_def map_of_eq_None_iff [THEN iffD2] split: option.splits)

lemma data_no_key: "''data'' \<notin> set (pkey t)"
  by (cases t) (simp_all add: pkey_def)

context pg_rows
begin

lemma dec_cols: "de w = Inr x \<Longrightarrow> dec de (cols key @ [(''data'', Data w)]) = Some x"
  using data_no_key [of t] columns [of key] by (intro dec_data) (auto simp flip: list.set_map)

lemma set_data: "data_row mine key rest y \<Longrightarrow> set_column ''data'' v rest = [(''data'', v)]"
  by (auto simp: data_row_def set_column_def)

lemma create_exec:
  assumes "pg_rows_ok t cols (dec de) (data_row mine) (tabs t)" and "de w = Inr x" and "mine key x"
    and "sql_exec (InsertRow t (cols key @ [(''data'', Data w)])) tabs = Some (n, tabs')"
  shows "pg_rows_ok t cols (dec de) (data_row mine) (tabs' t) \<and>
    pg_tab t cols (dec de) (tabs' t) = (pg_tab t cols (dec de) (tabs t))(key \<mapsto> x) \<and>
    (\<forall>u. u \<noteq> t \<longrightarrow> tabs' u = tabs u)"
proof -
  have "data_row mine key [(''data'', Data w)] x"
    using assms(3) by (simp add: data_row_def)
  then show ?thesis
    using insert_exec [where tabs = tabs, OF assms(1,4) dec_cols [of de w x, OF assms(2)]] by blast
qed

lemma change_exec:
  assumes "pg_rows_ok t cols (dec de) (data_row mine) (tabs t)" and "de w = Inr x" and "mine key x"
    and "sql_exec (SetColumn t ''data'' (Data w) (cols key)) tabs = Some (n, tabs')"
  shows "pg_rows_ok t cols (dec de) (data_row mine) (tabs' t) \<and>
    pg_tab t cols (dec de) (tabs' t) = (if pg_tab t cols (dec de) (tabs t) key = None then pg_tab t cols (dec de) (tabs t)
       else (pg_tab t cols (dec de) (tabs t))(key \<mapsto> x)) \<and>
    (\<forall>u. u \<noteq> t \<longrightarrow> tabs' u = tabs u)"
proof -
  have keep: "data_row mine key rest y \<Longrightarrow>
      dec de (cols key @ set_column ''data'' (Data w) rest) = Some x \<and>
      data_row mine key (set_column ''data'' (Data w) rest) x" for rest y
    using assms(2,3) by (simp add: set_data dec_cols) (simp add: data_row_def)
  have "pg_rows_ok t cols (dec de) (data_row mine) (tabs' t)"
    by (rule update_exec(1) [where tabs = tabs, OF assms(1) data_no_key assms(4) keep])
  moreover have "pg_tab t cols (dec de) (tabs' t) = (if pg_tab t cols (dec de) (tabs t) key = None
      then pg_tab t cols (dec de) (tabs t) else (pg_tab t cols (dec de) (tabs t))(key \<mapsto> x))"
    by (rule update_exec(2) [where tabs = tabs, OF assms(1) data_no_key assms(4) keep])
  moreover have "\<forall>u. u \<noteq> t \<longrightarrow> tabs' u = tabs u"
    using assms(4) by auto
  ultimately show ?thesis by blast
qed

lemma store_exec:
  assumes "pg_rows_ok t cols (dec de) (data_row mine) (tabs t)" and "de w = Inr x" and "mine key x"
    and "sql_exec (UpsertRow t (cols key @ [(''data'', Data w)]) ''data'') tabs = Some (n, tabs')"
  shows "pg_rows_ok t cols (dec de) (data_row mine) (tabs' t) \<and>
    pg_tab t cols (dec de) (tabs' t) = (pg_tab t cols (dec de) (tabs t))(key \<mapsto> x) \<and>
    (\<forall>u. u \<noteq> t \<longrightarrow> tabs' u = tabs u)"
proof -
  have row: "data_row mine key [(''data'', Data w)] x"
    using assms(3) by (simp add: data_row_def)
  have val: "dec de (cols key @ [(''data'', Data w)]) = Some x"
    by (rule dec_cols [of de w x, OF assms(2)])
  have only: "data_row mine key rest y \<Longrightarrow> set_column ''data'' (Data w) rest = [(''data'', Data w)]" for rest y
    by (rule set_data)
  note up = upsert_exec [where val = "dec de" and good = "data_row mine" and tabs = tabs and key = key
      and c = "''data''" and v = "Data w" and x = x, OF assms(1) data_no_key assms(4) val row]
  have "pg_rows_ok t cols (dec de) (data_row mine) (tabs' t)"
    by (rule up(1)) (rule only)
  moreover have "pg_tab t cols (dec de) (tabs' t) = (pg_tab t cols (dec de) (tabs t))(key \<mapsto> x)"
    by (rule up(2)) (rule only)
  moreover have "\<forall>u. u \<noteq> t \<longrightarrow> tabs' u = tabs u"
    using assms(4) by (auto split: if_splits)
  ultimately show ?thesis by blast
qed

lemma remove_exec:
  assumes "pg_rows_ok t cols val good (tabs t)" and "t \<noteq> Orgs"
    and "sql_exec (DeleteRows t (cols key)) tabs = Some (n, tabs')"
  shows "pg_rows_ok t cols val good (tabs' t) \<and>
    pg_tab t cols val (tabs' t) = (pg_tab t cols val (tabs t))(key := None) \<and>
    (0 < n) = (key \<in> dom (pg_tab t cols val (tabs t))) \<and> (\<forall>u. u \<noteq> t \<longrightarrow> tabs' u = tabs u)"
  using delete_exec [where tabs = tabs, OF assms] by blast

lemma lookup_data:
  assumes "pg_rows_ok t cols (dec de) good (tabs t)" and "sql_select (select_data t (cols key) None None) tabs cs"
    and "(case cs of [] \<Rightarrow> Inr None | c # _ \<Rightarrow> mapR Some (from_value de c)) = Inr r"
  shows "r = pg_tab t cols (dec de) (tabs t) key"
  by (rule fetch_key [where tabs = tabs, OF assms(1,2)]) (use assms(3) in \<open>auto simp: select_data_def dest: from_value_dec\<close>)

lemma list_data:
  assumes ok: "pg_rows_ok t cols (dec de) good (tabs t)"
    and sel: "sql_select (select_data t cond ord None) tabs cs" and "traverse (from_value de) cs = Inr xs"
    and P: "\<And>key rest. holds cond (cols key @ rest) \<longleftrightarrow> P key"
    and ident: "\<And>key key' rest rest' x. good key rest x \<Longrightarrow> good key' rest' x \<Longrightarrow> P key \<Longrightarrow> P key' \<Longrightarrow> key = key'"
  shows "distinct xs \<and> set xs = {x. \<exists>key. pg_tab t cols (dec de) (tabs t) key = Some x \<and> P key}"
proof -
  from sel obtain rs where rs: "mset rs = mset (filter (holds cond) (tabs t))"
    "map (\<lambda>r. map_of r ''data'') rs = map Some cs"
    by (auto simp: sql_select_def select_data_def simp del: mset_filter)
  have xs: "xs = map (the \<circ> dec de) rs"
    by (rule traverse_values [OF rs(2) assms(3)]) (rule from_value_dec)
  have "distinct xs"
    unfolding xs by (rule listed_distinct [where P = "\<lambda>key _. P key", OF ok rs(1)]) (use P ident in blast)+
  moreover have "set xs = {x. \<exists>key. pg_tab t cols (dec de) (tabs t) key = Some x \<and> P key}"
    unfolding xs by (rule listed [OF ok rs(1)]) (rule P)
  ultimately show ?thesis ..
qed

lemma holds_owner: "holds [(''org_id'', Text k)] (cols key @ rest) \<longleftrightarrow> own key = k"
  by (simp add: holds_def map_of_owner del: map_of_append)

end

end
