(* ===== verification/Postgres_Refine.thy ===== *)
theory Postgres_Refine
  imports Pg_Rows
begin

text \<open>
  The Postgres backend keeps the storage contract: the tables are the maps of the abstract store, each
  method is one statement on one of them, and what it returns is what the contract says. The result is
  the interpretation \<open>pg\<close> of \<open>storage_contract\<close>, on every engine that runs SQL as documented.
\<close>

section \<open>The tables\<close>

definition org_cols :: "string \<Rightarrow> 'w row" where
  "org_cols k = [(''org_id'', Text k)]"

fun pair_cols :: "string \<Rightarrow> string \<times> string \<Rightarrow> 'w row" where
  "pair_cols c (k, i) = [(''org_id'', Text k), (c, Text i)]"

fun cursor_cols :: "string \<times> string \<times> string \<Rightarrow> 'w row" where
  "cursor_cols (k, c, d) = [(''org_id'', Text k), (''app_id'', Text c), (''document_id'', Text d)]"

interpretation pg_orgs: pg_rows Orgs org_cols id
  by unfold_locales (auto simp: org_cols_def pkey_def)

interpretation pg_formations: pg_rows Formations "pair_cols ''app_id''" fst
  by unfold_locales (auto simp: pkey_def)

interpretation pg_tokens: pg_rows Enrollment_tokens "pair_cols ''token_id''" fst
  by unfold_locales (auto simp: pkey_def)

interpretation pg_sinks: pg_rows Cdc_sinks "pair_cols ''sink_id''" fst
  by unfold_locales (auto simp: pkey_def)

interpretation pg_idps: pg_rows Idp_configs "pair_cols ''idp_id''" fst
  by unfold_locales (auto simp: pkey_def)

interpretation pg_rules: pg_rows Policy_rules "pair_cols ''rule_id''" fst
  by unfold_locales (auto simp: pkey_def)

interpretation pg_genesis: pg_rows Genesis "pair_cols ''app_id''" fst
  by unfold_locales (auto simp: pkey_def)

interpretation pg_audit: pg_rows Enrollment_audit "pair_cols ''audit_id''" fst
  by unfold_locales (auto simp: pkey_def)

interpretation pg_cursors: pg_rows Cdc_cursors cursor_cols fst
  by unfold_locales (auto simp: pkey_def)

text \<open>The identifiers a row's value carries.\<close>

definition pg_own_org :: "string \<Rightarrow> organization \<Rightarrow> bool" where
  "pg_own_org k x \<longleftrightarrow> org_org_id x = k \<and> nul_free k"

fun pg_own_formation :: "string \<times> string \<Rightarrow> formation_config \<Rightarrow> bool" where
  "pg_own_formation (k, c) x \<longleftrightarrow> form_app_id x = c \<and> nul_free k \<and> nul_free c"

fun pg_own_token :: "string \<times> string \<Rightarrow> enrollment_token \<Rightarrow> bool" where
  "pg_own_token (k, c) x \<longleftrightarrow> tok_org_id x = k \<and> tok_token_id x = c \<and> nul_free k \<and> nul_free c"

fun pg_own_sink :: "string \<times> string \<Rightarrow> cdc_sink_config \<Rightarrow> bool" where
  "pg_own_sink (k, c) x \<longleftrightarrow> sink_org_id x = k \<and> sink_sink_id x = c \<and> nul_free k \<and> nul_free c"

fun pg_own_idp :: "string \<times> string \<Rightarrow> idp_config \<Rightarrow> bool" where
  "pg_own_idp (k, c) x \<longleftrightarrow> idp_org_id x = k \<and> idp_idp_id x = c \<and> nul_free k \<and> nul_free c"

fun pg_own_rule :: "string \<times> string \<Rightarrow> policy_rule \<Rightarrow> bool" where
  "pg_own_rule (k, c) x \<longleftrightarrow> rule_org_id x = k \<and> rule_rule_id x = c \<and> nul_free k \<and> nul_free c"

fun audit_row :: "string \<times> string \<Rightarrow> 'w row \<Rightarrow> audit_entry \<Rightarrow> bool" where
  "audit_row (k, i) rest x \<longleftrightarrow>
     (\<exists>w. rest = [(''app_id'', Text (aud_app_id x)), (''timestamp_ms'', BigInt (aud_timestamp_ms x)),
                  (''data'', Data w)]) \<and>
     aud_org_id x = k \<and> aud_audit_id x = i \<and> nul_free k"

definition cursor_row :: "string \<times> string \<times> string \<Rightarrow> 'w row \<Rightarrow> string \<Rightarrow> bool" where
  "cursor_row key rest h \<longleftrightarrow> rest = [(''change_hash'', Text h)]"

definition cursor_hash :: "'w row \<Rightarrow> string option" where
  "cursor_hash r = (case map_of r ''change_hash'' of Some (Text h) \<Rightarrow> Some h | _ \<Rightarrow> None)"

definition genesis_bytes :: "'w serde \<Rightarrow> 'w \<Rightarrow> err + bytes" where
  "genesis_bytes S w = Inr (bytes_val S w)"

section \<open>The abstraction\<close>

definition audit_tab :: "'w serde \<Rightarrow> 'w row list \<Rightarrow> string \<times> u64 \<times> string \<Rightarrow> audit_entry option" where
  "audit_tab S rows = (\<lambda>(k, ts, i).
     Option.bind (pg_tab Enrollment_audit (pair_cols ''audit_id'') (dec (de_audit S)) rows (k, i))
       (\<lambda>e. if aud_timestamp_ms e = ts then Some e else None))"

definition pg_abs :: "'w serde \<Rightarrow> 'w tables \<Rightarrow> abs_store" where
  "pg_abs S tabs =
     \<lparr>a_orgs = pg_tab Orgs org_cols (dec (de_org S)) (tabs Orgs),
      a_formations = pg_tab Formations (pair_cols ''app_id'') (dec (de_formation S)) (tabs Formations),
      a_tokens = pg_tab Enrollment_tokens (pair_cols ''token_id'') (dec (de_token S)) (tabs Enrollment_tokens),
      a_sinks = pg_tab Cdc_sinks (pair_cols ''sink_id'') (dec (de_sink S)) (tabs Cdc_sinks),
      a_idps = pg_tab Idp_configs (pair_cols ''idp_id'') (dec (de_idp S)) (tabs Idp_configs),
      a_rules = pg_tab Policy_rules (pair_cols ''rule_id'') (dec (de_rule S)) (tabs Policy_rules),
      a_audit = audit_tab S (tabs Enrollment_audit),
      a_genesis = pg_tab Genesis (pair_cols ''app_id'') (dec (genesis_bytes S)) (tabs Genesis),
      a_cursors = pg_tab Cdc_cursors cursor_cols cursor_hash (tabs Cdc_cursors)\<rparr>"

definition tables_ok :: "'w serde \<Rightarrow> 'w tables \<Rightarrow> bool" where
  "tables_ok S tabs \<longleftrightarrow>
     pg_rows_ok Orgs org_cols (dec (de_org S)) (data_row pg_own_org) (tabs Orgs) \<and>
     pg_rows_ok Formations (pair_cols ''app_id'') (dec (de_formation S)) (data_row pg_own_formation) (tabs Formations) \<and>
     pg_rows_ok Enrollment_tokens (pair_cols ''token_id'') (dec (de_token S)) (data_row pg_own_token)
       (tabs Enrollment_tokens) \<and>
     pg_rows_ok Cdc_sinks (pair_cols ''sink_id'') (dec (de_sink S)) (data_row pg_own_sink) (tabs Cdc_sinks) \<and>
     pg_rows_ok Idp_configs (pair_cols ''idp_id'') (dec (de_idp S)) (data_row pg_own_idp) (tabs Idp_configs) \<and>
     pg_rows_ok Policy_rules (pair_cols ''rule_id'') (dec (de_rule S)) (data_row pg_own_rule) (tabs Policy_rules) \<and>
     pg_rows_ok Enrollment_audit (pair_cols ''audit_id'') (dec (de_audit S)) audit_row (tabs Enrollment_audit) \<and>
     pg_rows_ok Genesis (pair_cols ''app_id'') (dec (genesis_bytes S)) (data_row (\<lambda>_ _. True)) (tabs Genesis) \<and>
     pg_rows_ok Cdc_cursors cursor_cols cursor_hash cursor_row (tabs Cdc_cursors)"

lemma tables_okD:
  assumes "tables_ok S tabs"
  shows "pg_rows_ok Orgs org_cols (dec (de_org S)) (data_row pg_own_org) (tabs Orgs)"
    and "pg_rows_ok Formations (pair_cols ''app_id'') (dec (de_formation S)) (data_row pg_own_formation) (tabs Formations)"
    and "pg_rows_ok Enrollment_tokens (pair_cols ''token_id'') (dec (de_token S)) (data_row pg_own_token)
       (tabs Enrollment_tokens)"
    and "pg_rows_ok Cdc_sinks (pair_cols ''sink_id'') (dec (de_sink S)) (data_row pg_own_sink) (tabs Cdc_sinks)"
    and "pg_rows_ok Idp_configs (pair_cols ''idp_id'') (dec (de_idp S)) (data_row pg_own_idp) (tabs Idp_configs)"
    and "pg_rows_ok Policy_rules (pair_cols ''rule_id'') (dec (de_rule S)) (data_row pg_own_rule) (tabs Policy_rules)"
    and "pg_rows_ok Enrollment_audit (pair_cols ''audit_id'') (dec (de_audit S)) audit_row (tabs Enrollment_audit)"
    and "pg_rows_ok Genesis (pair_cols ''app_id'') (dec (genesis_bytes S)) (data_row (\<lambda>_ _. True)) (tabs Genesis)"
    and "pg_rows_ok Cdc_cursors cursor_cols cursor_hash cursor_row (tabs Cdc_cursors)"
  using assms by (simp_all add: tables_ok_def)

definition pg_inv :: "'w serde \<Rightarrow> ('db, 'w) postgres \<Rightarrow> ('db \<Rightarrow> 'w tables) \<Rightarrow> 'db \<Rightarrow> bool" where
  "pg_inv S E V db \<longleftrightarrow> sql_engine E V \<and> serde_codec S \<and> tables_ok S (V db)"

lemma own_wf:
  "data_row pg_own_org k rest o' \<Longrightarrow> org_org_id o' = k \<and> nul_free k"
  "data_row pg_own_formation (k, c) rest f \<Longrightarrow> form_app_id f = c \<and> nul_free k \<and> nul_free c"
  "data_row pg_own_token (k, c) rest t \<Longrightarrow> tok_org_id t = k \<and> tok_token_id t = c \<and> nul_free k \<and> nul_free c"
  "data_row pg_own_sink (k, c) rest n \<Longrightarrow> sink_org_id n = k \<and> sink_sink_id n = c \<and> nul_free k \<and> nul_free c"
  "data_row pg_own_idp (k, c) rest i \<Longrightarrow> idp_org_id i = k \<and> idp_idp_id i = c \<and> nul_free k \<and> nul_free c"
  "data_row pg_own_rule (k, c) rest r \<Longrightarrow> rule_org_id r = k \<and> rule_rule_id r = c \<and> nul_free k \<and> nul_free c"
  by (simp_all add: data_row_def pg_own_org_def)

lemma audit_tab_Some:
  "audit_tab S rows (k, ts, i) = Some e \<longleftrightarrow>
     pg_tab Enrollment_audit (pair_cols ''audit_id'') (dec (de_audit S)) rows (k, i) = Some e \<and>
     aud_timestamp_ms e = ts"
  by (auto simp: audit_tab_def bind_eq_Some_conv split: if_splits)

lemma pg_wf:
  assumes "tables_ok S tabs"
  shows "abs_wf (pg_abs S tabs)"
proof -
  note D = tables_okD [OF assms]
  show ?thesis
    unfolding abs_wf_def pg_abs_def
    by (auto simp: audit_tab_Some dest!: pg_orgs.tab_good [OF D(1)] pg_formations.tab_good [OF D(2)]
        pg_tokens.tab_good [OF D(3)] pg_sinks.tab_good [OF D(4)] pg_idps.tab_good [OF D(5)]
        pg_rules.tab_good [OF D(6)] pg_audit.tab_good [OF D(7)] own_wf)
qed

section \<open>Running a statement\<close>

lemma pg_execute_wr:
  assumes step: "\<And>tabs n tabs'. serde_codec S \<Longrightarrow> tables_ok S tabs \<Longrightarrow> sql_exec st tabs = Some (n, tabs') \<Longrightarrow>
      tables_ok S tabs' \<and> R (pg_abs S tabs) (f n) (pg_abs S tabs')"
  shows "wr (pg_inv S E V) (\<lambda>db. pg_abs S (V db)) (mapE f (pg_execute E st)) R"
proof (rule wrI)
  fix db x db'
  assume inv: "pg_inv S E V db" and run: "mapE f (pg_execute E st) db = (Inr x, db')"
  from run obtain n where n: "pg_execute E st db = (Inr n, db')" "x = f n"
    by (auto simp: mapE_def mapR_eq_Inr mapR_eq_Inl split: prod.splits)
  with inv have "sql_exec st (V db) = Some (n, V db')"
    by (auto simp: pg_inv_def intro: sql_engine.execute_ok)
  with inv n step [of "V db" n "V db'"] show "pg_inv S E V db' \<and> R (pg_abs S (V db)) x (pg_abs S (V db'))"
    by (simp add: pg_inv_def)
next
  fix db e db'
  assume inv: "pg_inv S E V db" and "mapE f (pg_execute E st) db = (Inl e, db')"
  then have "pg_execute E st db = (Inl e, db')"
    by (auto simp: mapE_def mapR_eq_Inr mapR_eq_Inl split: prod.splits)
  with inv have "V db' = V db"
    by (auto simp: pg_inv_def intro: sql_engine.execute_failed)
  with inv show "pg_inv S E V db' \<and> pg_abs S (V db') = pg_abs S (V db)"
    by (simp add: pg_inv_def)
qed

lemma pg_value_wr:
  assumes "\<And>w. value = Inr w \<Longrightarrow> wr invar \<alpha> (f w) R"
  shows "wr invar \<alpha> (bindE (liftE value) f) R"
  using assms by (cases "value") (auto simp: bindE_def liftE_def wr_def)

lemma pg_insert_wr:
  assumes "\<And>w tabs n tabs'. value = Inr w \<Longrightarrow> serde_codec S \<Longrightarrow> tables_ok S tabs \<Longrightarrow>
      sql_exec (InsertRow t (cols @ [(''data'', Data w)])) tabs = Some (n, tabs') \<Longrightarrow>
      tables_ok S tabs' \<and> R (pg_abs S tabs) () (pg_abs S tabs')"
  shows "wr (pg_inv S E V) (\<lambda>db. pg_abs S (V db)) (pg_insert E t cols value) R"
  unfolding pg_insert_def pg_write_def
  by (rule pg_value_wr, rule pg_execute_wr) (use assms in blast)

lemma pg_update_wr:
  assumes "\<And>w tabs n tabs'. value = Inr w \<Longrightarrow> serde_codec S \<Longrightarrow> tables_ok S tabs \<Longrightarrow>
      sql_exec (SetColumn t ''data'' (Data w) cond) tabs = Some (n, tabs') \<Longrightarrow>
      tables_ok S tabs' \<and> R (pg_abs S tabs) () (pg_abs S tabs')"
  shows "wr (pg_inv S E V) (\<lambda>db. pg_abs S (V db)) (pg_update E t cond value) R"
  unfolding pg_update_def pg_write_def
  by (rule pg_value_wr, rule pg_execute_wr) (use assms in blast)

lemma fetch_optional_rd:
  assumes "\<And>tabs cs r. tables_ok S tabs \<Longrightarrow> sql_select q tabs cs \<Longrightarrow>
      (case cs of [] \<Rightarrow> Inr None | c # _ \<Rightarrow> mapR Some (f c)) = Inr r \<Longrightarrow> Q (pg_abs S tabs) r"
  shows "rd (pg_inv S E V) (\<lambda>db. pg_abs S (V db)) (fetch_optional E q f) Q"
  using assms unfolding rd_def fetch_optional_def pg_inv_def
  by (auto simp: bindR_eq_Inr dest: sql_engine.fetch)

lemma fetch_rows_rd:
  assumes "\<And>tabs cs xs. tables_ok S tabs \<Longrightarrow> sql_select q tabs cs \<Longrightarrow> traverse f cs = Inr xs \<Longrightarrow>
      Q (pg_abs S tabs) xs"
  shows "rd (pg_inv S E V) (\<lambda>db. pg_abs S (V db)) (fetch_rows E q f) Q"
  using assms unfolding rd_def fetch_rows_def pg_inv_def
  by (auto simp: bindR_eq_Inr dest: sql_engine.fetch)

section \<open>The methods of a table with a data column\<close>

text \<open>
  A table with a data column and its map in the abstract store: the laws of the statements a method runs
  on it, once for the organizations, formations, tokens, sinks, identity providers, rules and key material.
\<close>

locale pg_data = pg_rows t cols own
  for t :: pg_table and cols :: "'k \<Rightarrow> 'w row" and own :: "'k \<Rightarrow> string" +
  fixes S :: "'w serde" and de :: "'w \<Rightarrow> err + 'v" and mine :: "'k \<Rightarrow> 'v \<Rightarrow> bool"
    and get :: "abs_store \<Rightarrow> 'k \<Rightarrow> 'v option" and upd :: "('k \<Rightarrow> 'v option) \<Rightarrow> abs_store \<Rightarrow> abs_store"
  assumes rows: "tables_ok S tabs \<Longrightarrow> pg_rows_ok t cols (dec de) (data_row mine) (tabs t)"
    and get: "get (pg_abs S tabs) = pg_tab t cols (dec de) (tabs t)"
    and frame: "tables_ok S tabs \<Longrightarrow> pg_rows_ok t cols (dec de) (data_row mine) (tabs' t) \<Longrightarrow>
      (\<forall>u. u \<noteq> t \<longrightarrow> tabs' u = tabs u) \<Longrightarrow>
      tables_ok S tabs' \<and> pg_abs S tabs' = upd (pg_tab t cols (dec de) (tabs' t)) (pg_abs S tabs)"
    and upd_get: "upd (get a) a = a"
begin

lemma create_wr:
  assumes "\<And>w. serde_codec S \<Longrightarrow> value = Inr w \<Longrightarrow> de w = Inr x" and "mine key x"
  shows "wr (pg_inv S E V) (\<lambda>db. pg_abs S (V db)) (pg_insert E t (cols key) value)
    (\<lambda>a _ a'. a' = upd ((get a)(key \<mapsto> x)) a)"
proof (rule pg_insert_wr)
  fix w tabs n tabs'
  assume *: "value = Inr w" "serde_codec S" "tables_ok S tabs"
    "sql_exec (InsertRow t (cols key @ [(''data'', Data w)])) tabs = Some (n, tabs')"
  from create_exec [where tabs = tabs, OF rows [OF *(3)] assms(1) [OF *(2,1)] assms(2) *(4)] frame [OF *(3), of tabs']
  show "tables_ok S tabs' \<and> pg_abs S tabs' = upd ((get (pg_abs S tabs))(key \<mapsto> x)) (pg_abs S tabs)"
    by (simp add: get)
qed

lemma change_wr:
  assumes "\<And>w. serde_codec S \<Longrightarrow> value = Inr w \<Longrightarrow> de w = Inr x" and "mine key x"
  shows "wr (pg_inv S E V) (\<lambda>db. pg_abs S (V db)) (pg_update E t (cols key) value)
    (\<lambda>a _ a'. a' = upd ((get a)(key \<mapsto> x)) a \<or> (key \<notin> dom (get a) \<and> a' = a))"
proof (rule pg_update_wr)
  fix w tabs n tabs'
  assume *: "value = Inr w" "serde_codec S" "tables_ok S tabs"
    "sql_exec (SetColumn t ''data'' (Data w) (cols key)) tabs = Some (n, tabs')"
  from change_exec [where tabs = tabs, OF rows [OF *(3)] assms(1) [OF *(2,1)] assms(2) *(4)] frame [OF *(3), of tabs']
    upd_get [of "pg_abs S tabs"]
  show "tables_ok S tabs' \<and> (pg_abs S tabs' = upd ((get (pg_abs S tabs))(key \<mapsto> x)) (pg_abs S tabs) \<or>
      key \<notin> dom (get (pg_abs S tabs)) \<and> pg_abs S tabs' = pg_abs S tabs)"
    by (simp add: get domIff split: if_splits)
qed

lemma store_wr:
  assumes "serde_codec S \<Longrightarrow> de w = Inr x" and "mine key x"
  shows "wr (pg_inv S E V) (\<lambda>db. pg_abs S (V db)) (pg_write E (UpsertRow t (cols key @ [(''data'', Data w)]) ''data''))
    (\<lambda>a _ a'. a' = upd ((get a)(key \<mapsto> x)) a)"
  unfolding pg_write_def
proof (rule pg_execute_wr)
  fix tabs n tabs'
  assume *: "serde_codec S" "tables_ok S tabs"
    "sql_exec (UpsertRow t (cols key @ [(''data'', Data w)]) ''data'') tabs = Some (n, tabs')"
  from store_exec [where tabs = tabs, OF rows [OF *(2)] assms(1) [OF *(1)] assms(2) *(3)] frame [OF *(2), of tabs']
  show "tables_ok S tabs' \<and> pg_abs S tabs' = upd ((get (pg_abs S tabs))(key \<mapsto> x)) (pg_abs S tabs)"
    by (simp add: get)
qed

lemma remove_wr:
  assumes "t \<noteq> Orgs"
  shows "wr (pg_inv S E V) (\<lambda>db. pg_abs S (V db)) (pg_affected E (DeleteRows t (cols key)))
    (\<lambda>a b a'. b = (key \<in> dom (get a)) \<and> a' = upd ((get a)(key := None)) a)"
  unfolding pg_affected_def
proof (rule pg_execute_wr)
  fix tabs n tabs'
  assume *: "tables_ok S tabs" "sql_exec (DeleteRows t (cols key)) tabs = Some (n, tabs')"
  from remove_exec [where tabs = tabs, OF rows [OF *(1)] assms *(2)] frame [OF *(1), of tabs']
  show "tables_ok S tabs' \<and> (0 < n) = (key \<in> dom (get (pg_abs S tabs))) \<and>
      pg_abs S tabs' = upd ((get (pg_abs S tabs))(key := None)) (pg_abs S tabs)"
    by (simp add: get)
qed

lemma lookup_rd:
  "rd (pg_inv S E V) (\<lambda>db. pg_abs S (V db)) (fetch_optional E (select_data t (cols key) None None) (from_value de))
     (\<lambda>a r. r = get a key)"
  by (rule fetch_optional_rd) (auto simp: get intro: lookup_data [OF rows])

lemma list_rd:
  assumes "\<And>key rest. holds cond (cols key @ rest) \<longleftrightarrow> P key"
    and "\<And>key key' x. mine key x \<Longrightarrow> mine key' x \<Longrightarrow> P key \<Longrightarrow> P key' \<Longrightarrow> key = key'"
  shows "rd (pg_inv S E V) (\<lambda>db. pg_abs S (V db)) (fetch_rows E (select_data t cond ord None) (from_value de))
    (\<lambda>a xs. distinct xs \<and> set xs = {x. \<exists>key. get a key = Some x \<and> P key})"
proof (rule fetch_rows_rd)
  fix tabs cs xs
  assume *: "tables_ok S tabs" "sql_select (select_data t cond ord None) tabs cs" "traverse (from_value de) cs = Inr xs"
  show "distinct xs \<and> set xs = {x. \<exists>key. get (pg_abs S tabs) key = Some x \<and> P key}"
    unfolding get by (rule list_data [OF rows, OF *(1-3) assms(1)]) (auto simp: data_row_def dest: assms(2))
qed

end

interpretation d_orgs: pg_data Orgs org_cols id S "de_org S" pg_own_org a_orgs "\<lambda>m a. a\<lparr>a_orgs := m\<rparr>"
  for S :: "'w serde"
  by unfold_locales (simp_all add: tables_ok_def pg_abs_def)

interpretation d_formations: pg_data Formations "pair_cols ''app_id''" fst S "de_formation S" pg_own_formation
  a_formations "\<lambda>m a. a\<lparr>a_formations := m\<rparr>" for S :: "'w serde"
  by unfold_locales (simp_all add: tables_ok_def pg_abs_def)

interpretation d_tokens: pg_data Enrollment_tokens "pair_cols ''token_id''" fst S "de_token S" pg_own_token
  a_tokens "\<lambda>m a. a\<lparr>a_tokens := m\<rparr>" for S :: "'w serde"
  by unfold_locales (simp_all add: tables_ok_def pg_abs_def)

interpretation d_sinks: pg_data Cdc_sinks "pair_cols ''sink_id''" fst S "de_sink S" pg_own_sink
  a_sinks "\<lambda>m a. a\<lparr>a_sinks := m\<rparr>" for S :: "'w serde"
  by unfold_locales (simp_all add: tables_ok_def pg_abs_def)

interpretation d_idps: pg_data Idp_configs "pair_cols ''idp_id''" fst S "de_idp S" pg_own_idp
  a_idps "\<lambda>m a. a\<lparr>a_idps := m\<rparr>" for S :: "'w serde"
  by unfold_locales (simp_all add: tables_ok_def pg_abs_def)

interpretation d_rules: pg_data Policy_rules "pair_cols ''rule_id''" fst S "de_rule S" pg_own_rule
  a_rules "\<lambda>m a. a\<lparr>a_rules := m\<rparr>" for S :: "'w serde"
  by unfold_locales (simp_all add: tables_ok_def pg_abs_def)

interpretation d_genesis: pg_data Genesis "pair_cols ''app_id''" fst S "genesis_bytes S" "\<lambda>_ _. True"
  a_genesis "\<lambda>m a. a\<lparr>a_genesis := m\<rparr>" for S :: "'w serde"
  by unfold_locales (simp_all add: tables_ok_def pg_abs_def)

section \<open>Cursors\<close>

lemma pg_set_cursor_wr:
  "wr (pg_inv S E V) (\<lambda>db. pg_abs S (V db)) (pg_set_cursor E k c d h)
     (\<lambda>a _ a'. a' = a\<lparr>a_cursors := (a_cursors a)((k, c, d) \<mapsto> h)\<rparr>)"
  unfolding pg_set_cursor_def pg_write_def
proof (rule pg_execute_wr)
  fix tabs n tabs'
  assume ok: "tables_ok S tabs" and ex: "sql_exec (UpsertRow Cdc_cursors
      [(''org_id'', Text k), (''app_id'', Text c), (''document_id'', Text d), (''change_hash'', Text h)]
      ''change_hash'') tabs = Some (n, tabs')"
  then have ex': "sql_exec (UpsertRow Cdc_cursors (cursor_cols (k, c, d) @ [(''change_hash'', Text h)])
      ''change_hash'') tabs = Some (n, tabs')" by (simp del: sql_exec.simps)
  have val: "cursor_hash (cursor_cols (k, c, d) @ [(''change_hash'', Text h)]) = Some h"
    and row: "cursor_row (k, c, d) [(''change_hash'', Text h)] h"
    and col: "''change_hash'' \<notin> set (pkey Cdc_cursors)"
    by (simp_all add: cursor_hash_def cursor_row_def pkey_def)
  have only: "cursor_row (k, c, d) rest y \<Longrightarrow> set_column ''change_hash'' (Text h) rest = [(''change_hash'', Text h)]" for rest y
    by (simp add: cursor_row_def set_column_def)
  note up = pg_cursors.upsert_exec [where val = cursor_hash and good = cursor_row and tabs = tabs,
      OF tables_okD(9) [OF ok] col ex' val row]
  have "\<forall>u. u \<noteq> Cdc_cursors \<longrightarrow> tabs' u = tabs u"
    using ex by (auto split: if_splits)
  with ok up(1) [OF only] up(2) [OF only]
  show "tables_ok S tabs' \<and> pg_abs S tabs' =
      (pg_abs S tabs)\<lparr>a_cursors := (a_cursors (pg_abs S tabs))((k, c, d) \<mapsto> h)\<rparr>"
    by (simp add: tables_ok_def pg_abs_def)
qed

lemma pg_get_cursor_rd:
  "rd (pg_inv S E V) (\<lambda>db. pg_abs S (V db)) (pg_get_cursor E k c d) (\<lambda>a r. r = a_cursors a (k, c, d))"
  unfolding pg_get_cursor_def
proof (rule fetch_optional_rd)
  fix tabs cs r
  assume *: "tables_ok S tabs" "sql_select \<lparr>qy_column = ''change_hash'', qy_table = Cdc_cursors,
        qy_where = [(''org_id'', Text k), (''app_id'', Text c), (''document_id'', Text d)],
        qy_order = None, qy_limit = None\<rparr> tabs cs"
    "(case cs of [] \<Rightarrow> Inr None | c # _ \<Rightarrow> mapR Some (text_cell c)) = Inr r"
  have "r = pg_tab Cdc_cursors cursor_cols cursor_hash (tabs Cdc_cursors) (k, c, d)"
    by (rule pg_cursors.fetch_key [where tabs = tabs, OF tables_okD(9) [OF *(1)] *(2) _ _ _ _ *(3)])
      (auto simp: cursor_hash_def elim: text_cell.elims)
  then show "r = a_cursors (pg_abs S tabs) (k, c, d)"
    by (simp add: pg_abs_def)
qed

section \<open>The audit log\<close>

lemma audit_tab_None:
  "pg_tab Enrollment_audit (pair_cols ''audit_id'') (dec (de_audit S)) rows (k, i) = None \<Longrightarrow>
     audit_tab S rows (k, ts, i) = None"
  by (simp add: audit_tab_def)

lemma pg_append_audit_wr:
  assumes "nul_free (aud_org_id e)"
  shows "wr (pg_inv S E V) (\<lambda>db. pg_abs S (V db)) (pg_append_audit S E e)
    (\<lambda>a _ a'. a' = a\<lparr>a_audit := (a_audit a)((aud_org_id e, aud_timestamp_ms e, aud_audit_id e) \<mapsto> e)\<rparr>)"
  unfolding pg_append_audit_def
proof (rule pg_insert_wr)
  let ?key = "(aud_org_id e, aud_audit_id e)"
  fix w tabs n tabs'
  assume *: "ser_audit S e = Inr w" "serde_codec S" "tables_ok S tabs"
    "sql_exec (InsertRow Enrollment_audit ([(''org_id'', Text (aud_org_id e)), (''audit_id'', Text (aud_audit_id e)),
       (''app_id'', Text (aud_app_id e)), (''timestamp_ms'', BigInt (aud_timestamp_ms e))] @
       [(''data'', Data w)])) tabs = Some (n, tabs')"
  let ?rest = "[(''app_id'', Text (aud_app_id e)), (''timestamp_ms'', BigInt (aud_timestamp_ms e)), (''data'', Data w)]"
  from *(4) have ex: "sql_exec (InsertRow Enrollment_audit (pair_cols ''audit_id'' ?key @ ?rest)) tabs = Some (n, tabs')"
    by (simp del: sql_exec.simps)
  have val: "dec (de_audit S) (pair_cols ''audit_id'' ?key @ ?rest) = Some e"
    using serde_codec.audit [OF *(2,1)] by (simp add: dec_def)
  have row: "audit_row ?key ?rest e" using assms by simp
  note ins = pg_audit.insert_exec [where val = "dec (de_audit S)" and good = audit_row and tabs = tabs,
      OF tables_okD(7) [OF *(3)] ex val row]
  have "audit_tab S (tabs' Enrollment_audit) =
      (audit_tab S (tabs Enrollment_audit))((aud_org_id e, aud_timestamp_ms e, aud_audit_id e) \<mapsto> e)"
    using ins(3) by (auto simp: fun_eq_iff audit_tab_def ins(2))
  with *(3) ins(1,4)
  show "tables_ok S tabs' \<and> pg_abs S tabs' = (pg_abs S tabs)\<lparr>a_audit :=
      (a_audit (pg_abs S tabs))((aud_org_id e, aud_timestamp_ms e, aud_audit_id e) \<mapsto> e)\<rparr>"
    by (simp add: tables_ok_def pg_abs_def)
qed

text \<open>The condition of a listing, on a row of the log.\<close>

definition audit_cond :: "string \<Rightarrow> string option \<Rightarrow> 'w row" where
  "audit_cond k app = (case app of Some a \<Rightarrow> [(''org_id'', Text k), (''app_id'', Text a)] | None \<Rightarrow> [(''org_id'', Text k)])"

lemma audit_cond_holds:
  "audit_row key rest e \<Longrightarrow>
     holds (audit_cond k app) (pair_cols ''audit_id'' key @ rest) \<longleftrightarrow>
     fst key = k \<and> (app = None \<or> app = Some (aud_app_id e))"
  by (cases key) (auto simp: audit_cond_def holds_def split: option.splits)

lemma pg_list_audit_rd:
  assumes "lim < 2 ^ 64"
  shows "rd (pg_inv S E V) (\<lambda>db. pg_abs S (V db)) (pg_list_audit S E k app lim) (\<lambda>a es. audit_page a k app lim es)"
  unfolding pg_list_audit_def audit_cond_def [symmetric]
proof (rule fetch_rows_rd)
  fix tabs :: "'b tables" and cs es
  let ?rows = "tabs Enrollment_audit"
  assume ok: "tables_ok S tabs" and sel: "sql_select (select_data Enrollment_audit (audit_cond k app)
      (Some (Desc ''timestamp_ms'')) (Some (of_nat lim))) tabs cs"
    and tr: "traverse (from_value (de_audit S)) cs = Inr es"
  have "unat (of_nat lim :: u64) = lim"
    using assms by (simp add: unat_of_nat)
  with sel obtain rs where rs: "mset rs = mset (filter (holds (audit_cond k app)) ?rows)"
    "map (\<lambda>r. map_of r ''data'') (take lim rs) = map Some cs"
    by (auto simp: sql_select_def select_data_def simp del: mset_filter)
  let ?all = "map (the \<circ> dec (de_audit S)) rs"
  have es: "es = take lim ?all"
    unfolding take_map by (rule traverse_values [OF rs(2) tr]) (rule from_value_dec)
  let ?P = "\<lambda>key e. fst key = k \<and> (app = None \<or> app = Some (aud_app_id e))"
  have "distinct ?all"
    by (rule pg_audit.listed_distinct [where P = ?P, OF tables_okD(7) [OF ok] rs(1)])
      (auto simp: audit_cond_holds)
  moreover have "set ?all = {e. \<exists>key. pg_tab Enrollment_audit (pair_cols ''audit_id'') (dec (de_audit S)) ?rows key = Some e \<and> ?P key e}"
    by (rule pg_audit.listed [where P = ?P, OF tables_okD(7) [OF ok] rs(1)]) (rule audit_cond_holds)
  then have "set ?all = audit_matches (pg_abs S tabs) k app"
    by (simp add: audit_matches_def pg_abs_def audit_tab_Some)
  ultimately show "audit_page (pg_abs S tabs) k app lim es"
    using set_take_subset [of lim ?all] unfolding audit_page_def es by (auto simp: min_def)
qed

section \<open>Deleting an organization\<close>

text \<open>The cascade keeps the rows of the organizations that stay.\<close>

definition stays :: "'w tables \<Rightarrow> string \<Rightarrow> 'w cell option \<Rightarrow> bool" where
  "stays tabs k v \<longleftrightarrow> \<not> (list_ex (holds (org_cols k)) (tabs Orgs) \<and> v = Some (Text k))"

lemma cascade_exec:
  assumes "sql_exec (DeleteRows Orgs (org_cols k)) tabs = Some (n, tabs')"
  shows "tabs' Orgs = filter (\<lambda>x. \<not> holds (org_cols k) x) (tabs Orgs)"
    and "n = length (filter (holds (org_cols k)) (tabs Orgs))"
    and "u \<noteq> Orgs \<Longrightarrow> tabs' u = filter (\<lambda>x. stays tabs k (map_of x ''org_id'')) (tabs u)"
  using assms by (auto simp: Let_def stays_def org_cols_def holds_def list_ex_iff intro!: filter_cong)

lemma drops_kept:
  "(\<And>j c. p (j, c) \<longleftrightarrow> stays tabs k (Some (Text j))) \<Longrightarrow> drops_rows k m (\<lambda>key. if p key then m key else None)"
  by (auto simp: drops_rows_def stays_def)

lemma audit_tab_kept:
  assumes "pg_tab Enrollment_audit (pair_cols ''audit_id'') (dec (de_audit S)) rows' =
    (\<lambda>key. if p (fst key) then pg_tab Enrollment_audit (pair_cols ''audit_id'') (dec (de_audit S)) rows key else None)"
  shows "audit_tab S rows' = (\<lambda>key. if p (fst key) then audit_tab S rows key else None)"
  by (auto simp: audit_tab_def assms fun_eq_iff)

lemma pg_delete_org_wr:
  "wr (pg_inv S E V) (\<lambda>db. pg_abs S (V db)) (pg_delete_org E k)
     (\<lambda>a b a'. b = (k \<in> dom (a_orgs a)) \<and> org_removed k a a')"
  unfolding pg_delete_org_def pg_affected_def
proof (rule pg_execute_wr)
  fix tabs n tabs'
  assume ok: "tables_ok S tabs" and "sql_exec (DeleteRows Orgs [(''org_id'', Text k)]) tabs = Some (n, tabs')"
  then have ex: "sql_exec (DeleteRows Orgs (org_cols k)) tabs = Some (n, tabs')"
    by (simp add: org_cols_def del: sql_exec.simps)
  note D = tables_okD [OF ok] and C = cascade_exec [OF ex]
  let ?Q = "stays tabs k"
  note K = pg_formations.keep_orgs [where Q = ?Q, OF D(2)] pg_tokens.keep_orgs [where Q = ?Q, OF D(3)]
    pg_sinks.keep_orgs [where Q = ?Q, OF D(4)] pg_idps.keep_orgs [where Q = ?Q, OF D(5)]
    pg_rules.keep_orgs [where Q = ?Q, OF D(6)] pg_audit.keep_orgs [where Q = ?Q, OF D(7)]
    pg_genesis.keep_orgs [where Q = ?Q, OF D(8)] pg_cursors.keep_orgs [where Q = ?Q, OF D(9)]
  note O = pg_orgs.delete_row [OF D(1), of k]
  have "tables_ok S tabs'"
    unfolding tables_ok_def by (simp add: C K O)
  moreover have "(0 < n) = (k \<in> dom (a_orgs (pg_abs S tabs)))"
    using O(3) by (simp add: C pg_abs_def)
  moreover have "org_removed k (pg_abs S tabs) (pg_abs S tabs')"
    unfolding org_removed_def pg_abs_def
    by (simp add: C K O audit_tab_kept [where p = "\<lambda>j. ?Q (Some (Text j))"] drops_kept)
  ultimately show "tables_ok S tabs' \<and> (0 < n) = (k \<in> dom (a_orgs (pg_abs S tabs))) \<and>
      org_removed k (pg_abs S tabs) (pg_abs S tabs')"
    by blast
qed

section \<open>The contract\<close>

lemma rows_of_owned: "{x. \<exists>key. m key = Some x \<and> fst key = k} = rows_of m k"
  by (auto simp: rows_of_def)

lemma pg_list_tokens_rd:
  "rd (pg_inv S E V) (\<lambda>db. pg_abs S (V db)) (pg_list_tokens S E k c)
     (\<lambda>a xs. distinct xs \<and> set xs = {t \<in> rows_of (a_tokens a) k. tok_app_id t = c})"
proof -
  have "rd (pg_inv S E V) (\<lambda>db. pg_abs S (V db))
      (fetch_rows E (select_data Enrollment_tokens [(''org_id'', Text k)] (Some (Asc ''token_id'')) None)
        (from_value (de_token S)))
      (\<lambda>a xs. distinct xs \<and> set xs = {x. \<exists>key. a_tokens a key = Some x \<and> fst key = k})"
    by (rule d_tokens.list_rd) (auto simp: pg_tokens.holds_owner)
  then show ?thesis
    unfolding rows_of_owned by (auto simp: rd_def pg_list_tokens_def mapR_eq_Inr)
qed

lemma pg_list_orgs_rd:
  "rd (pg_inv S E V) (\<lambda>db. pg_abs S (V db)) (pg_list_orgs S E)
     (\<lambda>a xs. distinct (map org_org_id xs) \<and> set xs = ran (a_orgs a))"
proof -
  have "rd (pg_inv S E V) (\<lambda>db. pg_abs S (V db)) (pg_list_orgs S E)
      (\<lambda>a xs. distinct xs \<and> set xs = {x. \<exists>key. a_orgs a key = Some x \<and> True})"
    unfolding pg_list_orgs_def by (rule d_orgs.list_rd) (auto simp: holds_def pg_own_org_def)
  moreover have "inj_on org_org_id (ran (a_orgs (pg_abs S tabs)))" if "tables_ok S tabs" for tabs
    using pg_wf [OF that] by (auto simp: inj_on_def ran_def abs_wf_def)
  ultimately show ?thesis
    by (auto simp: rd_def distinct_map pg_inv_def ran_def)
qed

lemma pair_conds:
  "[(''org_id'', Text k), (c, Text i)] = pair_cols c (k, i)" "[(''org_id'', Text k)] = org_cols k"
  by (simp_all add: org_cols_def)

text \<open>The laws of the remaining methods, each an instance of the table's.\<close>

lemma pg_create_formation_wr:
  assumes "nul_free k" and "nul_free (form_app_id f)"
  shows "wr (pg_inv S E V) (\<lambda>db. pg_abs S (V db)) (pg_create_formation S E k f)
    (\<lambda>a _ a'. a' = a\<lparr>a_formations := (a_formations a)((k, form_app_id f) \<mapsto> f)\<rparr>)"
  unfolding pg_create_formation_def pair_conds
  by (rule d_formations.create_wr) (use assms in \<open>auto intro: serde_codec.formation\<close>)

lemma pg_create_token_wr:
  assumes "nul_free (tok_org_id t)" and "nul_free (tok_token_id t)"
  shows "wr (pg_inv S E V) (\<lambda>db. pg_abs S (V db)) (pg_create_token S E t)
    (\<lambda>a _ a'. a' = a\<lparr>a_tokens := (a_tokens a)((tok_org_id t, tok_token_id t) \<mapsto> t)\<rparr>)"
  unfolding pg_create_token_def pair_conds
  by (rule d_tokens.create_wr) (use assms in \<open>auto intro: serde_codec.token\<close>)

lemma pg_create_sink_wr:
  assumes "nul_free (sink_org_id n)" and "nul_free (sink_sink_id n)"
  shows "wr (pg_inv S E V) (\<lambda>db. pg_abs S (V db)) (pg_create_sink S E n)
    (\<lambda>a _ a'. a' = a\<lparr>a_sinks := (a_sinks a)((sink_org_id n, sink_sink_id n) \<mapsto> n)\<rparr>)"
  unfolding pg_create_sink_def pair_conds
  by (rule d_sinks.create_wr) (use assms in \<open>auto intro: serde_codec.sink\<close>)

lemma pg_create_idp_wr:
  assumes "nul_free (idp_org_id i)" and "nul_free (idp_idp_id i)"
  shows "wr (pg_inv S E V) (\<lambda>db. pg_abs S (V db)) (pg_create_idp S E i)
    (\<lambda>a _ a'. a' = a\<lparr>a_idps := (a_idps a)((idp_org_id i, idp_idp_id i) \<mapsto> i)\<rparr>)"
  unfolding pg_create_idp_def pair_conds
  by (rule d_idps.create_wr) (use assms in \<open>auto intro: serde_codec.idp\<close>)

lemma pg_create_policy_rule_wr:
  assumes "nul_free (rule_org_id r)" and "nul_free (rule_rule_id r)"
  shows "wr (pg_inv S E V) (\<lambda>db. pg_abs S (V db)) (pg_create_policy_rule S E r)
    (\<lambda>a _ a'. a' = a\<lparr>a_rules := (a_rules a)((rule_org_id r, rule_rule_id r) \<mapsto> r)\<rparr>)"
  unfolding pg_create_policy_rule_def pair_conds
  by (rule d_rules.create_wr) (use assms in \<open>auto intro: serde_codec.rule\<close>)

lemma pg_update_token_wr:
  assumes "nul_free (tok_org_id t)" and "nul_free (tok_token_id t)"
  shows "wr (pg_inv S E V) (\<lambda>db. pg_abs S (V db)) (pg_update_token S E t)
    (\<lambda>a _ a'. a' = a\<lparr>a_tokens := (a_tokens a)((tok_org_id t, tok_token_id t) \<mapsto> t)\<rparr> \<or>
      ((tok_org_id t, tok_token_id t) \<notin> dom (a_tokens a) \<and> a' = a))"
  unfolding pg_update_token_def pair_conds
  by (rule d_tokens.change_wr) (use assms in \<open>auto intro: serde_codec.token\<close>)

lemma pg_update_sink_wr:
  assumes "nul_free (sink_org_id n)" and "nul_free (sink_sink_id n)"
  shows "wr (pg_inv S E V) (\<lambda>db. pg_abs S (V db)) (pg_update_sink S E n)
    (\<lambda>a _ a'. a' = a\<lparr>a_sinks := (a_sinks a)((sink_org_id n, sink_sink_id n) \<mapsto> n)\<rparr> \<or>
      ((sink_org_id n, sink_sink_id n) \<notin> dom (a_sinks a) \<and> a' = a))"
  unfolding pg_update_sink_def pair_conds
  by (rule d_sinks.change_wr) (use assms in \<open>auto intro: serde_codec.sink\<close>)

lemma pg_update_idp_wr:
  assumes "nul_free (idp_org_id i)" and "nul_free (idp_idp_id i)"
  shows "wr (pg_inv S E V) (\<lambda>db. pg_abs S (V db)) (pg_update_idp S E i)
    (\<lambda>a _ a'. a' = a\<lparr>a_idps := (a_idps a)((idp_org_id i, idp_idp_id i) \<mapsto> i)\<rparr> \<or>
      ((idp_org_id i, idp_idp_id i) \<notin> dom (a_idps a) \<and> a' = a))"
  unfolding pg_update_idp_def pair_conds
  by (rule d_idps.change_wr) (use assms in \<open>auto intro: serde_codec.idp\<close>)

lemma pg_org_wr:
  assumes "nul_free (org_org_id x)"
  shows "wr (pg_inv S E V) (\<lambda>db. pg_abs S (V db)) (pg_create_org S E x)
    (\<lambda>a _ a'. a' = a\<lparr>a_orgs := (a_orgs a)(org_org_id x \<mapsto> x)\<rparr>)"
    and "wr (pg_inv S E V) (\<lambda>db. pg_abs S (V db)) (pg_update_org S E x)
    (\<lambda>a _ a'. a' = a\<lparr>a_orgs := (a_orgs a)(org_org_id x \<mapsto> x)\<rparr> \<or> (org_org_id x \<notin> dom (a_orgs a) \<and> a' = a))"
  unfolding pg_create_org_def pg_update_org_def pair_conds
  by (rule d_orgs.create_wr d_orgs.change_wr; use assms in \<open>auto simp: pg_own_org_def intro: serde_codec.org\<close>)+

lemma pg_list_formations_rd:
  shows "rd (pg_inv S E V) (\<lambda>db. pg_abs S (V db)) (pg_list_formations S E k) (\<lambda>a xs. lists_rows (a_formations a) k xs)"
  unfolding pg_list_formations_def lists_rows_def rows_of_owned [symmetric]
  by (rule d_formations.list_rd) (auto simp: pg_formations.holds_owner)

lemma pg_list_sinks_rd:
  shows "rd (pg_inv S E V) (\<lambda>db. pg_abs S (V db)) (pg_list_sinks S E k) (\<lambda>a xs. lists_rows (a_sinks a) k xs)"
  unfolding pg_list_sinks_def lists_rows_def rows_of_owned [symmetric]
  by (rule d_sinks.list_rd) (auto simp: pg_sinks.holds_owner)

lemma pg_list_idps_rd:
  shows "rd (pg_inv S E V) (\<lambda>db. pg_abs S (V db)) (pg_list_idps S E k) (\<lambda>a xs. lists_rows (a_idps a) k xs)"
  unfolding pg_list_idps_def lists_rows_def rows_of_owned [symmetric]
  by (rule d_idps.list_rd) (auto simp: pg_idps.holds_owner)

lemma pg_list_policy_rules_rd:
  shows "rd (pg_inv S E V) (\<lambda>db. pg_abs S (V db)) (pg_list_policy_rules S E k) (\<lambda>a xs. lists_rows (a_rules a) k xs)"
  unfolding pg_list_policy_rules_def lists_rows_def rows_of_owned [symmetric]
  by (rule d_rules.list_rd) (auto simp: pg_rules.holds_owner)

lemma pg_genesis_wr:
  shows "wr (pg_inv S E V) (\<lambda>db. pg_abs S (V db)) (pg_store_genesis S E k c g)
    (\<lambda>a _ a'. a' = a\<lparr>a_genesis := (a_genesis a)((k, c) \<mapsto> g)\<rparr>)"
  using d_genesis.store_wr [where S = S and key = "(k, c)" and w = "val_bytes S g" and x = g]
  by (simp add: pg_store_genesis_def genesis_bytes_def serde_codec.raw)

lemma pg_delete_wr:
  shows "wr (pg_inv S E V) (\<lambda>db. pg_abs S (V db)) (pg_delete_formation E k c)
      (\<lambda>a b a'. b = ((k, c) \<in> dom (a_formations a)) \<and> a' = a\<lparr>a_formations := (a_formations a)((k, c) := None)\<rparr>)"
    and "wr (pg_inv S E V) (\<lambda>db. pg_abs S (V db)) (pg_delete_token E k c)
      (\<lambda>a b a'. b = ((k, c) \<in> dom (a_tokens a)) \<and> a' = a\<lparr>a_tokens := (a_tokens a)((k, c) := None)\<rparr>)"
    and "wr (pg_inv S E V) (\<lambda>db. pg_abs S (V db)) (pg_delete_sink E k c)
      (\<lambda>a b a'. b = ((k, c) \<in> dom (a_sinks a)) \<and> a' = a\<lparr>a_sinks := (a_sinks a)((k, c) := None)\<rparr>)"
    and "wr (pg_inv S E V) (\<lambda>db. pg_abs S (V db)) (pg_delete_idp E k c)
      (\<lambda>a b a'. b = ((k, c) \<in> dom (a_idps a)) \<and> a' = a\<lparr>a_idps := (a_idps a)((k, c) := None)\<rparr>)"
    and "wr (pg_inv S E V) (\<lambda>db. pg_abs S (V db)) (pg_delete_policy_rule E k c)
      (\<lambda>a b a'. b = ((k, c) \<in> dom (a_rules a)) \<and> a' = a\<lparr>a_rules := (a_rules a)((k, c) := None)\<rparr>)"
    and "wr (pg_inv S E V) (\<lambda>db. pg_abs S (V db)) (pg_delete_genesis E k c)
      (\<lambda>a b a'. b = ((k, c) \<in> dom (a_genesis a)) \<and> a' = a\<lparr>a_genesis := (a_genesis a)((k, c) := None)\<rparr>)"
  unfolding pg_delete_formation_def pg_delete_token_def pg_delete_sink_def pg_delete_idp_def pg_delete_policy_rule_def pg_delete_genesis_def pair_conds
  by (rule d_formations.remove_wr d_tokens.remove_wr d_sinks.remove_wr d_idps.remove_wr d_rules.remove_wr d_genesis.remove_wr; simp)+

lemma genesis_reader: "(\<lambda>w. Inr (bytes_val S w)) = genesis_bytes S"
  by (simp add: genesis_bytes_def fun_eq_iff)

lemma pg_get_rd:
  shows "rd (pg_inv S E V) (\<lambda>db. pg_abs S (V db)) (pg_get_formation S E k c) (\<lambda>a r. r = a_formations a (k, c))"
    and "rd (pg_inv S E V) (\<lambda>db. pg_abs S (V db)) (pg_get_token S E k c) (\<lambda>a r. r = a_tokens a (k, c))"
    and "rd (pg_inv S E V) (\<lambda>db. pg_abs S (V db)) (pg_get_sink S E k c) (\<lambda>a r. r = a_sinks a (k, c))"
    and "rd (pg_inv S E V) (\<lambda>db. pg_abs S (V db)) (pg_get_idp S E k c) (\<lambda>a r. r = a_idps a (k, c))"
    and "rd (pg_inv S E V) (\<lambda>db. pg_abs S (V db)) (pg_get_genesis S E k c) (\<lambda>a r. r = a_genesis a (k, c))"
    and "rd (pg_inv S E V) (\<lambda>db. pg_abs S (V db)) (pg_get_org S E k) (\<lambda>a r. r = a_orgs a k)"
  unfolding pg_get_formation_def pg_get_token_def pg_get_sink_def pg_get_idp_def pg_get_genesis_def pg_get_org_def pair_conds genesis_reader
  by (rule d_formations.lookup_rd d_tokens.lookup_rd d_sinks.lookup_rd d_idps.lookup_rd d_genesis.lookup_rd d_orgs.lookup_rd)+

lemmas pg_laws =
  pg_org_wr pg_delete_org_wr pg_create_formation_wr pg_create_token_wr pg_create_sink_wr pg_create_idp_wr
  pg_create_policy_rule_wr pg_update_token_wr pg_update_sink_wr pg_update_idp_wr pg_delete_wr pg_genesis_wr
  pg_append_audit_wr pg_set_cursor_wr pg_get_rd pg_list_orgs_rd pg_list_formations_rd pg_list_tokens_rd
  pg_list_sinks_rd pg_list_idps_rd pg_list_policy_rules_rd pg_list_audit_rd pg_get_cursor_rd

lemma pg_inv_wf: "pg_inv S E V db \<Longrightarrow> abs_wf (pg_abs S (V db))"
  by (simp add: pg_inv_def pg_wf)

interpretation pg: storage_contract "postgres_backend S E" "\<lambda>db. pg_abs S (V db)" "pg_inv S E V"
  for S :: "'w serde" and E :: "('db, 'w) postgres" and V :: "'db \<Rightarrow> 'w tables"
  by unfold_locales (simp_all add: postgres_backend_def pg_laws pg_inv_wf)

end
