(* ===== verification/Postgres_Properties.thy ===== *)
theory Postgres_Properties
  imports Api_Properties Postgres_Refine
begin

text \<open>
  The gateway on the Postgres backend: from the first connection to an empty database on, every sequence
  of HTTP requests keeps the organizations apart; and no enrollment can succeed, because the hourly limit
  is checked with a query the server refuses. A small SQL engine shows that the laws asked of the server
  can be met, and runs the examples.
\<close>

abbreviation pg_manager ::
  "'w serde \<Rightarrow> ('db, 'w) postgres \<Rightarrow> 'n key_provider \<Rightarrow> bool \<Rightarrow> ('db, 'n) tenant_manager" where
  "pg_manager S E P en \<equiv> with_backend (postgres_backend S E) P en"

abbreviation pg_gateway ::
  "('k, 'g, 'j, 'db, 'n) gateway \<Rightarrow> 'w serde \<Rightarrow> ('db, 'w) postgres \<Rightarrow> 'n key_provider \<Rightarrow> bool
     \<Rightarrow> ('k, 'g, 'j, 'db, 'n) gateway" where
  "pg_gateway W S E P en \<equiv> W\<lparr>gw_tenant_mgr := pg_manager S E P en\<rparr>"

interpretation pg_http: api_service "pg_manager S E P en" "\<lambda>db. pg_abs S (V db)" "pg_inv S E V"
  for S E P en V
  by (simp add: api_service_def enrollment_service_def tenant_service_def with_backend_def pg.storage_contract_axioms)

section \<open>An SQL engine to run examples on\<close>

definition sort_rows :: "order_by option \<Rightarrow> 'w row list \<Rightarrow> 'w row list" where
  "sort_rows ord rs =
     (case ord of
        Some (Desc c) \<Rightarrow> sort_key (\<lambda>r. case map_of r c of Some (BigInt a) \<Rightarrow> - sint a | _ \<Rightarrow> 0) rs
      | _ \<Rightarrow> rs)"

definition select_rows :: "'w query \<Rightarrow> 'w tables \<Rightarrow> 'w row list" where
  "select_rows q tabs = sort_rows (qy_order q) (filter (holds (qy_where q)) (tabs (qy_table q)))"

definition column_of :: "string \<Rightarrow> 'w row list \<Rightarrow> err + 'w cell list" where
  "column_of c rs = traverse (\<lambda>r. ok_or (map_of r c) (Io ''no column'')) rs"

definition mem_sql :: "('w tables, 'w) postgres" where
  "mem_sql =
     \<lparr>pg_open = (\<lambda>_. Inr ()),
      pg_execute = (\<lambda>st tabs. case sql_exec st tabs of
        Some (n, tabs') \<Rightarrow> (Inr n, tabs') | None \<Rightarrow> (Inl (Io ''constraint''), tabs)),
      pg_fetch = (\<lambda>q tabs. case qy_limit q of
        None \<Rightarrow> column_of (qy_column q) (select_rows q tabs)
      | Some l \<Rightarrow> if sint l < 0 then Inl (Io ''LIMIT must not be negative'')
                  else column_of (qy_column q) (take (unat l) (select_rows q tabs)))\<rparr>"

lemma mset_sort_rows: "mset (sort_rows ord rs) = mset rs"
  by (simp add: sort_rows_def split: option.splits order_by.splits)

lemma in_order_sort_rows: "in_order ord (sort_rows ord rs)"
proof (cases ord)
  case (Some o')
  show ?thesis
  proof (cases o')
    case (Desc c)
    let ?f = "\<lambda>r. case map_of r c of Some (BigInt a) \<Rightarrow> - sint a | _ \<Rightarrow> 0"
    have "sorted_wrt (\<lambda>x y. ?f x \<le> ?f y) (sort_key ?f rs)"
      using sorted_sort_key [of ?f rs] by (simp add: sorted_map)
    then have "sorted_wrt (\<lambda>x y. case (map_of x c, map_of y c) of
        (Some (BigInt a), Some (BigInt b)) \<Rightarrow> sint b \<le> sint a | _ \<Rightarrow> True) (sort_key ?f rs)"
      by (rule sorted_wrt_mono_rel [rotated]) (auto split: option.splits cell.splits)
    then show ?thesis by (simp add: Some Desc in_order_def sort_rows_def)
  qed (simp add: Some in_order_def)
qed (simp add: in_order_def)

lemma column_of_Inr: "column_of c rs = Inr cs \<longleftrightarrow> map (\<lambda>r. map_of r c) rs = map Some cs"
  by (auto simp: column_of_def traverse_Inr ok_or_eq_Inr list_all2_conv_all_nth list_eq_iff_nth_eq)

interpretation mem_sql: sql_engine mem_sql "\<lambda>tabs. tabs"
proof unfold_locales
  fix q :: "'a query" and tabs cs
  assume "pg_fetch mem_sql q tabs = Inr cs"
  moreover have "mset (select_rows q tabs) = mset (filter (holds (qy_where q)) (tabs (qy_table q)))"
    "in_order (qy_order q) (select_rows q tabs)"
    by (simp_all add: select_rows_def mset_sort_rows in_order_sort_rows)
  ultimately show "sql_select q tabs cs"
    unfolding sql_select_def
    by (intro exI [of _ "select_rows q tabs"]) (auto simp: mem_sql_def column_of_Inr split: option.splits if_splits)
qed (auto simp: mem_sql_def split: option.splits)

definition no_rows :: "'w tables" where
  "no_rows = (\<lambda>_. [])"

section \<open>From the first connection on\<close>

lemma run_migrations:
  assumes "sql_engine E V" and "run_statements E (map (\<lambda>t. CreateTable t (f t) (g t)) ts) db = (r, db')"
  shows "V db' = V db"
  using assms(2)
proof (induction ts arbitrary: db)
  case (Cons t ts)
  then show ?case
    using sql_engine.execute_ok [OF assms(1)] sql_engine.execute_failed [OF assms(1)]
    by (cases r) (fastforce simp: op_iffs)+
qed (simp add: op_iffs)

lemma connect_tables:
  assumes "sql_engine E V" and "connect E url db = (Inr (), db')"
  shows "V db' = V db"
  using assms(2) run_migrations [OF assms(1)] unfolding connect_def migrations_def by (auto simp: op_iffs simp del: list.map)

lemma no_rows_ok: "tables_ok S no_rows"
  by (simp add: tables_ok_def no_rows_def pg_rows_ok_def keyed_def)

lemma connected_inv:
  assumes "sql_engine E V" and "serde_codec S" and "V db = no_rows" and "connect E url db = (Inr (), db0)"
  shows "pg_inv S E V db0"
  using assms connect_tables [OF assms(1,4)] no_rows_ok [of S] by (simp add: pg_inv_def)

text \<open>Some organization is not addressed by any of finitely many requests.\<close>

lemma unaddressed: "\<exists>j. \<forall>x \<in> set xs. request_target (snd (snd x)) \<noteq> Some j"
proof -
  have "finite ((\<lambda>x. the (request_target (snd (snd x)))) ` set xs)" by simp
  then obtain j where "j \<notin> (\<lambda>x. the (request_target (snd (snd x)))) ` set xs"
    using ex_new_if_finite [OF infinite_UNIV_listI] by blast
  then have "request_target (snd (snd x)) \<noteq> Some j" if "x \<in> set xs" for x
    using that by (metis image_eqI option.sel)
  then show ?thesis by blast
qed

text \<open>
  The gateway on Postgres. After the first connection to an empty database and any HTTP requests
  \<open>xs\<close>, further requests \<open>ys\<close> of which none is addressed to organization \<open>j\<close> leave everything stored for
  \<open>j\<close> as it was, and the tables stay well formed: every row under the identifiers it carries. The
  isolation rests on the primary keys and the cascade of the schema as on redb it rests on the keys.
\<close>

theorem postgres_isolation:
  assumes "sql_engine E V" and "serde_codec S" and "V db = no_rows" and "connect E url db = (Inr (), db0)"
    and "mesh_crates_ok (gw_mesh_crates W)" and "\<forall>x \<in> set (xs @ ys). http_ok (snd (snd x))"
    and "\<forall>x \<in> set ys. request_target (snd (snd x)) \<noteq> Some j"
    and db1: "db1 = serve_http (pg_gateway W S E P en) xs db0"
    and db2: "db2 = serve_http (pg_gateway W S E P en) ys db1"
  shows "tables_ok S (V db2) \<and> org_view j (pg_abs S (V db2)) = org_view j (pg_abs S (V db1))"
proof -
  let ?W = "pg_gateway W S E P en"
  have W: "gw_tenant_mgr ?W = pg_manager S E P en" "mesh_crates_ok (gw_mesh_crates ?W)"
    using assms(5) by simp_all
  obtain i where i: "\<forall>x \<in> set xs. request_target (snd (snd x)) \<noteq> Some i"
    using unaddressed by blast
  from pg_http.serve_http_calm [OF W connected_inv [OF assms(1-4)], of xs i] i assms(6)
  have "pg_inv S E V db1" by (auto simp: db1)
  from pg_http.serve_http_calm [OF W this, of ys j] assms(6,7) show ?thesis
    by (auto simp: db2 pg_inv_def)
qed

text \<open>The example: a deletion and an enrollment in the new database.\<close>

definition ref_pg_requests :: "(unit api_env \<times> unit enroll_env \<times> http_request) list" where
  "ref_pg_requests =
     [(ref_api_env, ref_enroll_env, ref_request DELETE [''orgs'', ''acme''] (Some ''Bearer s3cret'')),
      (ref_api_env, ref_enroll_env, ref_request POST [''orgs'', ''acme'', ''formations'', ''ops'', ''enroll''] None)]"

definition ref_pg_gateway :: "(bytes, bytes, unit, stored tables, unit) gateway" where
  "ref_pg_gateway =
     \<lparr>gw_mesh_crates = ref_mesh, gw_enroll_crates = ref_enroll_crates,
      gw_root_certificate = gw_root_certificate ref_gateway,
      gw_as_u64 = (\<lambda>_. None), gw_feature_oidc = True, gw_version = ''0.1'', gw_metrics = [],
      gw_tenant_mgr = pg_manager mem_serde mem_sql plaintext_provider False,
      gw_admin_token = Some ''s3cret'', gw_mesh = Map.empty\<rparr>"

lemma mem_sql_connect: "connect mem_sql url (no_rows :: stored tables) = (Inr (), no_rows)"
  by (simp add: connect_def migrations_def mem_sql_def op_defs)

theorem postgres_isolation_witness:
  "org_view ''zeta'' (pg_abs mem_serde (serve_http ref_pg_gateway ref_pg_requests (no_rows :: stored tables))) =
   org_view ''zeta'' (pg_abs mem_serde no_rows)"
proof -
  have W: "mesh_crates_ok (gw_mesh_crates ref_pg_gateway)" by (simp add: ref_pg_gateway_def ref_mesh_ok)
  have r: "route DELETE [''orgs'', ''acme''] = Some (DeleteOrgAt ''acme'')"
    "route POST [''orgs'', ''acme'', ''formations'', ''ops'', ''enroll''] = Some (EnrollAt ''acme'' ''ops'')"
    by (simp_all add: routers)
  have q: "\<forall>x \<in> set ([] @ ref_pg_requests). http_ok (snd (snd x))"
    "\<forall>x \<in> set ref_pg_requests. request_target (snd (snd x)) \<noteq> Some ''zeta''"
    by (simp_all add: ref_pg_requests_def ref_request_def request_target_def http_ok_def r)
  have g: "pg_gateway ref_pg_gateway mem_serde mem_sql plaintext_provider False = ref_pg_gateway"
    by (simp add: ref_pg_gateway_def)
  show ?thesis
    using postgres_isolation [where xs = "[]" and V = "\<lambda>tabs. tabs" and j = "''zeta''" and ys = ref_pg_requests
        and S = mem_serde and E = mem_sql and P = plaintext_provider and en = False and W = ref_pg_gateway,
        OF mem_sql.sql_engine_axioms mem_codec.serde_codec_axioms refl mem_sql_connect W q refl refl]
    unfolding g by simp
qed

section \<open>Enrollment on Postgres\<close>

text \<open>
  C33: no enrollment can succeed on Postgres. The hourly limit is counted with the limit \<open>usize::MAX\<close>, which
  the backend binds as the 64-bit number \<open>-1\<close>; a negative \<open>LIMIT\<close> is an error of the server, so whatever
  the request, its credentials and the formation's policy, the answer is an error (500 unless the request
  was refused before) and nothing is stored.
\<close>

theorem postgres_enrollment_fails:
  assumes "sql_engine E V"
  shows "\<exists>e. enroll K H (pg_manager S E P en) v k c auth body db = (Inl e, db) \<and>
    (fst e = 500 \<or> (\<exists>x. e = bad_request x) \<or> Option.bind body er_public_key \<noteq> None)"
proof -
  have "sint (of_nat usize_MAX :: u64) = -1"
    by (simp add: usize_MAX_def)
  then have "\<not> sql_select (select_data Enrollment_audit cond ord (Some (of_nat usize_MAX))) (V db) cs" for cond ord cs
    by (auto simp: sql_select_def select_data_def)
  with sql_engine.fetch [OF assms] have "\<exists>x. pg_list_audit S E k None usize_MAX db = Inl x"
    by (cases "pg_list_audit S E k None usize_MAX db")
      (auto simp: pg_list_audit_def fetch_rows_def bindR_eq_Inr, blast)
  then obtain x where "count_recent_enrollments (pg_manager S E P en) k (saturating_sub (ee_now_limit v) 3600000) db = Inl x"
    by (auto simp: count_recent_enrollments_def with_backend_def postgres_backend_def)
  then show ?thesis
    by (auto simp: enroll_def bindE_def seqE_def mapErrE_def readE_def liftE_def internal_def result_iffs
        split: sum.splits option.splits)
qed

text \<open>The example: an anonymous device and an open formation, which redb lets in.\<close>

definition ref_tabs :: "stored tables" where
  "ref_tabs = no_rows
     (Orgs := [[(''org_id'', Text ''acme''), (''data'', Data (StOrg ref_org))]],
      Formations := [[(''org_id'', Text ''acme''), (''app_id'', Text ''ops''), (''data'', Data (StFormation ref_formation))]])"

theorem postgres_enrollment_fails_witness:
  "form_enrollment_policy ref_formation = Open \<and>
   pg_get_formation mem_serde mem_sql ''acme'' ''ops'' ref_tabs = Inr (Some ref_formation) \<and>
   (\<exists>e. enroll ref_mesh ref_enroll_crates (pg_manager mem_serde mem_sql plaintext_provider False) ref_enroll_env
      ''acme'' ''ops'' None ref_body ref_tabs = (Inl e, ref_tabs))"
proof (intro conjI)
  show "form_enrollment_policy ref_formation = Open" by (simp add: ref_formation_def)
  show "pg_get_formation mem_serde mem_sql ''acme'' ''ops'' ref_tabs = Inr (Some ref_formation)"
    by (simp add: pg_get_formation_def fetch_optional_def select_data_def mem_sql_def select_rows_def sort_rows_def
        ref_tabs_def holds_def column_of_def from_value_def mem_serde_def)
  show "\<exists>e. enroll ref_mesh ref_enroll_crates (pg_manager mem_serde mem_sql plaintext_provider False) ref_enroll_env
      ''acme'' ''ops'' None ref_body ref_tabs = (Inl e, ref_tabs)"
    using postgres_enrollment_fails [OF mem_sql.sql_engine_axioms] by blast
qed

end
