(* ===== verification/Backend_Choice.thy ===== *)
theory Backend_Choice
  imports Postgres_Properties
begin

text \<open>
  The choice of the backend (\<open>storage::open\<close> in \<open>src/storage/mod.rs\<close>, \<open>RedbBackend::open\<close>). A
  \<open>Box<dyn StorageBackend>\<close> hides which database it works on; here both databases are parts of one state, and
  a backend of a part is a backend of the whole that leaves the rest alone. Whichever is configured, what the
  clients get is a backend that keeps the storage contract.
\<close>

section \<open>A backend on a part of the state\<close>

definition on_part :: "('t \<Rightarrow> 's) \<Rightarrow> ('s \<Rightarrow> 't \<Rightarrow> 't) \<Rightarrow> ('s, 'e, 'a) op \<Rightarrow> ('t, 'e, 'a) op" where
  "on_part g u f t = (case f (g t) of (r, s) \<Rightarrow> (r, u s t))"

definition backend_on :: "('t \<Rightarrow> 's) \<Rightarrow> ('s \<Rightarrow> 't \<Rightarrow> 't) \<Rightarrow> 's backend \<Rightarrow> 't backend" where
  "backend_on g u B =
     \<lparr>be_create_org = (\<lambda>x0. on_part g u (be_create_org B x0)),
      be_get_org = (\<lambda>x0 t. be_get_org B x0 (g t)),
      be_list_orgs = (\<lambda>t. be_list_orgs B (g t)),
      be_update_org = (\<lambda>x0. on_part g u (be_update_org B x0)),
      be_delete_org = (\<lambda>x0. on_part g u (be_delete_org B x0)),
      be_create_formation = (\<lambda>x0 x1. on_part g u (be_create_formation B x0 x1)),
      be_get_formation = (\<lambda>x0 x1 t. be_get_formation B x0 x1 (g t)),
      be_list_formations = (\<lambda>x0 t. be_list_formations B x0 (g t)),
      be_delete_formation = (\<lambda>x0 x1. on_part g u (be_delete_formation B x0 x1)),
      be_create_token = (\<lambda>x0. on_part g u (be_create_token B x0)),
      be_get_token = (\<lambda>x0 x1 t. be_get_token B x0 x1 (g t)),
      be_list_tokens = (\<lambda>x0 x1 t. be_list_tokens B x0 x1 (g t)),
      be_update_token = (\<lambda>x0. on_part g u (be_update_token B x0)),
      be_delete_token = (\<lambda>x0 x1. on_part g u (be_delete_token B x0 x1)),
      be_create_sink = (\<lambda>x0. on_part g u (be_create_sink B x0)),
      be_get_sink = (\<lambda>x0 x1 t. be_get_sink B x0 x1 (g t)),
      be_list_sinks = (\<lambda>x0 t. be_list_sinks B x0 (g t)),
      be_update_sink = (\<lambda>x0. on_part g u (be_update_sink B x0)),
      be_delete_sink = (\<lambda>x0 x1. on_part g u (be_delete_sink B x0 x1)),
      be_create_idp = (\<lambda>x0. on_part g u (be_create_idp B x0)),
      be_get_idp = (\<lambda>x0 x1 t. be_get_idp B x0 x1 (g t)),
      be_list_idps = (\<lambda>x0 t. be_list_idps B x0 (g t)),
      be_update_idp = (\<lambda>x0. on_part g u (be_update_idp B x0)),
      be_delete_idp = (\<lambda>x0 x1. on_part g u (be_delete_idp B x0 x1)),
      be_create_policy_rule = (\<lambda>x0. on_part g u (be_create_policy_rule B x0)),
      be_list_policy_rules = (\<lambda>x0 t. be_list_policy_rules B x0 (g t)),
      be_delete_policy_rule = (\<lambda>x0 x1. on_part g u (be_delete_policy_rule B x0 x1)),
      be_append_audit = (\<lambda>x0. on_part g u (be_append_audit B x0)),
      be_list_audit = (\<lambda>x0 x1 x2 t. be_list_audit B x0 x1 x2 (g t)),
      be_store_genesis = (\<lambda>x0 x1 x2. on_part g u (be_store_genesis B x0 x1 x2)),
      be_get_genesis = (\<lambda>x0 x1 t. be_get_genesis B x0 x1 (g t)),
      be_delete_genesis = (\<lambda>x0 x1. on_part g u (be_delete_genesis B x0 x1)),
      be_get_cursor = (\<lambda>x0 x1 x2 t. be_get_cursor B x0 x1 x2 (g t)),
      be_set_cursor = (\<lambda>x0 x1 x2 x3. on_part g u (be_set_cursor B x0 x1 x2 x3))\<rparr>"

locale state_part =
  fixes g :: "'t \<Rightarrow> 's" and u :: "'s \<Rightarrow> 't \<Rightarrow> 't"
  assumes get_put: "g (u s t) = s"
begin

lemma wr_part:
  assumes "wr invar \<alpha> f R"
  shows "wr (\<lambda>t. invar (g t)) (\<lambda>t. \<alpha> (g t)) (on_part g u f) R"
proof (rule wrI)
  fix t x t'
  assume "invar (g t)" "on_part g u f t = (Inr x, t')"
  then show "invar (g t') \<and> R (\<alpha> (g t)) x (\<alpha> (g t'))"
    using wr_ok [OF assms] by (auto simp: on_part_def get_put split: prod.splits)
next
  fix t e t'
  assume "invar (g t)" "on_part g u f t = (Inl e, t')"
  then show "invar (g t') \<and> \<alpha> (g t') = \<alpha> (g t)"
    using wr_err [OF assms] by (auto simp: on_part_def get_put split: prod.splits)
qed

lemma rd_part: "rd invar \<alpha> f Q \<Longrightarrow> rd (\<lambda>t. invar (g t)) (\<lambda>t. \<alpha> (g t)) (\<lambda>t. f (g t)) Q"
  by (auto simp: rd_def)

lemma contract_on_part:
  assumes "storage_contract B \<alpha> invar"
  shows "storage_contract (backend_on g u B) (\<lambda>t. \<alpha> (g t)) (\<lambda>t. invar (g t))"
proof -
  note laws = storage_contract.create_org [OF assms]
    storage_contract.get_org [OF assms]
    storage_contract.list_orgs [OF assms]
    storage_contract.update_org [OF assms]
    storage_contract.delete_org [OF assms]
    storage_contract.create_formation [OF assms]
    storage_contract.get_formation [OF assms]
    storage_contract.list_formations [OF assms]
    storage_contract.delete_formation [OF assms]
    storage_contract.create_token [OF assms]
    storage_contract.get_token [OF assms]
    storage_contract.list_tokens [OF assms]
    storage_contract.update_token [OF assms]
    storage_contract.delete_token [OF assms]
    storage_contract.create_sink [OF assms]
    storage_contract.get_sink [OF assms]
    storage_contract.list_sinks [OF assms]
    storage_contract.update_sink [OF assms]
    storage_contract.delete_sink [OF assms]
    storage_contract.create_idp [OF assms]
    storage_contract.get_idp [OF assms]
    storage_contract.list_idps [OF assms]
    storage_contract.update_idp [OF assms]
    storage_contract.delete_idp [OF assms]
    storage_contract.create_policy_rule [OF assms]
    storage_contract.list_policy_rules [OF assms]
    storage_contract.delete_policy_rule [OF assms]
    storage_contract.append_audit [OF assms]
    storage_contract.list_audit [OF assms]
    storage_contract.store_genesis [OF assms]
    storage_contract.get_genesis [OF assms]
    storage_contract.delete_genesis [OF assms]
    storage_contract.get_cursor [OF assms]
    storage_contract.set_cursor [OF assms]
  show ?thesis
    by unfold_locales
      (simp_all add: backend_on_def laws storage_contract.wf [OF assms] wr_part rd_part)
qed

end

section \<open>Opening redb\<close>

text \<open>
  The parent of a path: what is before the last component, when there is one (paths as the configuration
  has them, without empty or dot components at the end).
\<close>

definition path_parent :: "string \<Rightarrow> string option" where
  "path_parent p =
     (let q = trim_end_matches p CHR ''/'' in
      if q = [] then None
      else
        let d = rev (dropWhile (\<lambda>c. c \<noteq> CHR ''/'') (rev q)); e = trim_end_matches d CHR ''/'' in
        Some (if e = [] \<and> d \<noteq> [] then ''/'' else e))"

record ('f, 'x) redb_files =
  rf_create_dir_all :: "string \<Rightarrow> ('f, err, unit) op"
  rf_create :: "string \<Rightarrow> ('f, err, unit) op"           \<comment> \<open>\<open>Database::create\<close>\<close>
  rf_open_table :: "'x \<Rightarrow> table \<Rightarrow> err + 'x"

definition all_tables :: "table list" where
  "all_tables =
     [ORGS_TABLE, FORMATIONS_TABLE, TOKENS_TABLE, SINKS_TABLE, CURSORS_TABLE, IDPS_TABLE, POLICY_RULES_TABLE,
      AUDIT_TABLE, GENESIS_TABLE]"

fun open_tables :: "('f, 'x) redb_files \<Rightarrow> table list \<Rightarrow> 'x \<Rightarrow> err + (unit \<times> 'x)" where
  "open_tables D [] x = Inr ((), x)"
| "open_tables D (t # ts) x = bindR (rf_open_table D x t) (open_tables D ts)"

definition redb_open :: "('f, 'x) redb_files \<Rightarrow> ('f, 'x, 'w) redb \<Rightarrow> string \<Rightarrow> ('f, err, unit) op" where
  "redb_open D E path =
     seqE (case path_parent path of Some parent \<Rightarrow> rf_create_dir_all D parent | None \<Rightarrow> retE ())
    (seqE (rf_create D path) (run_write E (open_tables D all_tables)))"

text \<open>
  Opening a database creates what is missing and changes nothing that is stored in it; a table that is
  opened for the first time is empty.
\<close>

locale redb_files_laws =
  fixes D :: "('f, 'x) redb_files" and V :: "'f \<Rightarrow> table \<Rightarrow> string \<rightharpoonup> 'w" and X :: "'x \<Rightarrow> table \<Rightarrow> string \<rightharpoonup> 'w"
  assumes create_dir: "rf_create_dir_all D p f = (r, f') \<Longrightarrow> V f' = V f"
    and create: "rf_create D p f = (r, f') \<Longrightarrow> V f' = V f"
    and open_table: "rf_open_table D x t = Inr x' \<Longrightarrow> X x' = X x"
begin

lemma open_tables_same: "open_tables D ts x = Inr (y, x') \<Longrightarrow> X x' = X x"
proof (induction ts arbitrary: x)
  case (Cons t ts)
  then show ?case using open_table by (fastforce simp: bindR_eq_Inr)
qed simp

lemma redb_open_same:
  assumes "redb_engine E V X" and run: "redb_open D E path f = (r, f')"
  shows "V f' = V f"
proof -
  obtain r1 f1 where 1: "(case path_parent path of Some parent \<Rightarrow> rf_create_dir_all D parent | None \<Rightarrow> retE ()) f = (r1, f1)"
    by fastforce
  then have "V f1 = V f" using create_dir by (auto simp: retE_def split: option.splits)
  obtain r2 f2 where 2: "rf_create D path f1 = (r2, f2)" by fastforce
  then have "V f2 = V f1" by (rule create)
  have 3: "V f3 = V f2" if "run_write E (open_tables D all_tables) f2 = (r3, f3)" for r3 f3
    using that redb_engine.begin_write [OF assms(1)] redb_engine.commit [OF assms(1)] open_tables_same
    by (auto simp: run_write_def bindR_eq_Inr mapR_eq_Inr split: sum.splits)
  from run 1 2 \<open>V f1 = V f\<close> \<open>V f2 = V f1\<close> 3 show ?thesis
    by (auto simp: redb_open_def seqE_def bindE_def split: sum.splits prod.splits)
qed

end

section \<open>Opening the configured backend\<close>

record ('f, 'p) stores =
  st_redb :: 'f
  st_pg :: 'p

interpretation redb_part: state_part st_redb "\<lambda>f t. t\<lparr>st_redb := f\<rparr>"
  by unfold_locales simp

interpretation pg_part: state_part st_pg "\<lambda>p t. t\<lparr>st_pg := p\<rparr>"
  by unfold_locales simp

record ('f, 'x, 'w, 'p, 'v) storage_crates =
  sc_files :: "('f, 'x) redb_files"
  sc_redb_serde :: "'w serde"
  sc_redb :: "('f, 'x, 'w) redb"
  sc_pg_serde :: "'v serde"
  sc_pg :: "('p, 'v) postgres"
  sc_feature_postgres :: bool

definition storage_open ::
  "('f, 'x, 'w, 'p, 'v) storage_crates \<Rightarrow> storage_config
     \<Rightarrow> (('f, 'p) stores, err, ('f, 'p) stores backend) op" where
  "storage_open C config =
     (case config of
        RedbConfig path \<Rightarrow>
          seqE (on_part st_redb (\<lambda>f t. t\<lparr>st_redb := f\<rparr>) (redb_open (sc_files C) (sc_redb C) path))
            (retE (backend_on st_redb (\<lambda>f t. t\<lparr>st_redb := f\<rparr>) (redb_backend (sc_redb_serde C) (sc_redb C))))
      | PostgresConfig url \<Rightarrow>
          if sc_feature_postgres C then
            seqE (on_part st_pg (\<lambda>p t. t\<lparr>st_pg := p\<rparr>) (connect (sc_pg C) url))
              (retE (backend_on st_pg (\<lambda>p t. t\<lparr>st_pg := p\<rparr>) (postgres_backend (sc_pg_serde C) (sc_pg C))))
          else failE (FeatureMissing ''postgres''))"

text \<open>What is stored in the configured database, and that it is well formed.\<close>

definition stored ::
  "('f, 'x, 'w, 'p, 'v) storage_crates \<Rightarrow> ('f \<Rightarrow> table \<Rightarrow> string \<rightharpoonup> 'w) \<Rightarrow> ('p \<Rightarrow> 'v tables)
     \<Rightarrow> storage_config \<Rightarrow> ('f, 'p) stores \<Rightarrow> abs_store" where
  "stored C V VP config t =
     (case config of
        RedbConfig _ \<Rightarrow> redb_abs (sc_redb_serde C) (V (st_redb t))
      | PostgresConfig _ \<Rightarrow> pg_abs (sc_pg_serde C) (VP (st_pg t)))"

definition storage_ok ::
  "('f, 'x, 'w, 'p, 'v) storage_crates \<Rightarrow> ('f \<Rightarrow> table \<Rightarrow> string \<rightharpoonup> 'w) \<Rightarrow> ('x \<Rightarrow> table \<Rightarrow> string \<rightharpoonup> 'w)
     \<Rightarrow> ('p \<Rightarrow> 'v tables) \<Rightarrow> storage_config \<Rightarrow> ('f, 'p) stores \<Rightarrow> bool" where
  "storage_ok C V X VP config t \<longleftrightarrow>
     redb_files_laws (sc_files C) V X \<and>
     (case config of
        RedbConfig _ \<Rightarrow> redb_inv (sc_redb_serde C) (sc_redb C) V X (st_redb t)
      | PostgresConfig _ \<Rightarrow> pg_inv (sc_pg_serde C) (sc_pg C) VP (st_pg t))"

section \<open>What the opened backend is\<close>

lemma opened_redb_contract:
  "storage_contract (backend_on st_redb (\<lambda>f t. t\<lparr>st_redb := f\<rparr>) (redb_backend S E))
     (\<lambda>t. redb_abs S (V (st_redb t))) (\<lambda>t. redb_inv S E V X (st_redb t))"
  by (rule redb_part.contract_on_part [OF redb.storage_contract_axioms])

lemma opened_pg_contract:
  "storage_contract (backend_on st_pg (\<lambda>p t. t\<lparr>st_pg := p\<rparr>) (postgres_backend S E))
     (\<lambda>t. pg_abs S (V (st_pg t))) (\<lambda>t. pg_inv S E V (st_pg t))"
  by (rule pg_part.contract_on_part [OF pg.storage_contract_axioms])

lemma contract_with_laws:
  assumes "storage_contract B \<alpha> invar"
  shows "storage_contract B \<alpha> (\<lambda>t. L \<and> invar t)"
proof (cases L)
  case True
  with assms show ?thesis by simp
next
  case False
  then show ?thesis by unfold_locales (simp_all add: wr_def rd_def)
qed

lemma storage_open_cases:
  assumes "storage_open C config t = (Inr B, t')"
  obtains path f where "config = RedbConfig path" "redb_open (sc_files C) (sc_redb C) path (st_redb t) = (Inr (), f)"
      "t' = t\<lparr>st_redb := f\<rparr>" "B = backend_on st_redb (\<lambda>f t. t\<lparr>st_redb := f\<rparr>) (redb_backend (sc_redb_serde C) (sc_redb C))"
  | url p where "config = PostgresConfig url" "sc_feature_postgres C" "connect (sc_pg C) url (st_pg t) = (Inr (), p)"
      "t' = t\<lparr>st_pg := p\<rparr>" "B = backend_on st_pg (\<lambda>p t. t\<lparr>st_pg := p\<rparr>) (postgres_backend (sc_pg_serde C) (sc_pg C))"
  using assms
  by (cases config) (auto simp: storage_open_def on_part_def op_iffs split: if_splits prod.splits)

lemma storage_open_result:
  assumes run: "storage_open C config t = (Inr B, t')" and ok: "storage_ok C V X VP config t"
  shows "storage_contract B (stored C V VP config) (storage_ok C V X VP config)"
    and "storage_ok C V X VP config t'" and "stored C V VP config t' = stored C V VP config t"
proof -
  from run have "storage_contract B (stored C V VP config) (storage_ok C V X VP config) \<and>
    storage_ok C V X VP config t' \<and> stored C V VP config t' = stored C V VP config t"
  proof (cases rule: storage_open_cases)
    case (1 path f)
    have "V f = V (st_redb t)"
      using redb_files_laws.redb_open_same [OF _ _ 1(2)] ok 1(1) by (auto simp: storage_ok_def redb_inv_def)
    with 1 ok have "storage_ok C V X VP config t'" "stored C V VP config t' = stored C V VP config t"
      by (simp_all add: storage_ok_def stored_def redb_inv_def)
    moreover have "storage_contract B (stored C V VP config) (storage_ok C V X VP config)"
      unfolding 1 storage_ok_def [abs_def] stored_def [abs_def] storage_config.case
      by (rule contract_with_laws [OF opened_redb_contract])
    ultimately show ?thesis by simp
  next
    case (2 url p)
    have "VP p = VP (st_pg t)"
      using connect_tables [OF _ 2(3)] ok 2(1) by (auto simp: storage_ok_def pg_inv_def)
    with 2 ok have "storage_ok C V X VP config t'" "stored C V VP config t' = stored C V VP config t"
      by (simp_all add: storage_ok_def stored_def pg_inv_def)
    moreover have "storage_contract B (stored C V VP config) (storage_ok C V X VP config)"
      unfolding 2 storage_ok_def [abs_def] stored_def [abs_def] storage_config.case
      by (rule contract_with_laws [OF opened_pg_contract])
    ultimately show ?thesis by simp
  qed
  then show "storage_contract B (stored C V VP config) (storage_ok C V X VP config)"
    and "storage_ok C V X VP config t'" and "stored C V VP config t' = stored C V VP config t"
    by simp_all
qed

section \<open>Files for the examples\<close>

definition mem_files :: "(mem_db, mem_db) redb_files" where
  "mem_files = \<lparr>rf_create_dir_all = (\<lambda>_. retE ()), rf_create = (\<lambda>_. retE ()), rf_open_table = (\<lambda>x _. Inr x)\<rparr>"

interpretation mem_files: redb_files_laws mem_files mem_tables mem_tables
  by unfold_locales (simp_all add: mem_files_def retE_def)

definition ref_crates_on_disk :: "(mem_db, mem_db, stored, stored tables, stored) storage_crates" where
  "ref_crates_on_disk =
     \<lparr>sc_files = mem_files, sc_redb_serde = mem_serde, sc_redb = mem_engine, sc_pg_serde = mem_serde,
      sc_pg = mem_sql, sc_feature_postgres = False\<rparr>"

text \<open>
  C11: whichever backend is configured, a client of the store gets what the trait promises. Opening it changes
  nothing that is stored; the opened backend keeps the storage contract, with what is in the configured
  database as the abstract store, and leaves the other database alone. A Postgres configuration in a build
  without the feature fails without touching anything.
\<close>

theorem storage_open_contract:
  assumes "storage_ok C V X VP config t" and "storage_open C config t = (r, t')"
  shows "case r of
      Inr B \<Rightarrow> storage_contract B (stored C V VP config) (storage_ok C V X VP config) \<and>
        storage_ok C V X VP config t' \<and> stored C V VP config t' = stored C V VP config t \<and>
        (case config of RedbConfig _ \<Rightarrow> st_pg t' = st_pg t | PostgresConfig _ \<Rightarrow> st_redb t' = st_redb t)
    | Inl e \<Rightarrow> (\<exists>url. config = PostgresConfig url) \<and> \<not> sc_feature_postgres C \<longrightarrow> t' = t"
proof (cases r)
  case (Inl e)
  with assms(2) show ?thesis by (auto simp: storage_open_def failE_def split: storage_config.splits if_splits)
next
  case (Inr B)
  with assms(2) have run: "storage_open C config t = (Inr B, t')" by simp
  then have "case config of RedbConfig _ \<Rightarrow> st_pg t' = st_pg t | PostgresConfig _ \<Rightarrow> st_redb t' = st_redb t"
    by (cases rule: storage_open_cases) simp_all
  with storage_open_result [OF run assms(1)] Inr show ?thesis by simp
qed

lemma mem_open:
  "storage_open ref_crates_on_disk (RedbConfig path) t =
     (Inr (backend_on st_redb (\<lambda>f t. t\<lparr>st_redb := f\<rparr>) (redb_backend mem_serde mem_engine)), t)"
  by (cases "path_parent path")
     (simp_all add: storage_open_def redb_open_def on_part_def all_tables_def mem_files_def ref_crates_on_disk_def
       run_write_def mem_engine_def op_defs)

theorem storage_open_contract_witness:
  "\<exists>B. storage_open ref_crates_on_disk (RedbConfig ''./data/gateway.redb'') \<lparr>st_redb = ref_db, st_pg = no_rows\<rparr> =
       (Inr B, \<lparr>st_redb = ref_db, st_pg = no_rows\<rparr>) \<and>
     storage_contract B (stored ref_crates_on_disk mem_tables (\<lambda>p. p) (RedbConfig ''./data/gateway.redb''))
       (storage_ok ref_crates_on_disk mem_tables mem_tables (\<lambda>p. p) (RedbConfig ''./data/gateway.redb''))"
proof -
  let ?t = "\<lparr>st_redb = ref_db, st_pg = no_rows\<rparr> :: (mem_db, stored tables) stores"
  have ok: "storage_ok ref_crates_on_disk mem_tables mem_tables (\<lambda>p. p) (RedbConfig ''./data/gateway.redb'') ?t"
    using ref_db_inv mem_files.redb_files_laws_axioms by (simp add: storage_ok_def ref_crates_on_disk_def)
  from storage_open_contract [OF ok mem_open] show ?thesis by (simp add: mem_open)
qed

end
