(* ===== verification/Cli.thy ===== *)
theory Cli
  imports Tenant_Properties
begin

text \<open>
  The \<open>migrate-keys\<close> subcommand (\<open>src/cli.rs\<close>): sealing the genesis records that were stored in
  plaintext. The loops over organizations and formations are recursions over the listings; the
  counters are a record. \<open>envs\<close> gives the outside inputs (random bytes, services) of the \<open>n\<close>-th
  record visited.
\<close>

section \<open>The command\<close>

record migration_stats =
  mig_total :: nat
  mig_migrated :: nat
  mig_already_encrypted :: nat
  mig_missing_genesis :: nat

definition migrate_record ::
  "'k aead \<Rightarrow> 's backend \<Rightarrow> 'n key_provider \<Rightarrow> bool \<Rightarrow> 'n seal_env \<times> 'n call_env
     \<Rightarrow> string \<Rightarrow> string \<Rightarrow> migration_stats \<Rightarrow> ('s, err, migration_stats) op" where
  "migrate_record A store provider dry_run env org_id app_id stats0 =
     (let stats = stats0\<lparr>mig_total := mig_total stats0 + 1\<rparr> in
      bindE (readE (be_get_genesis store org_id app_id)) (\<lambda>g.
        case g of
          None \<Rightarrow> retE (stats\<lparr>mig_missing_genesis := mig_missing_genesis stats + 1\<rparr>)
        | Some raw \<Rightarrow>
            if is_envelope raw then
              retE (stats\<lparr>mig_already_encrypted := mig_already_encrypted stats + 1\<rparr>)
            else if dry_run then retE (stats\<lparr>mig_migrated := mig_migrated stats + 1\<rparr>)
            else
              bindE (liftE (seal A provider (fst env) raw)) (\<lambda>sealed.
              bindE (liftE (open_envelope A provider (snd env) sealed)) (\<lambda>opened.
              bindE (liftE (ok_or opened (RoundtripFailed ''non-envelope''))) (\<lambda>decrypted.
                if decrypted \<noteq> raw then failE (RoundtripFailed ''mismatch'')
                else seqE (be_store_genesis store org_id app_id sealed)
                       (retE (stats\<lparr>mig_migrated := mig_migrated stats + 1\<rparr>)))))))"

fun migrate_formations ::
  "'k aead \<Rightarrow> 's backend \<Rightarrow> 'n key_provider \<Rightarrow> bool \<Rightarrow> (nat \<Rightarrow> 'n seal_env \<times> 'n call_env)
     \<Rightarrow> string \<Rightarrow> formation_config list \<Rightarrow> migration_stats \<Rightarrow> ('s, err, migration_stats) op" where
  "migrate_formations A store provider dry_run envs org_id [] stats = retE stats"
| "migrate_formations A store provider dry_run envs org_id (f # fs) stats =
     bindE (migrate_record A store provider dry_run (envs (mig_total stats)) org_id (form_app_id f) stats)
       (migrate_formations A store provider dry_run envs org_id fs)"

fun migrate_orgs ::
  "'k aead \<Rightarrow> 's backend \<Rightarrow> 'n key_provider \<Rightarrow> bool \<Rightarrow> (nat \<Rightarrow> 'n seal_env \<times> 'n call_env)
     \<Rightarrow> organization list \<Rightarrow> migration_stats \<Rightarrow> ('s, err, migration_stats) op" where
  "migrate_orgs A store provider dry_run envs [] stats = retE stats"
| "migrate_orgs A store provider dry_run envs (org # orgs) stats =
     bindE (readE (be_list_formations store (org_org_id org))) (\<lambda>formations.
     bindE (migrate_formations A store provider dry_run envs (org_org_id org) formations stats)
       (migrate_orgs A store provider dry_run envs orgs))"

definition migrate_keys ::
  "features \<Rightarrow> ('k, 'n) crypto_crates \<Rightarrow> gateway_config \<Rightarrow> 's backend \<Rightarrow> bool
     \<Rightarrow> (nat \<Rightarrow> 'n seal_env \<times> 'n call_env) \<Rightarrow> ('s, err, migration_stats) op" where
  "migrate_keys F C config store dry_run envs =
     bindE (liftE (build_key_provider F C config)) (\<lambda>(provider, encrypt_enabled).
       if \<not> encrypt_enabled then failE (NoKeyProvider ''migrate-keys'')
       else bindE (readE (be_list_orgs store)) (\<lambda>orgs.
         migrate_orgs (cc_aead C) store provider dry_run envs orgs
           \<lparr>mig_total = 0, mig_migrated = 0, mig_already_encrypted = 0, mig_missing_genesis = 0\<rparr>))"

section \<open>What a migration may do to the store\<close>

definition stats_add :: "migration_stats \<Rightarrow> bool" where
  "stats_add st \<longleftrightarrow>
     mig_total st = mig_migrated st + mig_already_encrypted st + mig_missing_genesis st"

text \<open>Genesis records are left alone or replaced by an envelope that was seen to open to them.\<close>

definition sealed_from :: "'k aead \<Rightarrow> 'n key_provider \<Rightarrow> bytes option \<Rightarrow> bytes option \<Rightarrow> bool" where
  "sealed_from A P x y \<longleftrightarrow>
     (\<exists>raw w e. x = Some raw \<and> \<not> is_envelope raw \<and> y = Some w \<and> is_envelope w \<and>
        open_envelope A P e w = Inr (Some raw))"

definition sealed_in_place :: "'k aead \<Rightarrow> 'n key_provider \<Rightarrow> abs_store \<Rightarrow> abs_store \<Rightarrow> bool" where
  "sealed_in_place A P a a' \<longleftrightarrow>
     (\<exists>g. a' = a\<lparr>a_genesis := g\<rparr>) \<and>
     (\<forall>kc. a_genesis a' kc = a_genesis a kc \<or> sealed_from A P (a_genesis a kc) (a_genesis a' kc))"

definition encrypted_at :: "string \<Rightarrow> string \<Rightarrow> abs_store \<Rightarrow> bool" where
  "encrypted_at k c a \<longleftrightarrow> (\<forall>w. a_genesis a (k, c) = Some w \<longrightarrow> is_envelope w)"

lemma sealed_in_place_refl [simp]: "sealed_in_place A P a a"
proof -
  have "a = a\<lparr>a_genesis := a_genesis a\<rparr>" by simp
  then show ?thesis unfolding sealed_in_place_def by blast
qed

lemma sealed_once: "sealed_from A P x y \<Longrightarrow> \<not> sealed_from A P y z"
  by (auto simp: sealed_from_def)

lemma sealed_in_place_trans:
  assumes "sealed_in_place A P a b" and "sealed_in_place A P b c"
  shows "sealed_in_place A P a c"
proof -
  from assms obtain g h where "b = a\<lparr>a_genesis := g\<rparr>" "c = b\<lparr>a_genesis := h\<rparr>"
    by (auto simp: sealed_in_place_def)
  then have "c = a\<lparr>a_genesis := h\<rparr>" by simp
  moreover have "a_genesis c kc = a_genesis a kc \<or> sealed_from A P (a_genesis a kc) (a_genesis c kc)"
    for kc
  proof -
    have "a_genesis b kc = a_genesis a kc \<or> sealed_from A P (a_genesis a kc) (a_genesis b kc)"
      "a_genesis c kc = a_genesis b kc \<or> sealed_from A P (a_genesis b kc) (a_genesis c kc)"
      using assms unfolding sealed_in_place_def by blast+
    then show ?thesis using sealed_once by metis
  qed
  ultimately show ?thesis unfolding sealed_in_place_def by blast
qed

lemma sealed_keeps_encrypted: "sealed_in_place A P a a' \<Longrightarrow> encrypted_at k c a \<Longrightarrow> encrypted_at k c a'"
  by (auto simp: sealed_in_place_def sealed_from_def encrypted_at_def) (metis option.inject)

section \<open>The loops\<close>

context storage_contract
begin

lemma migrate_record_result:
  assumes inv: "invar s" and nf: "nul_free k" "nul_free c"
    and run: "migrate_record A B P dry env k c st s = (r, s')"
  shows "invar s' \<and> sealed_in_place A P (\<alpha> s) (\<alpha> s') \<and> (dry \<longrightarrow> s' = s) \<and>
    (\<forall>st'. r = Inr st' \<longrightarrow> (stats_add st \<longrightarrow> stats_add st') \<and> (\<not> dry \<longrightarrow> encrypted_at k c (\<alpha> s')))"
proof (cases "be_get_genesis B k c s")
  case (Inl e)
  with run inv show ?thesis by (auto simp: migrate_record_def Let_def op_steps)
next
  case (Inr g)
  have g: "g = a_genesis (\<alpha> s) (k, c)" by (rule rdD [OF get_genesis inv Inr])
  consider "g = None" | raw where "g = Some raw" "is_envelope raw \<or> dry"
    | raw where "g = Some raw" "\<not> is_envelope raw" "\<not> dry" by (cases g) auto
  then show ?thesis
  proof cases
    case 1
    with Inr run have "s' = s" "r = Inr (st\<lparr>mig_total := mig_total st + 1,
        mig_missing_genesis := mig_missing_genesis st + 1\<rparr>)"
      by (simp_all add: migrate_record_def Let_def op_steps retE_def)
    with 1 g inv show ?thesis by (auto simp: stats_add_def encrypted_at_def)
  next
    case (2 raw)
    with Inr run have "s' = s" "r = Inr (if is_envelope raw
        then st\<lparr>mig_total := mig_total st + 1, mig_already_encrypted := mig_already_encrypted st + 1\<rparr>
        else st\<lparr>mig_total := mig_total st + 1, mig_migrated := mig_migrated st + 1\<rparr>)"
      by (auto simp: migrate_record_def Let_def op_steps retE_def split: if_splits)
    with 2 g inv show ?thesis by (auto simp: stats_add_def encrypted_at_def)
  next
    case (3 raw)
    have "s' = s \<and> \<not> is_ok r \<or> (\<exists>w. seal A P (fst env) raw = Inr w \<and>
        open_envelope A P (snd env) w = Inr (Some raw) \<and>
        (\<exists>q. be_store_genesis B k c w s = (q, s') \<and>
          r = mapR (\<lambda>_. st\<lparr>mig_total := mig_total st + 1, mig_migrated := mig_migrated st + 1\<rparr>) q))"
      using run 3 Inr
      by (auto simp: migrate_record_def Let_def op_defs is_ok_def
          split: sum.splits prod.splits if_splits option.splits elim!: ok_or.elims)
    then show ?thesis
    proof
      assume "s' = s \<and> \<not> is_ok r"
      with inv show ?thesis by (auto simp: is_ok_def)
    next
      assume "\<exists>w. seal A P (fst env) raw = Inr w \<and>
        open_envelope A P (snd env) w = Inr (Some raw) \<and>
        (\<exists>q. be_store_genesis B k c w s = (q, s') \<and>
          r = mapR (\<lambda>_. st\<lparr>mig_total := mig_total st + 1, mig_migrated := mig_migrated st + 1\<rparr>) q)"
      then obtain w q where w: "seal A P (fst env) raw = Inr w"
        "open_envelope A P (snd env) w = Inr (Some raw)"
        and put: "be_store_genesis B k c w s = (q, s')"
        and r: "r = mapR (\<lambda>_. st\<lparr>mig_total := mig_total st + 1, mig_migrated := mig_migrated st + 1\<rparr>) q"
        by blast
      have env: "is_envelope w" using w(1) by (auto simp: seal_Inr envelope_is_envelope)
      show ?thesis
      proof (cases q)
        case (Inl e)
        with wr_err [OF store_genesis [OF nf] inv] put r 3 show ?thesis by auto
      next
        case (Inr u)
        with wr_ok [OF store_genesis [OF nf] inv] put
        have "invar s'" "\<alpha> s' = (\<alpha> s)\<lparr>a_genesis := (a_genesis (\<alpha> s))((k, c) \<mapsto> w)\<rparr>" by auto
        moreover from this have "sealed_in_place A P (\<alpha> s) (\<alpha> s')"
          using 3 g w env by (auto simp: sealed_in_place_def sealed_from_def)
        ultimately show ?thesis
          using 3 Inr r env by (auto simp: stats_add_def encrypted_at_def)
      qed
    qed
  qed
qed

lemma migrate_formations_result:
  assumes "invar s" and "nul_free k" and "\<forall>f \<in> set fs. nul_free (form_app_id f)"
    and "migrate_formations A B P dry envs k fs st s = (r, s')"
  shows "invar s' \<and> sealed_in_place A P (\<alpha> s) (\<alpha> s') \<and> (dry \<longrightarrow> s' = s) \<and>
    (\<forall>st'. r = Inr st' \<longrightarrow> (stats_add st \<longrightarrow> stats_add st') \<and>
       (\<not> dry \<longrightarrow> (\<forall>f \<in> set fs. encrypted_at k (form_app_id f) (\<alpha> s'))))"
  using assms
proof (induction fs arbitrary: st s)
  case Nil
  then show ?case by (auto simp: retE_def)
next
  case (Cons f fs)
  obtain q t where q: "migrate_record A B P dry (envs (mig_total st)) k (form_app_id f) st s = (q, t)"
    by (cases "migrate_record A B P dry (envs (mig_total st)) k (form_app_id f) st s")
  have nf: "nul_free (form_app_id f)" using Cons.prems by simp
  note rec = migrate_record_result [OF Cons.prems(1,2) nf q]
  show ?case
  proof (cases q)
    case (Inl e)
    with q Cons.prems have "r = Inl e" "s' = t" by (simp_all add: bindE_def)
    with rec show ?thesis by simp
  next
    case (Inr st1)
    with q Cons.prems(4) have "migrate_formations A B P dry envs k fs st1 t = (r, s')"
      by (simp add: bindE_def)
    from Cons.IH [OF _ Cons.prems(2) _ this] rec Cons.prems(3) Inr show ?thesis
      by (auto intro: sealed_in_place_trans sealed_keeps_encrypted)
  qed
qed

lemma migrate_orgs_result:
  assumes "invar s" and "\<forall>org \<in> set orgs. nul_free (org_org_id org)"
    and "migrate_orgs A B P dry envs orgs st s = (r, s')"
  shows "invar s' \<and> sealed_in_place A P (\<alpha> s) (\<alpha> s') \<and> (dry \<longrightarrow> s' = s) \<and>
    (\<forall>st'. r = Inr st' \<longrightarrow> (stats_add st \<longrightarrow> stats_add st') \<and>
       (\<not> dry \<longrightarrow> (\<forall>org \<in> set orgs. \<forall>c. a_formations (\<alpha> s) (org_org_id org, c) \<noteq> None \<longrightarrow>
          encrypted_at (org_org_id org) c (\<alpha> s'))))"
  using assms
proof (induction orgs arbitrary: st s)
  case Nil
  then show ?case by (auto simp: retE_def)
next
  case (Cons org orgs)
  let ?k = "org_org_id org"
  show ?case
  proof (cases "be_list_formations B ?k s")
    case (Inl e)
    with Cons.prems have "r = Inl e" "s' = s" by (simp_all add: op_steps)
    with Cons.prems(1) show ?thesis by simp
  next
    case (Inr fs)
    have fs: "set fs = rows_of (a_formations (\<alpha> s)) ?k"
      using rdD [OF list_formations Cons.prems(1) Inr] by (simp add: lists_rows_def)
    have nf: "\<forall>f \<in> set fs. nul_free (form_app_id f)"
      and own: "\<And>c f. a_formations (\<alpha> s) (?k, c) = Some f \<Longrightarrow> form_app_id f = c"
      using wf [OF Cons.prems(1)] by (auto simp: fs rows_of_def abs_wf_def)
    obtain q t where q: "migrate_formations A B P dry envs ?k fs st s = (q, t)"
      by (cases "migrate_formations A B P dry envs ?k fs st s")
    have "nul_free ?k" using Cons.prems(2) by simp
    note rec = migrate_formations_result [OF Cons.prems(1) this nf q]
    have here: "encrypted_at ?k c (\<alpha> t)"
      if "a_formations (\<alpha> s) (?k, c) \<noteq> None" "is_ok q" "\<not> dry" for c
    proof -
      from that obtain f where "f \<in> set fs" "form_app_id f = c"
        using own by (force simp: fs rows_of_def)
      with rec that show ?thesis by (auto simp: is_ok_def split: sum.splits)
    qed
    show ?thesis
    proof (cases q)
      case (Inl e)
      with q Inr Cons.prems have "r = Inl e" "s' = t" by (simp_all add: readE_def bindE_def)
      with rec show ?thesis by simp
    next
      case Inr': (Inr st1)
      with q Inr Cons.prems(3) have "migrate_orgs A B P dry envs orgs st1 t = (r, s')"
        by (simp add: readE_def bindE_def)
      note IH = Cons.IH [OF _ _ this]
      have same: "a_formations (\<alpha> t) = a_formations (\<alpha> s)"
        using rec by (auto simp: sealed_in_place_def)
      from IH rec Cons.prems(2) Inr' here same show ?thesis
        by (auto intro: sealed_in_place_trans sealed_keeps_encrypted)
    qed
  qed
qed

end

text \<open>The records a migration is about: those of formations of existing organizations.\<close>

definition all_encrypted :: "abs_store \<Rightarrow> bool" where
  "all_encrypted a \<longleftrightarrow>
     (\<forall>k c. a_orgs a k \<noteq> None \<longrightarrow> a_formations a (k, c) \<noteq> None \<longrightarrow> encrypted_at k c a)"

context storage_contract
begin

lemma migrate_keys_result:
  assumes inv: "invar db"
    and run: "migrate_keys F C cfg B dry envs db = (r, db')"
  shows "invar db' \<and> (dry \<longrightarrow> db' = db) \<and>
    (db' = db \<or> (\<exists>P. build_key_provider F C cfg = Inr (P, True) \<and>
       sealed_in_place (cc_aead C) P (\<alpha> db) (\<alpha> db'))) \<and>
    (\<forall>st. r = Inr st \<longrightarrow> stats_add st \<and> (\<not> dry \<longrightarrow> all_encrypted (\<alpha> db')))"
proof (cases "\<exists>P orgs. build_key_provider F C cfg = Inr (P, True) \<and>
    be_list_orgs B db = Inr orgs")
  case False
  with run have "db' = db" "\<not> is_ok r"
    by (auto simp: migrate_keys_def op_defs is_ok_def split: sum.splits if_splits)
  with inv show ?thesis by (auto simp: is_ok_def)
next
  case True
  then obtain P orgs where P: "build_key_provider F C cfg = Inr (P, True)"
    and orgs: "be_list_orgs B db = Inr orgs" by blast
  let ?st = "\<lparr>mig_total = 0, mig_migrated = 0, mig_already_encrypted = 0, mig_missing_genesis = 0\<rparr>"
  have loop: "migrate_orgs (cc_aead C) B P dry envs orgs ?st db = (r, db')"
    using run P orgs by (simp add: migrate_keys_def op_steps)
  have set: "set orgs = ran (a_orgs (\<alpha> db))"
    using rdD [OF list_orgs inv orgs] by simp
  have nf: "\<forall>org \<in> set orgs. nul_free (org_org_id org)"
    and own: "\<And>k org. a_orgs (\<alpha> db) k = Some org \<Longrightarrow> org_org_id org = k"
    using wf [OF inv] by (auto simp: set ran_def abs_wf_def)
  note res = migrate_orgs_result [OF inv nf loop]
  have "all_encrypted (\<alpha> db')" if "is_ok r" "\<not> dry"
    unfolding all_encrypted_def
  proof (intro allI impI)
    fix k c
    have same: "a_orgs (\<alpha> db') = a_orgs (\<alpha> db)"
      "a_formations (\<alpha> db') = a_formations (\<alpha> db)"
      using res by (auto simp: sealed_in_place_def)
    assume "a_orgs (\<alpha> db') k \<noteq> None" "a_formations (\<alpha> db') (k, c) \<noteq> None"
    then obtain org where "org \<in> set orgs" "org_org_id org = k"
      "a_formations (\<alpha> db) (k, c) \<noteq> None"
      using own by (auto simp: same set ran_def)
    with res that show "encrypted_at k c (\<alpha> db')"
      by (auto simp: is_ok_def split: sum.splits)
  qed
  moreover have "stats_add ?st" by (simp add: stats_add_def)
  ultimately show ?thesis using res P by (auto simp: is_ok_def split: sum.splits)
qed

end

section \<open>Properties\<close>

lemma migrate_keys_run:
  assumes "redb_inv S E V X db"
    and "migrate_keys F C cfg (redb_backend S E) dry envs db = (r, db')"
  shows "redb_inv S E V X db' \<and> (dry \<longrightarrow> db' = db) \<and>
    (db' = db \<or> (\<exists>P. build_key_provider F C cfg = Inr (P, True) \<and>
       sealed_in_place (cc_aead C) P (redb_abs S (V db)) (redb_abs S (V db')))) \<and>
    (\<forall>st. r = Inr st \<longrightarrow> stats_add st \<and> (\<not> dry \<longrightarrow> all_encrypted (redb_abs S (V db'))))"
  by (rule redb.migrate_keys_result [OF assms])

text \<open>A record that is an envelope already is left alone.\<close>

context storage_contract
begin

lemma migrate_record_noop:
  assumes "invar s" and "encrypted_at k c (\<alpha> s)"
    and "migrate_record A B P dry env k c st s = (r, s')"
  shows "s' = s \<and> (\<forall>st'. r = Inr st' \<longrightarrow> mig_migrated st' = mig_migrated st)"
proof (cases "be_get_genesis B k c s")
  case (Inl e)
  with assms(3) show ?thesis by (auto simp: migrate_record_def Let_def op_steps)
next
  case (Inr g)
  with rdD [OF get_genesis assms(1) Inr] assms(2) have "g = None \<or> (\<exists>w. g = Some w \<and> is_envelope w)"
    by (cases g) (auto simp: encrypted_at_def)
  with Inr assms(3) show ?thesis by (auto simp: migrate_record_def Let_def op_steps retE_def)
qed

lemma migrate_formations_noop:
  assumes "invar s" and "\<forall>f \<in> set fs. encrypted_at k (form_app_id f) (\<alpha> s)"
    and "migrate_formations A B P dry envs k fs st s = (r, s')"
  shows "s' = s \<and> (\<forall>st'. r = Inr st' \<longrightarrow> mig_migrated st' = mig_migrated st)"
  using assms
proof (induction fs arbitrary: st)
  case (Cons f fs)
  obtain q t where q: "migrate_record A B P dry (envs (mig_total st)) k (form_app_id f) st s = (q, t)"
    by (cases "migrate_record A B P dry (envs (mig_total st)) k (form_app_id f) st s")
  have "encrypted_at k (form_app_id f) (\<alpha> s)" using Cons.prems(2) by simp
  note rec = migrate_record_noop [OF Cons.prems(1) this q]
  show ?case
  proof (cases q)
    case (Inl e)
    with q rec Cons.prems(3) show ?thesis by (auto simp: bindE_def)
  next
    case (Inr st1)
    with q rec Cons.prems(3) have "migrate_formations A B P dry envs k fs st1 s = (r, s')"
      by (auto simp: bindE_def)
    from Cons.IH [OF Cons.prems(1) _ this] Cons.prems(2) rec Inr show ?thesis by auto
  qed
qed (auto simp: retE_def)

lemma migrate_orgs_noop:
  assumes "invar s"
    and "\<forall>org \<in> set orgs. \<forall>c. a_formations (\<alpha> s) (org_org_id org, c) \<noteq> None \<longrightarrow>
      encrypted_at (org_org_id org) c (\<alpha> s)"
    and "migrate_orgs A B P dry envs orgs st s = (r, s')"
  shows "s' = s \<and> (\<forall>st'. r = Inr st' \<longrightarrow> mig_migrated st' = mig_migrated st)"
  using assms
proof (induction orgs arbitrary: st)
  case (Cons org orgs)
  let ?k = "org_org_id org"
  show ?case
  proof (cases "be_list_formations B ?k s")
    case (Inl e)
    with Cons.prems show ?thesis by (auto simp: op_steps)
  next
    case (Inr fs)
    have fs: "set fs = rows_of (a_formations (\<alpha> s)) ?k"
      using rdD [OF list_formations Cons.prems(1) Inr] by (simp add: lists_rows_def)
    have enc: "\<forall>f \<in> set fs. encrypted_at ?k (form_app_id f) (\<alpha> s)"
      using Cons.prems(2) wf [OF Cons.prems(1)] by (fastforce simp: fs rows_of_def abs_wf_def)
    obtain q t where q: "migrate_formations A B P dry envs ?k fs st s = (q, t)"
      by (cases "migrate_formations A B P dry envs ?k fs st s")
    note rec = migrate_formations_noop [OF Cons.prems(1) enc q]
    show ?thesis
    proof (cases q)
      case (Inl e)
      with q rec Inr Cons.prems(3) show ?thesis by (auto simp: readE_def bindE_def)
    next
      case Inr': (Inr st1)
      with q rec Inr Cons.prems(3) have "migrate_orgs A B P dry envs orgs st1 s = (r, s')"
        by (auto simp: readE_def bindE_def)
      from Cons.IH [OF Cons.prems(1) _ this] Cons.prems(2) rec Inr' show ?thesis by auto
    qed
  qed
qed (auto simp: retE_def)

end

abbreviation ref_migrate :: "(mem_db, err, migration_stats) op" where
  "ref_migrate \<equiv> migrate_keys \<lparr>feat_aws_kms = False, feat_vault = False\<rparr> ref_crates ref_config
     (redb_backend mem_serde mem_engine) False (\<lambda>_. (ref_seal_env, se_wrap ref_seal_env))"

lemma ref_migrate_runs: "\<exists>st db1. ref_migrate ref_db = (Inr st, db1)"
proof -
  let ?P = "local_provider ref_aead (replicate 32 7) :: unit key_provider"
  have built: "build_key_provider \<lparr>feat_aws_kms = False, feat_vault = False\<rparr> ref_crates ref_config =
       Inr (?P, True)"
    by (simp add: build_key_provider_def ref_config_def ref_crates_def from_hex_def)
  obtain w where w: "seal ref_aead ?P ref_seal_env [1, 2, 3] = Inr w"
    by (simp add: seal_def local_provider_def local_wrap_dek_def ref_aead_def ref_seal_env_def
        ensure_def)
  have opened: "open_envelope ref_aead ?P (se_wrap ref_seal_env) w = Inr (Some [1, 2, 3])"
    by (rule lp.open_seal [OF ref_cipher.aead_laws_axioms ref_seal_env_ok _ w])
      (simp add: ref_cipher.aead_laws_axioms ref_seal_env_def)
  have aead: "cc_aead ref_crates = ref_aead" by (simp add: ref_crates_def)
  have "\<not> is_envelope [1, 2, 3]" by (simp add: is_envelope_def)
  then show ?thesis
    by (simp add: migrate_keys_def built aead Redb.list_orgs_def Redb.list_formations_def
        Redb.get_genesis_def Redb.store_genesis_def migrate_record_def w opened mem_run ref_org_def
        ref_formation_def starts_with_def)
qed

text \<open>
  A successful \<open>migrate-keys\<close> leaves no plaintext genesis behind: for every formation of every
  organization the stored record, if there is one, is an envelope. It changes nothing else, every
  record it replaced was checked to open to the original bytes, and its counters add up. That holds
  for a run that stops on an error too, up to the record it stopped at.
\<close>

theorem migrate_keys_seals:
  assumes "redb_inv S E V X db"
    and "migrate_keys F C cfg (redb_backend S E) False envs db = (r, db')"
  shows "(is_ok r \<longrightarrow> all_encrypted (redb_abs S (V db'))) \<and>
    (db' = db \<or> (\<exists>P. build_key_provider F C cfg = Inr (P, True) \<and>
       sealed_in_place (cc_aead C) P (redb_abs S (V db)) (redb_abs S (V db')))) \<and>
    (\<forall>st. r = Inr st \<longrightarrow> stats_add st)"
  using migrate_keys_run [OF assms] by (auto simp: is_ok_def split: sum.splits)

theorem migrate_keys_seals_witness:
  "\<exists>st db1. ref_migrate ref_db = (Inr st, db1) \<and>
     all_encrypted (redb_abs mem_serde (mem_tables db1))"
proof -
  obtain st db1 where 1: "ref_migrate ref_db = (Inr st, db1)" using ref_migrate_runs by blast
  from migrate_keys_seals [OF ref_db_inv 1] 1 show ?thesis by auto
qed

text \<open>
  A dry run writes nothing, and running the migration again after it succeeded migrates no record
  and leaves the database as it is.
\<close>

theorem migrate_keys_idempotent:
  assumes "redb_inv S E V X db"
    and "migrate_keys F C cfg (redb_backend S E) dry envs db = (Inr st, db1)"
    and "migrate_keys F C cfg (redb_backend S E) False envs' db1 = (r, db2)"
  shows "(dry \<longrightarrow> db1 = db) \<and>
    (\<not> dry \<longrightarrow> db2 = db1 \<and> (\<forall>st'. r = Inr st' \<longrightarrow> mig_migrated st' = 0))"
proof (intro conjI impI)
  assume dry
  then show "db1 = db" using migrate_keys_run [OF assms(1,2)] by blast
next
  assume real: "\<not> dry"
  with migrate_keys_run [OF assms(1,2)] have inv: "redb_inv S E V X db1"
    and enc: "all_encrypted (redb_abs S (V db1))" by auto
  have "db2 = db1 \<and> (\<forall>st'. r = Inr st' \<longrightarrow> mig_migrated st' = 0)"
  proof (cases "\<exists>P orgs. build_key_provider F C cfg = Inr (P, True) \<and>
      be_list_orgs (redb_backend S E) db1 = Inr orgs")
    case False
    with assms(3) show ?thesis
      by (auto simp: migrate_keys_def op_defs is_ok_def split: sum.splits if_splits)
  next
    case True
    then obtain P orgs where P: "build_key_provider F C cfg = Inr (P, True)"
      and orgs: "be_list_orgs (redb_backend S E) db1 = Inr orgs" by blast
    let ?st = "\<lparr>mig_total = 0, mig_migrated = 0, mig_already_encrypted = 0, mig_missing_genesis = 0\<rparr>"
    have loop: "migrate_orgs (cc_aead C) (redb_backend S E) P False envs' orgs ?st db1 = (r, db2)"
      using assms(3) P orgs by (simp add: migrate_keys_def op_steps)
    have "\<forall>org \<in> set orgs. a_orgs (redb_abs S (V db1)) (org_org_id org) \<noteq> None"
      using rdD [OF redb.list_orgs inv orgs] redb_wf [OF inv] by (auto simp: ran_def abs_wf_def)
    with enc have "\<forall>org \<in> set orgs. \<forall>c. a_formations (redb_abs S (V db1)) (org_org_id org, c) \<noteq> None \<longrightarrow>
        encrypted_at (org_org_id org) c (redb_abs S (V db1))"
      by (auto simp: all_encrypted_def)
    from redb.migrate_orgs_noop [OF inv this loop] show ?thesis by simp
  qed
  then show "db2 = db1" "\<forall>st'. r = Inr st' \<longrightarrow> mig_migrated st' = 0" by auto
qed

theorem migrate_keys_idempotent_witness:
  "\<exists>st db1 r db2. ref_migrate ref_db = (Inr st, db1) \<and> ref_migrate db1 = (r, db2) \<and> db2 = db1"
proof -
  obtain st db1 where 1: "ref_migrate ref_db = (Inr st, db1)" using ref_migrate_runs by blast
  obtain r db2 where 2: "ref_migrate db1 = (r, db2)" by (cases "ref_migrate db1")
  from migrate_keys_idempotent [OF ref_db_inv 1 2] 1 2 show ?thesis by blast
qed

end
