(* ===== verification/Mesh_Ingest.thy ===== *)
theory Mesh_Ingest
  imports Watcher Api "HOL-Library.AList"
begin

text \<open>
  Remote mesh brokers (\<open>src/mesh_ingest.rs\<close>): a task for each configured broker polls it over HTTP, keeps
  the last snapshot for the API, publishes a change event for every document that is new or differs from
  the last snapshot, and tells subscribers what changed.

  The HTTP client, the decoding of the bodies and the text of an error are parameters, as is the order in
  which a hash map or a hash set is walked. The state of a task is its snapshot, the events it has sent to
  subscribers and, for publishing, the state of the change data capture.
\<close>

section \<open>Data\<close>

record mesh_node_info =
  ni_node_id :: string
  ni_uptime_secs :: u64
  ni_version :: string

record topology_summary =
  tp_peer_count :: u64
  tp_role :: string
  tp_hierarchy_level :: u32

record readiness_check =
  ck_name :: string
  ck_ready :: bool
  ck_message :: "string option"

record readiness_response =
  rr_ready :: bool
  rr_node_id :: string
  rr_checks :: "readiness_check list"

record peer_summary =
  ps_id :: string
  ps_connected :: bool
  ps_state :: string
  ps_rtt_ms :: "u64 option"

datatype mesh_event =
    PeerConnected string
  | PeerDisconnected string string         \<comment> \<open>peer, reason\<close>
  | TopologyChanged string u64             \<comment> \<open>role, peer count\<close>
  | SyncEvent string string string         \<comment> \<open>collection, document, action\<close>

type_synonym 'j collections = "(string \<times> 'j json list) list"

record 'j snapshot =
  sn_node_info :: mesh_node_info
  sn_topology :: topology_summary
  sn_readiness :: readiness_response
  sn_peers :: "peer_summary list"
  sn_documents :: "'j collections"
  sn_last_sync_ms :: "u64 option"
  sn_last_error :: "string option"

definition not_ready :: "string \<Rightarrow> string \<Rightarrow> readiness_response" where
  "not_ready node_id msg =
     \<lparr>rr_ready = False, rr_node_id = node_id,
      rr_checks = [\<lparr>ck_name = ''remote-broker'', ck_ready = False, ck_message = Some msg\<rparr>]\<rparr>"

definition new_snapshot :: "string \<Rightarrow> 'j snapshot" where
  "new_snapshot node_id =
     \<lparr>sn_node_info = \<lparr>ni_node_id = node_id, ni_uptime_secs = 0, ni_version = ''remote-broker-pending''\<rparr>,
      sn_topology = \<lparr>tp_peer_count = 0, tp_role = ''standalone'', tp_hierarchy_level = 0\<rparr>,
      sn_readiness = not_ready node_id ''waiting for first successful poll'',
      sn_peers = [], sn_documents = [], sn_last_sync_ms = None, sn_last_error = None\<rparr>"

text \<open>
  The transport: a GET answers with a status and a body; each type of body has its decoder. The record
  types of the broker's answers are those they are turned into, field by field.
\<close>

record ('w, 'b, 'j) broker_http =
  bh_get :: "string \<Rightarrow> ('w, err, nat \<times> 'b) op"
  bh_node :: "'b \<Rightarrow> err + mesh_node_info"
  bh_topology :: "'b \<Rightarrow> err + topology_summary"
  bh_ready :: "'b \<Rightarrow> err + readiness_response"
  bh_peers :: "'b \<Rightarrow> err + peer_summary list"
  bh_documents :: "'b \<Rightarrow> err + 'j json list"
  bh_err_text :: "err \<Rightarrow> string"

record 'j walks =
  wk_collections :: "'j collections \<Rightarrow> 'j collections"
  wk_ids :: "string list \<Rightarrow> string list"

record ('s, 'w, 'j) ingest_state =
  ig_cdc :: "('s, 'w) cdc_state"
  ig_snapshot :: "'j snapshot"
  ig_sent :: "mesh_event list"

text \<open>A remote broker: its mapping and, when change data capture is attached, the engine.\<close>

record ('s, 'n) remote_broker =
  rb_mapping :: mesh_broker_mapping
  rb_cdc_engine :: "('s, 'n) cdc_engine option"

section \<open>Documents\<close>

definition document_id :: "'j json \<Rightarrow> string option" where
  "document_id doc =
     Option.bind (case json_get doc ''_id'' of Some v \<Rightarrow> Some v | None \<Rightarrow> json_get doc ''uid'') as_str"

definition doc_content_hash :: "'j hashing \<Rightarrow> 'j json \<Rightarrow> u64" where
  "doc_content_hash Z doc =
     hs_finish Z (case hs_json_text Z doc of Inr s \<Rightarrow> [HStr s] | Inl _ \<Rightarrow> [])"

text \<open>The format \<open>{:016x}\<close>.\<close>

definition hex16 :: "u64 \<Rightarrow> string" where
  "hex16 n = (let h = lower_hex (unat n) in replicate (16 - length h) CHR ''0'' @ h)"

section \<open>One poll\<close>

definition is_error_status :: "nat \<Rightarrow> bool" where
  "is_error_status status \<longleftrightarrow> 400 \<le> status \<and> status < 600"

definition get_json ::
  "('w, 'b, 'j) broker_http \<Rightarrow> mesh_broker_mapping \<Rightarrow> ('b \<Rightarrow> err + 'a) \<Rightarrow> string \<Rightarrow> ('w, err, 'a) op" where
  "get_json H mapping de path =
     bindE (bh_get H (mb_base_url mapping @ path)) (\<lambda>(status, body).
       if is_error_status status then failE (HttpStatus status) else liftE (de body))"

text \<open>A collection that cannot be read is left out.\<close>

fun get_collections ::
  "('w, 'b, 'j) broker_http \<Rightarrow> mesh_broker_mapping \<Rightarrow> string list \<Rightarrow> 'j collections \<Rightarrow> ('w, err, 'j collections) op" where
  "get_collections H mapping [] documents = retE documents"
| "get_collections H mapping (collection # cs) documents =
     (\<lambda>w. case get_json H mapping (bh_documents H) (''/api/v1/documents/'' @ collection) w of
        (Inr docs, w') \<Rightarrow> get_collections H mapping cs (AList.update collection docs documents) w'
      | (Inl _, w') \<Rightarrow> get_collections H mapping cs documents w')"

definition get_readiness ::
  "('w, 'b, 'j) broker_http \<Rightarrow> mesh_broker_mapping \<Rightarrow> string \<Rightarrow> ('w, err, readiness_response) op" where
  "get_readiness H mapping node_id w =
     (case get_json H mapping (bh_ready H) ''/api/v1/ready'' w of
        (Inr r, w') \<Rightarrow> (Inr r, w')
      | (Inl e, w') \<Rightarrow> (Inr (not_ready node_id (''ready probe failed: '' @ bh_err_text H e)), w'))"

definition fetch_snapshot ::
  "('w, 'b, 'j) broker_http \<Rightarrow> mesh_broker_mapping \<Rightarrow> u64 \<Rightarrow> ('w, err, 'j snapshot) op" where
  "fetch_snapshot H mapping now =
     bindE (get_json H mapping (bh_node H) ''/api/v1/node'') (\<lambda>node_info.
     bindE (get_json H mapping (bh_topology H) ''/api/v1/topology'') (\<lambda>topology.
     bindE (get_readiness H mapping (ni_node_id node_info)) (\<lambda>readiness.
     bindE (get_json H mapping (bh_peers H) ''/api/v1/peers'') (\<lambda>peers.
     bindE (get_collections H mapping (mb_collections mapping) []) (\<lambda>documents.
       retE \<lparr>sn_node_info = node_info, sn_topology = topology, sn_readiness = readiness, sn_peers = peers,
             sn_documents = documents, sn_last_sync_ms = Some now, sn_last_error = None\<rparr>)))))"

section \<open>Change events\<close>

definition doc_event ::
  "'j hashing \<Rightarrow> mesh_broker_mapping \<Rightarrow> u64 \<Rightarrow> string \<Rightarrow> string \<Rightarrow> 'j json \<Rightarrow> 'j cdc_event" where
  "doc_event Z mapping timestamp_ms collection doc_id doc =
     \<lparr>ev_org_id = mb_org_id mapping, ev_app_id = mb_app_id mapping,
      ev_document_id = collection @ ''/'' @ doc_id,
      ev_change_hash = hex16 (doc_content_hash Z doc),
      ev_actor_id = (case Option.bind (json_get doc ''_actor'') as_str of Some a \<Rightarrow> a | None \<Rightarrow> ''remote-broker''),
      ev_timestamp_ms = timestamp_ms, ev_patches = doc\<rparr>"

text \<open>\<open>collect\<close> into a hash map: a later document with the same identifier wins.\<close>

definition hashes_by_id :: "'j hashing \<Rightarrow> 'j json list \<Rightarrow> string \<rightharpoonup> u64" where
  "hashes_by_id Z docs =
     map_of (rev (List.map_filter (\<lambda>d. map_option (\<lambda>i. (i, doc_content_hash Z d)) (document_id d)) docs))"

fun publish_docs ::
  "'j hashing \<Rightarrow> ('w, 'j) net \<Rightarrow> ('s, 'n) cdc_engine \<Rightarrow> mesh_broker_mapping \<Rightarrow> u64 \<Rightarrow> string
     \<Rightarrow> (string \<rightharpoonup> u64) \<Rightarrow> 'j json list \<Rightarrow> ('s, 'w) cdc_state \<Rightarrow> ('s, 'w) cdc_state" where
  "publish_docs Z N G mapping ts collection old_by_id [] c = c"
| "publish_docs Z N G mapping ts collection old_by_id (doc # docs) c =
     (case document_id doc of
        None \<Rightarrow> publish_docs Z N G mapping ts collection old_by_id docs c
      | Some doc_id \<Rightarrow>
          if old_by_id doc_id = Some (doc_content_hash Z doc)
          then publish_docs Z N G mapping ts collection old_by_id docs c
          else publish_docs Z N G mapping ts collection old_by_id docs
                 (snd (publish N G (doc_event Z mapping ts collection doc_id doc) c)))"

fun publish_collections ::
  "'j hashing \<Rightarrow> ('w, 'j) net \<Rightarrow> ('s, 'n) cdc_engine \<Rightarrow> mesh_broker_mapping \<Rightarrow> u64 \<Rightarrow> 'j collections
     \<Rightarrow> 'j collections \<Rightarrow> ('s, 'w) cdc_state \<Rightarrow> ('s, 'w) cdc_state" where
  "publish_collections Z N G mapping ts old_docs [] c = c"
| "publish_collections Z N G mapping ts old_docs ((collection, new_docs) # rest) c =
     publish_collections Z N G mapping ts old_docs rest
       (publish_docs Z N G mapping ts collection
          (hashes_by_id Z (case map_of old_docs collection of Some ds \<Rightarrow> ds | None \<Rightarrow> [])) new_docs c)"

definition publish_cdc_diffs ::
  "'j hashing \<Rightarrow> 'j walks \<Rightarrow> ('w, 'j) net \<Rightarrow> ('s, 'n) cdc_engine \<Rightarrow> mesh_broker_mapping \<Rightarrow> 'j snapshot
     \<Rightarrow> 'j snapshot \<Rightarrow> u64 \<Rightarrow> ('s, 'w) cdc_state \<Rightarrow> ('s, 'w) cdc_state" where
  "publish_cdc_diffs Z O' N G mapping old new timestamp_ms =
     publish_collections Z N G mapping timestamp_ms (sn_documents old) (wk_collections O' (sn_documents new))"

section \<open>Events for subscribers\<close>

definition difference :: "'j walks \<Rightarrow> string list \<Rightarrow> string list \<Rightarrow> string list" where
  "difference O' xs ys = wk_ids O' (filter (\<lambda>x. x \<notin> set ys) (remdups xs))"

definition doc_ids :: "'j json list \<Rightarrow> string list" where
  "doc_ids docs = List.map_filter document_id docs"

definition emit_diffs :: "'j walks \<Rightarrow> 'j snapshot \<Rightarrow> 'j snapshot \<Rightarrow> mesh_event list" where
  "emit_diffs O' old new =
     (let old_peers = map ps_id (sn_peers old); new_peers = map ps_id (sn_peers new)
      in map PeerConnected (difference O' new_peers old_peers) @
         map (\<lambda>p. PeerDisconnected p ''missing from remote broker snapshot'') (difference O' old_peers new_peers) @
         (if tp_peer_count (sn_topology old) \<noteq> tp_peer_count (sn_topology new) \<or>
             tp_role (sn_topology old) \<noteq> tp_role (sn_topology new)
          then [TopologyChanged (tp_role (sn_topology new)) (tp_peer_count (sn_topology new))] else []) @
         concat (map (\<lambda>(collection, docs).
             map (\<lambda>i. SyncEvent collection i ''upsert'')
               (difference O' (doc_ids docs)
                  (doc_ids (case map_of (sn_documents old) collection of Some ds \<Rightarrow> ds | None \<Rightarrow> []))))
           (wk_collections O' (sn_documents new))))"

section \<open>The task\<close>

definition refresh_once ::
  "'j hashing \<Rightarrow> 'j walks \<Rightarrow> ('w, 'j) net \<Rightarrow> ('w, 'b, 'j) broker_http \<Rightarrow> ('s, 'n) remote_broker \<Rightarrow> u64
     \<Rightarrow> (('s, 'w, 'j) ingest_state, err, unit) op" where
  "refresh_once Z O' N H B now s =
     (case on_net (fetch_snapshot H (rb_mapping B) now) (ig_cdc s) of
        (Inl e, c) \<Rightarrow> (Inl e, s\<lparr>ig_cdc := c\<rparr>)
      | (Inr new, c) \<Rightarrow>
          let c' = (case rb_cdc_engine B of
                      Some G \<Rightarrow> publish_cdc_diffs Z O' N G (rb_mapping B) (ig_snapshot s) new now c
                    | None \<Rightarrow> c)
          in (Inr (), \<lparr>ig_cdc = c', ig_snapshot = new, ig_sent = ig_sent s @ emit_diffs O' (ig_snapshot s) new\<rparr>))"

definition record_error :: "string \<Rightarrow> ('s, 'w, 'j) ingest_state \<Rightarrow> ('s, 'w, 'j) ingest_state" where
  "record_error error s =
     s\<lparr>ig_snapshot := (ig_snapshot s)
        \<lparr>sn_last_error := Some error,
         sn_readiness := not_ready (ni_node_id (sn_node_info (ig_snapshot s))) error\<rparr>\<rparr>"

definition poll ::
  "'j hashing \<Rightarrow> 'j walks \<Rightarrow> ('w, 'j) net \<Rightarrow> ('w, 'b, 'j) broker_http \<Rightarrow> ('s, 'n) remote_broker \<Rightarrow> u64
     \<Rightarrow> ('s, 'w, 'j) ingest_state \<Rightarrow> ('s, 'w, 'j) ingest_state" where
  "poll Z O' N H B now s =
     (case refresh_once Z O' N H B now s of
        (Inr _, s') \<Rightarrow> s'
      | (Inl e, s') \<Rightarrow> record_error (bh_err_text H e) s')"

text \<open>
  The loop never ends; this is what it has done after the first poll and the ticks so far, each with the
  clock at its end.
\<close>

fun refresh_loop ::
  "'j hashing \<Rightarrow> 'j walks \<Rightarrow> ('w, 'j) net \<Rightarrow> ('w, 'b, 'j) broker_http \<Rightarrow> ('s, 'n) remote_broker \<Rightarrow> u64 list
     \<Rightarrow> ('s, 'w, 'j) ingest_state \<Rightarrow> ('s, 'w, 'j) ingest_state" where
  "refresh_loop Z O' N H B [] s = s"
| "refresh_loop Z O' N H B (now # ticks) s = refresh_loop Z O' N H B ticks (poll Z O' N H B now s)"

section \<open>Reading the snapshot\<close>

definition node_info :: "'j snapshot \<Rightarrow> mesh_node_info" where
  "node_info sn = sn_node_info sn"

definition topology :: "'j snapshot \<Rightarrow> topology_summary" where
  "topology sn = sn_topology sn"

definition get_peer :: "'j snapshot \<Rightarrow> string \<Rightarrow> peer_summary option" where
  "get_peer sn i = find (\<lambda>p. ps_id p = i) (sn_peers sn)"

definition readiness :: "(u64 \<Rightarrow> string) \<Rightarrow> 'j snapshot \<Rightarrow> readiness_response" where
  "readiness show_u64 sn =
     (case sn_last_sync_ms sn of
        None \<Rightarrow> sn_readiness sn
      | Some ms \<Rightarrow> (sn_readiness sn)\<lparr>rr_checks := rr_checks (sn_readiness sn) @
          [\<lparr>ck_name = ''last-sync-ms'', ck_ready = True, ck_message = Some (show_u64 ms)\<rparr>]\<rparr>)"

definition broker_list_documents :: "'j snapshot \<Rightarrow> string \<Rightarrow> 'j json list option" where
  "broker_list_documents sn collection = map_of (sn_documents sn) collection"

definition get_document :: "'j snapshot \<Rightarrow> string \<Rightarrow> string \<Rightarrow> 'j json option" where
  "get_document sn collection i =
     Option.bind (map_of (sn_documents sn) collection) (find (\<lambda>d. document_id d = Some i))"

text \<open>The snapshot as the broker state the API reads.\<close>

definition broker_view :: "'j snapshot \<Rightarrow> 'j mesh_broker" where
  "broker_view sn =
     \<lparr>br_list_peers = map (\<lambda>p. (ps_id p, ps_connected p)) (sn_peers sn),
      br_list_documents = broker_list_documents sn\<rparr>"

text \<open>
  The manager: a new broker starts with the pending snapshot, its task is spawned (\<open>refresh_loop\<close>), and its
  state is put into the registry the API looks brokers up in.
\<close>

record ('s, 'n, 'j) mesh_ingest_manager =
  im_registry :: "'j mesh_state_registry"
  im_poll_interval_ms :: u64
  im_cdc_engine :: "('s, 'n) cdc_engine option"

definition new_ingest_manager :: "'j mesh_state_registry \<Rightarrow> u64 \<Rightarrow> ('s, 'n, 'j) mesh_ingest_manager" where
  "new_ingest_manager registry poll_interval =
     \<lparr>im_registry = registry, im_poll_interval_ms = poll_interval, im_cdc_engine = None\<rparr>"

definition with_cdc ::
  "('s, 'n) cdc_engine \<Rightarrow> ('s, 'n, 'j) mesh_ingest_manager \<Rightarrow> ('s, 'n, 'j) mesh_ingest_manager" where
  "with_cdc engine m = m\<lparr>im_cdc_engine := Some engine\<rparr>"

definition new_remote_broker ::
  "mesh_broker_mapping \<Rightarrow> ('s, 'n) cdc_engine option \<Rightarrow> ('s, 'n) remote_broker \<times> 'j snapshot" where
  "new_remote_broker mapping engine =
     (\<lparr>rb_mapping = mapping, rb_cdc_engine = engine\<rparr>,
      new_snapshot (mb_org_id mapping @ '':'' @ mb_app_id mapping))"

definition register_remote_broker ::
  "mesh_broker_mapping \<Rightarrow> ('s, 'n, 'j) mesh_ingest_manager
     \<Rightarrow> ('s, 'n) remote_broker \<times> 'j snapshot \<times> ('s, 'n, 'j) mesh_ingest_manager" where
  "register_remote_broker mapping m =
     (case new_remote_broker mapping (im_cdc_engine m) of
        (B, sn) \<Rightarrow>
          (B, sn, m\<lparr>im_registry := register (mb_org_id mapping) (mb_app_id mapping) (broker_view sn) (im_registry m)\<rparr>))"

end
