(* ===== verification/Ingest_Properties.thy ===== *)
theory Ingest_Properties
  imports Mesh_Ingest Cdc_Properties
begin

text \<open>
  Remote mesh brokers: what a poll publishes, what it leaves alone, and how far a remote broker's answers
  reach.
\<close>

section \<open>What is published\<close>

text \<open>The documents of a listing that a poll reports: those with an identifier and another content than before.\<close>

definition changed_in ::
  "'j hashing \<Rightarrow> mesh_broker_mapping \<Rightarrow> u64 \<Rightarrow> string \<Rightarrow> (string \<rightharpoonup> u64) \<Rightarrow> 'j json list \<Rightarrow> 'j cdc_event list" where
  "changed_in Z mapping ts collection old_by_id docs =
     List.map_filter (\<lambda>doc. case document_id doc of
         None \<Rightarrow> None
       | Some i \<Rightarrow> if old_by_id i = Some (doc_content_hash Z doc) then None
                   else Some (doc_event Z mapping ts collection i doc)) docs"

definition old_hashes :: "'j hashing \<Rightarrow> 'j collections \<Rightarrow> string \<Rightarrow> string \<rightharpoonup> u64" where
  "old_hashes Z old collection = hashes_by_id Z (case map_of old collection of Some ds \<Rightarrow> ds | None \<Rightarrow> [])"

definition changed_events ::
  "'j hashing \<Rightarrow> mesh_broker_mapping \<Rightarrow> u64 \<Rightarrow> 'j collections \<Rightarrow> 'j collections \<Rightarrow> 'j cdc_event list" where
  "changed_events Z mapping ts old new =
     concat (map (\<lambda>(collection, docs). changed_in Z mapping ts collection (old_hashes Z old collection) docs) new)"

fun publish_events ::
  "('w, 'j) net \<Rightarrow> ('s, 'n) cdc_engine \<Rightarrow> 'j cdc_event list \<Rightarrow> ('s, 'w) cdc_state \<Rightarrow> ('s, 'w) cdc_state" where
  "publish_events N G [] c = c"
| "publish_events N G (ev # evs) c = publish_events N G evs (snd (publish N G ev c))"

lemma publish_events_append:
  "publish_events N G (xs @ ys) c = publish_events N G ys (publish_events N G xs c)"
  by (induction xs arbitrary: c) simp_all

lemma publish_docs_events:
  "publish_docs Z N G mapping ts collection m docs c =
   publish_events N G (changed_in Z mapping ts collection m docs) c"
  by (induction docs arbitrary: c) (simp_all add: changed_in_def List.map_filter_simps split: option.split)

lemma publish_collections_events:
  "publish_collections Z N G mapping ts old new c = publish_events N G (changed_events Z mapping ts old new) c"
  by (induction new arbitrary: c)
     (auto simp: changed_events_def old_hashes_def publish_docs_events publish_events_append)

text \<open>A walk over a hash map or a hash set meets every entry once, in some order.\<close>

locale hash_walks =
  fixes O' :: "'j walks"
  assumes collections: "mset (wk_collections O' cs) = mset cs"
    and ids: "mset (wk_ids O' is) = mset is"

lemma mset_concat_map: "mset (concat (map f xs)) = (\<Sum>x \<in># mset xs. mset (f x))"
  by (induction xs) simp_all

lemma mset_changed_events:
  "mset new = mset new' \<Longrightarrow>
     mset (changed_events Z mapping ts old new) = mset (changed_events Z mapping ts old new')"
  by (simp add: changed_events_def mset_concat_map del: mset_concat)

lemma refresh_once_Inr:
  assumes "refresh_once Z O' N H B now s = (Inr u, s')"
  obtains c where "on_net (fetch_snapshot H (rb_mapping B) now) (ig_cdc s) = (Inr (ig_snapshot s'), c)"
    "ig_sent s' = ig_sent s @ emit_diffs O' (ig_snapshot s) (ig_snapshot s')"
    "ig_cdc s' = (case rb_cdc_engine B of None \<Rightarrow> c
       | Some G \<Rightarrow> publish_events N G (changed_events Z (rb_mapping B) now (sn_documents (ig_snapshot s))
           (wk_collections O' (sn_documents (ig_snapshot s')))) c)"
  using assms
  by (auto simp: refresh_once_def Let_def publish_cdc_diffs_def publish_collections_events
      split: prod.splits sum.splits option.splits)

lemma refresh_once_Inl:
  assumes "refresh_once Z O' N H B now s = (Inl e, s')"
  obtains c where "on_net (fetch_snapshot H (rb_mapping B) now) (ig_cdc s) = (Inl e, c)" "s' = s\<lparr>ig_cdc := c\<rparr>"
  using assms by (auto simp: refresh_once_def Let_def split: prod.splits sum.splits option.splits)

lemma on_net_frame:
  assumes "on_net f c = (r, c')"
  shows "cs_store c' = cs_store c" and "cs_calls c' = cs_calls c"
  using assms by (auto simp: on_net_def split: prod.splits)

lemma ev_ids_changed:
  "ev \<in> set (changed_events Z mapping ts old new) \<Longrightarrow> ev_org_id ev = mb_org_id mapping \<and> ev_app_id ev = mb_app_id mapping"
  by (auto simp: changed_events_def changed_in_def List.map_filter_def doc_event_def split: option.splits if_splits)

lemma set_changed_in:
  "ev \<in> set (changed_in Z mapping ts collection m docs) \<longleftrightarrow> (\<exists>doc i. doc \<in> set docs \<and> document_id doc = Some i \<and>
     m i \<noteq> Some (doc_content_hash Z doc) \<and> ev = doc_event Z mapping ts collection i doc)"
proof (induction docs)
  case (Cons d docs)
  then show ?case
    by (cases "document_id d") (auto simp: changed_in_def List.map_filter_simps)
qed (simp add: changed_in_def List.map_filter_simps)

lemma set_changed_events:
  "ev \<in> set (changed_events Z mapping ts old new) \<longleftrightarrow> (\<exists>collection docs doc i.
     (collection, docs) \<in> set new \<and> doc \<in> set docs \<and> document_id doc = Some i \<and>
     old_hashes Z old collection i \<noteq> Some (doc_content_hash Z doc) \<and> ev = doc_event Z mapping ts collection i doc)"
  unfolding changed_events_def set_concat set_map by (auto simp: set_changed_in) blast+

text \<open>A document is its own old version when no other has its identifier.\<close>

lemma hashes_by_id_self:
  assumes "distinct (doc_ids docs)" and "doc \<in> set docs" and "document_id doc = Some i"
  shows "hashes_by_id Z docs i = Some (doc_content_hash Z doc)"
proof -
  let ?f = "\<lambda>d. map_option (\<lambda>i. (i, doc_content_hash Z d)) (document_id d)"
  have "map fst (List.map_filter ?f docs) = doc_ids docs"
    by (induction docs) (auto simp: doc_ids_def List.map_filter_simps split: option.splits)
  moreover have "(i, doc_content_hash Z doc) \<in> set (List.map_filter ?f docs)"
    using assms(2,3) by (force simp: List.map_filter_def)
  ultimately show ?thesis
    using assms(1) by (simp add: hashes_by_id_def map_of_eq_Some_iff rev_map [symmetric])
qed

lemma no_changes:
  assumes "distinct (map fst docs)" and "\<forall>(collection, ds) \<in> set docs. distinct (doc_ids ds)"
  shows "changed_events Z mapping ts docs docs = []"
proof -
  have "False" if "ev \<in> set (changed_events Z mapping ts docs docs)" for ev
  proof -
    from that obtain collection ds doc i where *: "(collection, ds) \<in> set docs" "doc \<in> set ds" "document_id doc = Some i"
      "old_hashes Z docs collection i \<noteq> Some (doc_content_hash Z doc)"
      by (auto simp: set_changed_events)
    from *(1) assms(1) have "map_of docs collection = Some ds" by simp
    with * assms(2) hashes_by_id_self [of ds doc i Z] show False by (auto simp: old_hashes_def)
  qed
  then show ?thesis by (metis list.set_intros(1) neq_Nil_conv)
qed

lemma no_difference:
  assumes "hash_walks O'"
  shows "difference O' xs xs = []"
  using hash_walks.ids [OF assms, of "[]"] by (simp add: difference_def)

lemma no_diffs:
  assumes "hash_walks O'" and "sn_documents new = sn_documents old" and "distinct (map fst (sn_documents new))"
    and "map ps_id (sn_peers new) = map ps_id (sn_peers old)" and "sn_topology new = sn_topology old"
  shows "emit_diffs O' old new = []"
proof -
  have "set (wk_collections O' (sn_documents new)) = set (sn_documents new)"
    by (rule mset_eq_setD [OF hash_walks.collections [OF assms(1)]])
  then have "map_of (sn_documents old) collection = Some docs"
    if "(collection, docs) \<in> set (wk_collections O' (sn_documents new))" for collection docs
    using that assms(2,3) by simp
  then show ?thesis
    using assms(4,5) by (auto simp: emit_diffs_def no_difference [OF assms(1)])
qed

section \<open>A successful poll\<close>

text \<open>
  C28: a successful poll publishes exactly the changes. It takes the broker's answers as its new snapshot
  and publishes, each once and in some order, one event for every document of the new snapshot that has
  an identifier and whose content hash differs from that of the document with this identifier in the same
  collection of the old snapshot, or that was not there; the event carries the mapping's organization and
  formation, the hash, and the document. Documents without an identifier are never published.
\<close>

theorem ingest_publishes_changes:
  assumes "hash_walks O'" and "rb_cdc_engine B = Some G" and "refresh_once Z O' N H B now s = (Inr u, s')"
  shows "\<exists>c evs. on_net (fetch_snapshot H (rb_mapping B) now) (ig_cdc s) = (Inr (ig_snapshot s'), c) \<and>
    ig_cdc s' = publish_events N G evs c \<and>
    mset evs = mset (changed_events Z (rb_mapping B) now (sn_documents (ig_snapshot s)) (sn_documents (ig_snapshot s'))) \<and>
    (\<forall>ev. ev \<in> set evs \<longleftrightarrow> (\<exists>collection docs doc i.
       (collection, docs) \<in> set (sn_documents (ig_snapshot s')) \<and> doc \<in> set docs \<and> document_id doc = Some i \<and>
       old_hashes Z (sn_documents (ig_snapshot s)) collection i \<noteq> Some (doc_content_hash Z doc) \<and>
       ev = doc_event Z (rb_mapping B) now collection i doc))"
proof -
  let ?old = "sn_documents (ig_snapshot s)" and ?new = "sn_documents (ig_snapshot s')"
  let ?evs = "changed_events Z (rb_mapping B) now ?old (wk_collections O' ?new)"
  obtain c where c: "on_net (fetch_snapshot H (rb_mapping B) now) (ig_cdc s) = (Inr (ig_snapshot s'), c)"
    "ig_cdc s' = publish_events N G ?evs c"
    using refresh_once_Inr [OF assms(3)] assms(2) by (metis option.simps(5))
  have walk: "mset (wk_collections O' ?new) = mset ?new"
    by (rule hash_walks.collections [OF assms(1)])
  have "set (wk_collections O' ?new) = set ?new" by (rule mset_eq_setD [OF walk])
  then have "ev \<in> set ?evs \<longleftrightarrow> (\<exists>collection docs doc i.
       (collection, docs) \<in> set ?new \<and> doc \<in> set docs \<and> document_id doc = Some i \<and>
       old_hashes Z ?old collection i \<noteq> Some (doc_content_hash Z doc) \<and>
       ev = doc_event Z (rb_mapping B) now collection i doc)" for ev
    by (fastforce simp: set_changed_events)
  with c mset_changed_events [OF walk] show ?thesis by blast
qed

section \<open>Nothing new\<close>

text \<open>
  A poll that finds the documents of the last snapshot again publishes nothing, and tells subscribers
  nothing when the peers and the topology are as before, as long as no identifier occurs twice in a
  collection.
\<close>

theorem ingest_quiet:
  assumes "hash_walks O'" and "refresh_once Z O' N H B now s = (Inr u, s')"
    and "on_net (fetch_snapshot H (rb_mapping B) now) (ig_cdc s) = (Inr new, c)"
    and "sn_documents new = sn_documents (ig_snapshot s)"
    and "distinct (map fst (sn_documents new))" and "\<forall>(collection, docs) \<in> set (sn_documents new). distinct (doc_ids docs)"
    and "map ps_id (sn_peers new) = map ps_id (sn_peers (ig_snapshot s))" and "sn_topology new = sn_topology (ig_snapshot s)"
  shows "ig_cdc s' = c \<and> cs_calls c = cs_calls (ig_cdc s) \<and> ig_sent s' = ig_sent s"
proof -
  from refresh_once_Inr [OF assms(2)] assms(3) have new: "ig_snapshot s' = new"
    and sent: "ig_sent s' = ig_sent s @ emit_diffs O' (ig_snapshot s) new"
    and pub: "ig_cdc s' = (case rb_cdc_engine B of None \<Rightarrow> c
       | Some G \<Rightarrow> publish_events N G (changed_events Z (rb_mapping B) now (sn_documents (ig_snapshot s))
           (wk_collections O' (sn_documents new))) c)"
    by (metis Pair_inject sum.inject(2))+
  have "mset (changed_events Z (rb_mapping B) now (sn_documents new) (wk_collections O' (sn_documents new))) = {#}"
    unfolding mset_changed_events [OF hash_walks.collections [OF assms(1)]]
    using no_changes [OF assms(5,6)] by simp
  with pub assms(4) have "ig_cdc s' = c" by (simp split: option.splits)
  moreover have "emit_diffs O' (ig_snapshot s) new = []"
    by (rule no_diffs) (use assms in simp_all)
  ultimately show ?thesis using sent on_net_frame [OF assms(3)] by simp
qed

section \<open>A failed poll\<close>

text \<open>
  C29: a failed poll keeps the last good data. When the node, topology or peer request fails, nothing is
  published, subscribers are told nothing, the store is untouched, and the API still sees the peers and
  documents of the last successful poll; the broker is reported as not ready, with the error.
\<close>

theorem ingest_failed_poll:
  assumes "refresh_once Z O' N H B now s = (Inl e, s1)" and "s' = poll Z O' N H B now s"
  shows "broker_view (ig_snapshot s') = broker_view (ig_snapshot s) \<and> ig_sent s' = ig_sent s \<and>
    cs_store (ig_cdc s') = cs_store (ig_cdc s) \<and> cs_calls (ig_cdc s') = cs_calls (ig_cdc s) \<and>
    \<not> rr_ready (readiness show_u64 (ig_snapshot s')) \<and> sn_last_error (ig_snapshot s') = Some (bh_err_text H e) \<and>
    get_document (ig_snapshot s') = get_document (ig_snapshot s)"
proof (rule refresh_once_Inl [OF assms(1)])
  fix c
  assume c: "on_net (fetch_snapshot H (rb_mapping B) now) (ig_cdc s) = (Inl e, c)" "s1 = s\<lparr>ig_cdc := c\<rparr>"
  have s': "s' = record_error (bh_err_text H e) (s\<lparr>ig_cdc := c\<rparr>)"
    using assms c(2) by (simp add: poll_def)
  show ?thesis
    using on_net_frame [OF c(1)]
    by (auto simp: s' record_error_def broker_view_def broker_list_documents_def [abs_def] readiness_def not_ready_def
        get_document_def fun_eq_iff split: option.splits)
qed

section \<open>How far a remote broker reaches\<close>

context cdc_service
begin

lemma publish_events_due:
  assumes "invar (cs_store c)" and "\<forall>ev \<in> set evs. ev_org_id ev = k \<and> ev_app_id ev = c0"
  shows "cs_store (publish_events N G evs c) = cs_store c \<and>
    (\<exists>cs. cs_calls (publish_events N G evs c) = cs_calls c @ cs \<and> sent_due {(k, c0)} (\<alpha> (cs_store c)) cs)"
  using assms
proof (induction evs arbitrary: c)
  case (Cons ev evs)
  let ?c = "snd (publish N G ev c)"
  from publish_due [OF Cons.prems(1), of ev N] obtain ds where ds: "cs_store ?c = cs_store c"
    "cs_calls ?c = cs_calls c @ ds"
    "\<forall>x \<in> set ds. call_due (rows_of (a_sinks (\<alpha> (cs_store c))) (ev_org_id ev)) ev x"
    by (auto simp: only_calls_def)
  have "invar (cs_store ?c)" "\<forall>ev \<in> set evs. ev_org_id ev = k \<and> ev_app_id ev = c0"
    using Cons.prems ds(1) by simp_all
  from Cons.IH [OF this] obtain cs where cs: "cs_store (publish_events N G evs ?c) = cs_store c"
    "cs_calls (publish_events N G evs ?c) = cs_calls c @ ds @ cs" "sent_due {(k, c0)} (\<alpha> (cs_store c)) cs"
    unfolding ds(1,2) by auto
  have none: "sent_due {(k, c0)} (\<alpha> (cs_store c)) []" by (simp add: sent_due_def)
  have here: "(ev_org_id ev, ev_app_id ev) \<in> {(k, c0)}" using Cons.prems(2) by simp
  have "sent_due {(k, c0)} (\<alpha> (cs_store c)) ([] @ ds)"
    by (rule sent_due_snoc [OF none here ds(3)])
  with cs have "sent_due {(k, c0)} (\<alpha> (cs_store c)) (ds @ cs)"
    by (auto simp: sent_due_def)
  with cs show ?case by auto
qed (auto simp: sent_due_def)

lemma poll_due:
  assumes inv: "invar (cs_store (ig_cdc s))" and G: "rb_cdc_engine B \<in> {None, Some G}"
    and k: "k = (mb_org_id (rb_mapping B), mb_app_id (rb_mapping B))"
  shows "cs_store (ig_cdc (poll Z O' N H B now s)) = cs_store (ig_cdc s) \<and>
    (\<exists>cs. cs_calls (ig_cdc (poll Z O' N H B now s)) = cs_calls (ig_cdc s) @ cs \<and>
      sent_due {k} (\<alpha> (cs_store (ig_cdc s))) cs)"
proof (cases "refresh_once Z O' N H B now s")
  case (Pair r s1)
  show ?thesis
  proof (cases r)
    case (Inl e)
    with Pair have "refresh_once Z O' N H B now s = (Inl e, s1)" by simp
    from refresh_once_Inl [OF this] obtain c where
      c: "on_net (fetch_snapshot H (rb_mapping B) now) (ig_cdc s) = (Inl e, c)" "s1 = s\<lparr>ig_cdc := c\<rparr>" .
    from on_net_frame [OF c(1)] c(2) Pair Inl show ?thesis
      by (auto simp: poll_def record_error_def sent_due_def)
  next
    case (Inr u)
    with Pair have run: "refresh_once Z O' N H B now s = (Inr u, s1)" by simp
    let ?evs = "changed_events Z (rb_mapping B) now (sn_documents (ig_snapshot s))
       (wk_collections O' (sn_documents (ig_snapshot s1)))"
    from refresh_once_Inr [OF run] obtain c where
      c: "on_net (fetch_snapshot H (rb_mapping B) now) (ig_cdc s) = (Inr (ig_snapshot s1), c)"
      "ig_cdc s1 = (case rb_cdc_engine B of None \<Rightarrow> c | Some G \<Rightarrow> publish_events N G ?evs c)" .
    have "invar (cs_store c)" using inv on_net_frame [OF c(1)] by simp
    moreover have "\<forall>ev \<in> set ?evs. ev_org_id ev = mb_org_id (rb_mapping B) \<and> ev_app_id ev = mb_app_id (rb_mapping B)"
      using ev_ids_changed by blast
    ultimately have "cs_store (publish_events N G ?evs c) = cs_store (ig_cdc s) \<and>
      (\<exists>cs. cs_calls (publish_events N G ?evs c) = cs_calls (ig_cdc s) @ cs \<and> sent_due {k} (\<alpha> (cs_store (ig_cdc s))) cs)"
      unfolding k on_net_frame [OF c(1), symmetric] by (rule publish_events_due)
    with c on_net_frame [OF c(1)] run G show ?thesis
      by (auto simp: poll_def sent_due_def)
  qed
qed

lemma refresh_loop_due:
  assumes "invar (cs_store (ig_cdc s))" and "rb_cdc_engine B \<in> {None, Some G}"
    and "k = (mb_org_id (rb_mapping B), mb_app_id (rb_mapping B))"
  shows "cs_store (ig_cdc (refresh_loop Z O' N H B ticks s)) = cs_store (ig_cdc s) \<and>
    (\<exists>cs. cs_calls (ig_cdc (refresh_loop Z O' N H B ticks s)) = cs_calls (ig_cdc s) @ cs \<and>
      sent_due {k} (\<alpha> (cs_store (ig_cdc s))) cs)"
  using assms(1)
proof (induction ticks arbitrary: s)
  case (Cons now ticks)
  let ?s = "poll Z O' N H B now s"
  from poll_due [OF Cons.prems assms(2,3)] obtain cs where cs: "cs_store (ig_cdc ?s) = cs_store (ig_cdc s)"
    "cs_calls (ig_cdc ?s) = cs_calls (ig_cdc s) @ cs" "sent_due {k} (\<alpha> (cs_store (ig_cdc s))) cs"
    by blast
  with Cons.IH [of ?s] Cons.prems obtain ds where
    "cs_store (ig_cdc (refresh_loop Z O' N H B ticks ?s)) = cs_store (ig_cdc s)"
    "cs_calls (ig_cdc (refresh_loop Z O' N H B ticks ?s)) = cs_calls (ig_cdc s) @ cs @ ds"
    "sent_due {k} (\<alpha> (cs_store (ig_cdc s))) ds"
    by auto
  moreover from this(3) cs(3) have "sent_due {k} (\<alpha> (cs_store (ig_cdc s))) (cs @ ds)"
    by (auto simp: sent_due_def)
  ultimately show ?case by auto
qed (auto simp: sent_due_def)

end

text \<open>
  C17: a remote broker is confined to its mapping. Whatever it answers to any number of polls, the store is
  not changed, and everything sent is due to an event of the mapping's own formation and goes to an enabled
  sink stored for the mapping's organization.
\<close>

theorem ingest_confined:
  assumes "redb_inv S E V X (cs_store (ig_cdc s))"
    and "rb_cdc_engine B \<in> {None, Some (redb_engine S E P en fn fw ns)}"
    and "s' = refresh_loop Z O' N H B ticks s"
  shows "cs_store (ig_cdc s') = cs_store (ig_cdc s) \<and>
    (\<exists>cs. cs_calls (ig_cdc s') = cs_calls (ig_cdc s) @ cs \<and>
      sent_due {(mb_org_id (rb_mapping B), mb_app_id (rb_mapping B))} (redb_abs S (V (cs_store (ig_cdc s)))) cs)"
  unfolding assms(3) by (rule cdc.refresh_loop_due [OF assms(1,2) refl])

section \<open>Examples\<close>

text \<open>A broker with one marker and no peers, polled for the first time, and one that does not answer.\<close>

definition ref_broker_http :: "nat \<Rightarrow> (nat, unit, unit) broker_http" where
  "ref_broker_http status =
     \<lparr>bh_get = (\<lambda>url n. (Inr (status, ()), n)),
      bh_node = (\<lambda>_. Inr \<lparr>ni_node_id = ''n1'', ni_uptime_secs = 5, ni_version = ''1''\<rparr>),
      bh_topology = (\<lambda>_. Inr \<lparr>tp_peer_count = 0, tp_role = ''leader'', tp_hierarchy_level = 0\<rparr>),
      bh_ready = (\<lambda>_. Inr \<lparr>rr_ready = True, rr_node_id = ''n1'', rr_checks = []\<rparr>),
      bh_peers = (\<lambda>_. Inr []), bh_documents = (\<lambda>_. Inr [JObject [(''_id'', JString ''m1'')]]),
      bh_err_text = (\<lambda>_. ''error'')\<rparr>"

definition ref_broker :: "(mem_db, unit) remote_broker" where
  "ref_broker =
     \<lparr>rb_mapping = \<lparr>mb_org_id = ''acme'', mb_app_id = ''ops'', mb_base_url = ''http://b'',
        mb_collections = [''markers'']\<rparr>,
      rb_cdc_engine = Some ref_engine\<rparr>"

definition ref_walks :: "unit walks" where
  "ref_walks = \<lparr>wk_collections = rev, wk_ids = rev\<rparr>"

interpretation ref_walks: hash_walks ref_walks
  by unfold_locales (simp_all add: ref_walks_def)

definition ref_ingest :: "(mem_db, nat, unit) ingest_state" where
  "ref_ingest = \<lparr>ig_cdc = ref_state, ig_snapshot = new_snapshot ''acme:ops'', ig_sent = []\<rparr>"

definition polled_snapshot :: "unit snapshot" where
  "polled_snapshot =
     \<lparr>sn_node_info = \<lparr>ni_node_id = ''n1'', ni_uptime_secs = 5, ni_version = ''1''\<rparr>,
      sn_topology = \<lparr>tp_peer_count = 0, tp_role = ''leader'', tp_hierarchy_level = 0\<rparr>,
      sn_readiness = \<lparr>rr_ready = True, rr_node_id = ''n1'', rr_checks = []\<rparr>, sn_peers = [],
      sn_documents = [(''markers'', [JObject [(''_id'', JString ''m1'')]])],
      sn_last_sync_ms = Some 7, sn_last_error = None\<rparr>"

lemmas ingest_run =
  refresh_once_def fetch_snapshot_def get_json_def get_readiness_def on_net_def op_defs ref_broker_http_def
  ref_broker_def is_error_status_def polled_snapshot_def Let_def

lemma ref_fetch:
  "on_net (fetch_snapshot (ref_broker_http 200) (rb_mapping ref_broker) 7) c = (Inr polled_snapshot, c)"
  by (simp add: ingest_run)

lemma ref_refresh: "fst (refresh_once ref_hashing ref_walks flaky_net (ref_broker_http 200) ref_broker 7 s) = Inr ()"
  by (simp add: refresh_once_def ref_fetch Let_def)

theorem ingest_publishes_changes_witness:
  "\<exists>s' c evs. refresh_once ref_hashing ref_walks flaky_net (ref_broker_http 200) ref_broker 7 ref_ingest = (Inr (), s') \<and>
     ig_cdc s' = publish_events flaky_net ref_engine evs c \<and> map ev_document_id evs = [''markers/m1'']"
proof -
  obtain s' where run: "refresh_once ref_hashing ref_walks flaky_net (ref_broker_http 200) ref_broker 7 ref_ingest =
      (Inr (), s')"
    using ref_refresh [of ref_ingest] by (metis prod.collapse)
  have "rb_cdc_engine ref_broker = Some ref_engine" by (simp add: ref_broker_def)
  from ingest_publishes_changes [OF ref_walks.hash_walks_axioms this run]
  obtain c evs where c: "on_net (fetch_snapshot (ref_broker_http 200) (rb_mapping ref_broker) 7) (ig_cdc ref_ingest) =
      (Inr (ig_snapshot s'), c)" "ig_cdc s' = publish_events flaky_net ref_engine evs c"
    "mset evs = mset (changed_events ref_hashing (rb_mapping ref_broker) 7 (sn_documents (ig_snapshot ref_ingest))
       (sn_documents (ig_snapshot s')))" by blast
  from c(1) have "ig_snapshot s' = polled_snapshot" by (simp add: ref_fetch)
  with c(3) have "mset (map ev_document_id evs) = {#''markers/m1''#}"
    by (simp add: changed_events_def changed_in_def List.map_filter_simps polled_snapshot_def ref_ingest_def
        new_snapshot_def document_id_def old_hashes_def hashes_by_id_def doc_event_def)
  then have "map ev_document_id evs = [''markers/m1'']" by (metis mset.simps mset_single_iff_right)
  with run c(2) show ?thesis by (intro exI conjI)
qed

theorem ingest_quiet_witness:
  "\<exists>s'. refresh_once ref_hashing ref_walks flaky_net (ref_broker_http 200) ref_broker 7
       (ref_ingest\<lparr>ig_snapshot := polled_snapshot\<rparr>) = (Inr (), s') \<and> ig_cdc s' = ref_state \<and> ig_sent s' = []"
proof -
  let ?s = "ref_ingest\<lparr>ig_snapshot := polled_snapshot\<rparr>"
  obtain s' where run: "refresh_once ref_hashing ref_walks flaky_net (ref_broker_http 200) ref_broker 7 ?s = (Inr (), s')"
    using ref_refresh [of ?s] by (metis prod.collapse)
  from ingest_quiet [OF ref_walks.hash_walks_axioms run ref_fetch]
  have "ig_cdc s' = ig_cdc ?s \<and> ig_sent s' = ig_sent ?s"
    by (simp add: polled_snapshot_def doc_ids_def document_id_def List.map_filter_simps)
  with run show ?thesis by (auto simp: ref_ingest_def)
qed

theorem ingest_failed_poll_witness:
  "broker_view (ig_snapshot (poll ref_hashing ref_walks flaky_net (ref_broker_http 503) ref_broker 9
     (ref_ingest\<lparr>ig_snapshot := polled_snapshot\<rparr>))) = broker_view polled_snapshot"
proof -
  let ?s = "ref_ingest\<lparr>ig_snapshot := polled_snapshot\<rparr>"
  have run: "refresh_once ref_hashing ref_walks flaky_net (ref_broker_http 503) ref_broker 9 ?s = (Inl (HttpStatus 503), ?s)"
    by (simp add: ingest_run ref_ingest_def)
  from ingest_failed_poll [OF run refl] show ?thesis by simp
qed

theorem ingest_confined_witness:
  "cs_store (ig_cdc (refresh_loop ref_hashing ref_walks flaky_net (ref_broker_http 200) ref_broker [7, 8] ref_ingest)) = ref_db"
proof -
  have inv: "mem_inv (cs_store (ig_cdc ref_ingest))"
    by (simp add: ref_ingest_def ref_state_def ref_db_inv)
  have eng: "rb_cdc_engine ref_broker \<in> {None, Some ref_engine}" by (simp add: ref_broker_def)
  have "cs_store (ig_cdc ref_ingest) = ref_db" by (simp add: ref_ingest_def ref_state_def)
  with ingest_confined [OF inv eng refl, of ref_hashing ref_walks flaky_net "ref_broker_http 200" "[7, 8]"]
  show ?thesis by simp
qed

end
