(* ===== verification/Process.thy ===== *)
theory Process
  imports Cdc_Test Backend_Choice Cli Ingest_Properties
begin

text \<open>
  The process (\<open>src/main.rs\<close>, the outer router of \<open>src/api/mod.rs\<close>): from the environment to the command, the
  start of the server (store, tenant manager, change data capture, remote brokers, listener) and the server at
  work. After the start, requests and the polls of the remote brokers follow each other in any order; each is
  one step of the running gateway, and the API reads the snapshot a broker has at that moment.
\<close>

section \<open>Starting\<close>

definition tenant_manager_new ::
  "features \<Rightarrow> ('k, 'n) crypto_crates \<Rightarrow> ('f, 'x, 'w, 'p, 'v) storage_crates \<Rightarrow> gateway_config
     \<Rightarrow> (('f, 'p) stores, err, (('f, 'p) stores, 'n) tenant_manager) op" where
  "tenant_manager_new F C D config =
     bindE (storage_open D (cfg_storage config)) (\<lambda>store. readE (new_manager F C config store))"

definition with_key_provider ::
  "('f, 'x, 'w, 'p, 'v) storage_crates \<Rightarrow> gateway_config \<Rightarrow> 'n key_provider \<Rightarrow> bool
     \<Rightarrow> (('f, 'p) stores, err, (('f, 'p) stores, 'n) tenant_manager) op" where
  "with_key_provider D config key_provider encrypt_enabled =
     bindE (storage_open D (cfg_storage config)) (\<lambda>store.
     bindE (readE (be_list_orgs store)) (\<lambda>_. retE (with_backend store key_provider encrypt_enabled)))"

text \<open>
  What the process is built from. The gateway record carries the crates of the API; its manager, admin token and
  registry are filled in by the start. \<open>ServeDir\<close> answers for the files of the interface: it gets the directory,
  the file to fall back to, the method and the path.
\<close>

record ('k, 'g, 'j, 'n, 'f, 'x, 'w, 'p, 'v, 'o, 'b) process_crates =
  pc_features :: features
  pc_feature_nats :: bool
  pc_feature_webhook :: bool
  pc_feature_loadtest :: bool
  pc_feature_mesh_broker_client :: bool
  pc_storage :: "('f, 'x, 'w, 'p, 'v) storage_crates"
  pc_crypto :: "('k, 'n) crypto_crates"
  pc_net :: "('o, 'j) net"
  pc_hashing :: "'j hashing"
  pc_walks :: "'j walks"
  pc_broker_http :: "('o, 'b, 'j) broker_http"
  pc_gateway :: "('k, 'g, 'j, ('f, 'p) stores, 'n) gateway"
  pc_serve_dir :: "string \<Rightarrow> string \<Rightarrow> http_method \<Rightarrow> string list \<Rightarrow> nat \<times> bytes"
  pc_listen :: "string \<Rightarrow> err + unit"

fun register_brokers ::
  "mesh_broker_mapping list \<Rightarrow> ('s, 'n, 'j) mesh_ingest_manager
     \<Rightarrow> (('s, 'n) remote_broker \<times> 'j snapshot) list \<times> ('s, 'n, 'j) mesh_ingest_manager" where
  "register_brokers [] m = ([], m)"
| "register_brokers (mapping # mappings) m =
     (case register_remote_broker mapping m of
        (B, sn, m1) \<Rightarrow> (case register_brokers mappings m1 of (xs, m2) \<Rightarrow> ((B, sn) # xs, m2)))"

definition start_brokers ::
  "bool \<Rightarrow> gateway_config \<Rightarrow> ('s, 'n) cdc_engine
     \<Rightarrow> (('s, 'n) remote_broker \<times> 'j snapshot) list \<times> 'j mesh_state_registry" where
  "start_brokers mesh_broker_client config cdc_engine =
     (if mesh_broker_client then
        let registry = Map.empty in
        if cfg_mesh_brokers config \<noteq> [] then
          let manager = with_cdc cdc_engine (new_ingest_manager registry (cfg_mesh_poll_interval_ms config)) in
          (case register_brokers (cfg_mesh_brokers config) manager of (xs, manager') \<Rightarrow> (xs, im_registry manager'))
        else ([], registry)
      else ([], Map.empty))"

record ('k, 'g, 'j, 's, 'n) service =
  sv_gateway :: "('k, 'g, 'j, 's, 'n) gateway"
  sv_engine :: "('s, 'n) cdc_engine"
  sv_ui_dir :: "string option"
  sv_brokers :: "('s, 'n) remote_broker list"

definition serve ::
  "('k, 'g, 'j, 'n, 'f, 'x, 'w, 'p, 'v, 'o, 'b) process_crates \<Rightarrow> gateway_config
     \<Rightarrow> (('f, 'p) stores, err, ('k, 'g, 'j, ('f, 'p) stores, 'n) service \<times> 'j snapshot list) op" where
  "serve Q config =
     bindE (tenant_manager_new (pc_features Q) (pc_crypto Q) (pc_storage Q) config) (\<lambda>tenant_mgr.
     bindE (liftE (new_engine (pc_net Q) (pc_feature_nats Q) (pc_feature_webhook Q) (cfg_nats_url (cfg_cdc config))
              tenant_mgr)) (\<lambda>cdc_engine.
       case start_brokers (pc_feature_mesh_broker_client Q) config cdc_engine of
         (brokers, mesh_registry) \<Rightarrow>
           seqE (liftE (pc_listen Q (cfg_bind_addr config)))
             (retE (\<lparr>sv_gateway = (pc_gateway Q)\<lparr>gw_tenant_mgr := tenant_mgr, gw_admin_token := cfg_admin_token config,
                       gw_mesh := mesh_registry\<rparr>,
                     sv_engine = cdc_engine, sv_ui_dir = cfg_ui_dir config, sv_brokers = map fst brokers\<rparr>,
                    map snd brokers))))"

section \<open>The running gateway\<close>

record ('s, 'o, 'j) running =
  rn_cdc :: "('s, 'o) cdc_state"
  rn_brokers :: "('j snapshot \<times> mesh_event list) list"

text \<open>The registry holds handles; what a handle answers is in the snapshot its broker has now.\<close>

definition live_mesh :: "(('s, 'n) remote_broker \<times> 'j snapshot) list \<Rightarrow> 'j mesh_state_registry" where
  "live_mesh bs =
     foldl (\<lambda>reg (B, sn). register (mb_org_id (rb_mapping B)) (mb_app_id (rb_mapping B)) (broker_view sn) reg) Map.empty bs"

record 'j gateway_request = http_request +
  gq_payload :: "'j test_event_payload option"

record 'n request_env =
  re_api :: "'n api_env"
  re_enroll :: "'n enroll_env"
  re_test :: cdc_test_env

type_synonym ('s, 'o) gateway_handler = "(('s, 'o) cdc_state, api_error, nat \<times> (reply + bytes)) op"

definition replying :: "(('s, 'o) cdc_state) handler \<Rightarrow> ('s, 'o) gateway_handler" where
  "replying m = mapE (\<lambda>(st, r). (st, Inl r)) m"

definition ui_path :: "string option \<Rightarrow> string list \<Rightarrow> (string \<times> string list) option" where
  "ui_path ui_dir path =
     (case (ui_dir, path) of (Some dir, x # rest) \<Rightarrow> if x = ''_'' then Some (dir, rest) else None | _ \<Rightarrow> None)"

definition router_with_mesh ::
  "('k, 'g, 'j, 'n, 'f, 'x, 'w, 'p, 'v, 'o, 'b) process_crates \<Rightarrow> ('k, 'g, 'j, ('f, 'p) stores, 'n) service
     \<Rightarrow> 'j mesh_state_registry \<Rightarrow> 'n request_env \<Rightarrow> 'j gateway_request \<Rightarrow> (('f, 'p) stores, 'o) gateway_handler" where
  "router_with_mesh Q sv mesh v rq =
     (case (if pc_feature_loadtest Q then cdc_test_router (hq_path rq) else None) of
        Some org_id \<Rightarrow>
          replying
            (if hq_method rq = POST then
               (case gq_payload rq of
                  Some payload \<Rightarrow>
                    publish_test_event (mc_hex_encode (gw_mesh_crates (sv_gateway sv))) (pc_net Q)
                      (gw_tenant_mgr (sv_gateway sv)) (sv_engine sv) (re_test v) org_id payload
                | None \<Rightarrow> rejected (hq_body rq))
             else method_not_allowed)
      | None \<Rightarrow>
     (case ui_path (sv_ui_dir sv) (hq_path rq) of
        Some (dir, rest) \<Rightarrow>
          retE (case pc_serve_dir Q dir (dir @ ''/index.html'') (hq_method rq) rest of (st, b) \<Rightarrow> (st, Inr b))
      | None \<Rightarrow>
          replying (on_store (app ((sv_gateway sv)\<lparr>gw_mesh := mesh\<rparr>) (re_api v) (re_enroll v)
            (http_request.truncate rq)))))"

datatype ('n, 'j) activity = Request "'n request_env" "'j gateway_request" | Poll nat u64

definition poll_broker ::
  "('k, 'g, 'j, 'n, 'f, 'x, 'w, 'p, 'v, 'o, 'b) process_crates \<Rightarrow> ('k, 'g, 'j, ('f, 'p) stores, 'n) service \<Rightarrow> nat \<Rightarrow> u64
     \<Rightarrow> (('f, 'p) stores, 'o, 'j) running \<Rightarrow> (('f, 'p) stores, 'o, 'j) running" where
  "poll_broker Q sv i now st =
     (if i < length (sv_brokers sv) \<and> i < length (rn_brokers st) then
        let s = poll (pc_hashing Q) (pc_walks Q) (pc_net Q) (pc_broker_http Q) (sv_brokers sv ! i) now
              \<lparr>ig_cdc = rn_cdc st, ig_snapshot = fst (rn_brokers st ! i), ig_sent = snd (rn_brokers st ! i)\<rparr>
        in \<lparr>rn_cdc = ig_cdc s, rn_brokers = (rn_brokers st)[i := (ig_snapshot s, ig_sent s)]\<rparr>
      else st)"

fun gateway_step ::
  "('k, 'g, 'j, 'n, 'f, 'x, 'w, 'p, 'v, 'o, 'b) process_crates \<Rightarrow> ('k, 'g, 'j, ('f, 'p) stores, 'n) service
     \<Rightarrow> ('n, 'j) activity \<Rightarrow> (('f, 'p) stores, 'o, 'j) running \<Rightarrow> (('f, 'p) stores, 'o, 'j) running" where
  "gateway_step Q sv (Request v rq) st =
     st\<lparr>rn_cdc := snd (router_with_mesh Q sv (live_mesh (zip (sv_brokers sv) (map fst (rn_brokers st)))) v rq
          (rn_cdc st))\<rparr>"
| "gateway_step Q sv (Poll i now) st = poll_broker Q sv i now st"

fun run_gateway ::
  "('k, 'g, 'j, 'n, 'f, 'x, 'w, 'p, 'v, 'o, 'b) process_crates \<Rightarrow> ('k, 'g, 'j, ('f, 'p) stores, 'n) service
     \<Rightarrow> ('n, 'j) activity list \<Rightarrow> (('f, 'p) stores, 'o, 'j) running \<Rightarrow> (('f, 'p) stores, 'o, 'j) running" where
  "run_gateway Q sv [] st = st"
| "run_gateway Q sv (x # xs) st = run_gateway Q sv xs (gateway_step Q sv x st)"

definition started ::
  "'s \<Rightarrow> 'o \<Rightarrow> 'j snapshot list \<Rightarrow> ('s, 'o, 'j) running" where
  "started t w sns =
     \<lparr>rn_cdc = \<lparr>cs_store = t, cs_net = w, cs_calls = []\<rparr>, rn_brokers = map (\<lambda>sn. (sn, [])) sns\<rparr>"

section \<open>What the start sets up\<close>

lemma register_brokers_live:
  assumes "register_brokers ms m = (xs, m')"
  shows "im_registry m' =
      foldl (\<lambda>reg (B, sn). register (mb_org_id (rb_mapping B)) (mb_app_id (rb_mapping B)) (broker_view sn) reg) (im_registry m) xs \<and>
    map (\<lambda>x. rb_mapping (fst x)) xs = ms \<and> (\<forall>x \<in> set xs. rb_cdc_engine (fst x) = im_cdc_engine m)"
  using assms
proof (induction ms arbitrary: m xs)
  case (Cons b ms)
  then show ?case
    by (fastforce simp: register_remote_broker_def new_remote_broker_def split: prod.splits)
qed simp

lemma start_brokers_live:
  assumes "start_brokers fm config G = (bs, reg)"
  shows "reg = live_mesh bs" "\<forall>x \<in> set bs. rb_cdc_engine (fst x) = Some G"
    "map (\<lambda>x. rb_mapping (fst x)) bs = (if fm then cfg_mesh_brokers config else [])"
  using assms
  by (auto simp: start_brokers_def live_mesh_def with_cdc_def new_ingest_manager_def Let_def
      dest!: register_brokers_live split: if_splits prod.splits)

lemma tenant_manager_new_Inr:
  assumes "tenant_manager_new F C D config t = (Inr M, t')"
  obtains B P en where "storage_open D (cfg_storage config) t = (Inr B, t')" "M = with_backend B P en"
  using assms by (auto simp: tenant_manager_new_def new_manager_def op_iffs result_iffs)

lemma new_engine_manager: "new_engine N fn fw url M = Inr G \<Longrightarrow> eng_tenant_mgr G = M"
  by (auto simp: new_engine_def result_iffs)

lemma serve_cases:
  assumes "serve Q config t = (Inr (sv, sns), t')"
  obtains B P en where "storage_open (pc_storage Q) (cfg_storage config) t = (Inr B, t')"
    "gw_tenant_mgr (sv_gateway sv) = with_backend B P en"
    "eng_tenant_mgr (sv_engine sv) = gw_tenant_mgr (sv_gateway sv)"
    "gw_mesh_crates (sv_gateway sv) = gw_mesh_crates (pc_gateway Q)"
    "gw_admin_token (sv_gateway sv) = cfg_admin_token config" "sv_ui_dir sv = cfg_ui_dir config"
    "gw_mesh (sv_gateway sv) = live_mesh (zip (sv_brokers sv) sns)" "length sns = length (sv_brokers sv)"
    "\<forall>B \<in> set (sv_brokers sv). rb_cdc_engine B = Some (sv_engine sv)"
    "map rb_mapping (sv_brokers sv) = (if pc_feature_mesh_broker_client Q then cfg_mesh_brokers config else [])"
proof -
  from assms obtain M G where run: "tenant_manager_new (pc_features Q) (pc_crypto Q) (pc_storage Q) config t = (Inr M, t')"
    and G: "new_engine (pc_net Q) (pc_feature_nats Q) (pc_feature_webhook Q) (cfg_nats_url (cfg_cdc config)) M = Inr G"
    and rest: "case start_brokers (pc_feature_mesh_broker_client Q) config G of (bs, reg) \<Rightarrow>
      sv = \<lparr>sv_gateway = (pc_gateway Q)\<lparr>gw_tenant_mgr := M, gw_admin_token := cfg_admin_token config, gw_mesh := reg\<rparr>,
        sv_engine = G, sv_ui_dir = cfg_ui_dir config, sv_brokers = map fst bs\<rparr> \<and> sns = map snd bs"
    by (auto simp: serve_def op_iffs case_prod_unfold)
  from rest obtain bs reg where bs: "start_brokers (pc_feature_mesh_broker_client Q) config G = (bs, reg)"
    and sv: "sv = \<lparr>sv_gateway = (pc_gateway Q)\<lparr>gw_tenant_mgr := M, gw_admin_token := cfg_admin_token config, gw_mesh := reg\<rparr>,
      sv_engine = G, sv_ui_dir = cfg_ui_dir config, sv_brokers = map fst bs\<rparr>" "sns = map snd bs"
    by (auto simp: case_prod_unfold prod_eq_iff)
  obtain B P en where "storage_open (pc_storage Q) (cfg_storage config) t = (Inr B, t')" "M = with_backend B P en"
    by (rule tenant_manager_new_Inr [OF run])
  with that [of B P en] start_brokers_live [OF bs] new_engine_manager [OF G] sv show ?thesis
    by (simp add: zip_map_fst_snd comp_def)
qed

section \<open>What an activity can touch\<close>

definition gateway_target :: "'j gateway_request \<Rightarrow> string option" where
  "gateway_target rq =
     (case cdc_test_router (hq_path rq) of Some k \<Rightarrow> Some k | None \<Rightarrow> request_target (http_request.truncate rq))"

fun activity_target :: "('k, 'g, 'j, 's, 'n) service \<Rightarrow> ('n, 'j) activity \<Rightarrow> string option" where
  "activity_target sv (Request v rq) = gateway_target rq"
| "activity_target sv (Poll i now) =
     (if i < length (sv_brokers sv) then Some (mb_org_id (rb_mapping (sv_brokers sv ! i))) else None)"

fun activity_ok :: "('n, 'j) activity \<Rightarrow> bool" where
  "activity_ok (Request v rq) = http_ok (http_request.truncate rq)"
| "activity_ok (Poll i now) = True"

text \<open>A webhook call in the name of an organization.\<close>

fun in_name_of :: "string \<Rightarrow> call \<Rightarrow> bool" where
  "in_name_of j (Posted rq) = (rq_org_id rq = j)"
| "in_name_of j _ = False"

lemma call_due_name: "call_due xs ev c \<Longrightarrow> ev_org_id ev \<noteq> j \<Longrightarrow> \<not> in_name_of j c"
  by (cases c) (auto simp: call_due_def)

lemma replying_state: "snd (replying m s) = snd (m s)"
  by (simp add: replying_def mapE_def split: prod.split)

lemma on_store_state:
  "cs_store (snd (on_store f s)) = snd (f (cs_store s))" "cs_calls (snd (on_store f s)) = cs_calls s"
  by (simp_all add: on_store_def split: prod.split)

lemma on_store_unchanged: "snd (f (cs_store s)) = cs_store s \<Longrightarrow> snd (on_store f s) = s"
  by (cases s) (auto simp: on_store_def split: prod.split)

locale running_gateway = api_service M \<alpha> invar + cdc_service M \<alpha> invar G
  for M :: "(('f, 'p) stores, 'n) tenant_manager" and \<alpha> invar and G
begin

text \<open>A step keeps the invariant, the data of \<open>j\<close>, and makes no call in its name.\<close>

definition spares :: "string \<Rightarrow> (('f, 'p) stores, 'o) cdc_state \<Rightarrow> (('f, 'p) stores, 'o) cdc_state \<Rightarrow> bool" where
  "spares j s s' \<longleftrightarrow> invar (cs_store s') \<and> org_view j (\<alpha> (cs_store s')) = org_view j (\<alpha> (cs_store s)) \<and>
     (\<exists>cs. cs_calls s' = cs_calls s @ cs \<and> (\<forall>c \<in> set cs. \<not> in_name_of j c))"

lemma spares_refl: "invar (cs_store s) \<Longrightarrow> spares j s s"
  by (simp add: spares_def)

lemma spares_trans: "spares j s t \<Longrightarrow> spares j t u \<Longrightarrow> spares j s u"
  by (fastforce simp: spares_def)

lemma spares_only:
  assumes "invar (cs_store s)" and "only_calls (call_due xs ev) s s'" and "ev_org_id ev \<noteq> j"
  shows "spares j s s'"
  using assms call_due_name by (fastforce simp: spares_def only_calls_def)

lemma spares_app:
  assumes W: "gw_tenant_mgr W = M" "mesh_crates_ok (gw_mesh_crates W)" and rq: "http_ok rq" "request_target rq \<noteq> Some j"
    and inv: "invar (cs_store s)"
  shows "spares j s (snd (on_store (app W v ve rq) s))"
proof -
  obtain r t where run: "app W v ve rq (cs_store s) = (r, t)" by fastforce
  with app_calm [OF W rq(1), of v ve] inv have "invar t" "may_touch (request_target rq) (\<alpha> (cs_store s)) (\<alpha> t)"
    unfolding calm_def by blast+
  moreover from this(2) rq(2) have "org_view j (\<alpha> t) = org_view j (\<alpha> (cs_store s))"
    by (auto simp: may_touch_def others_same_def split: option.splits)
  ultimately show ?thesis using run by (simp add: spares_def on_store_state)
qed

lemma spares_request:
  assumes sv: "gw_tenant_mgr (sv_gateway sv) = M" "mesh_crates_ok (gw_mesh_crates (sv_gateway sv))" "sv_engine sv = G"
    and rq: "http_ok (http_request.truncate rq)" "gateway_target rq \<noteq> Some j" and inv: "invar (cs_store s)"
  shows "spares j s (snd (router_with_mesh Q sv mesh v rq s))"
proof (cases "if pc_feature_loadtest Q then cdc_test_router (hq_path rq) else None")
  case (Some k)
  then have "cdc_test_router (hq_path rq) = Some k" by (simp split: if_splits)
  then have k: "k \<noteq> j" using rq(2) by (simp add: gateway_target_def)
  have p: "spares j s (snd (publish_test_event hex (pc_net Q) M G ve k payload s))" for hex ve payload
    using publish_test_event_due [OF inv, of hex "pc_net Q" ve k payload] k
    by (intro spares_only [OF inv, where ev = "test_event hex ve k payload"]) (auto simp: test_event_def prod_eq_iff)
  with Some sv show ?thesis
    by (auto simp: router_with_mesh_def replying_state rejected_def method_not_allowed_def failE_def
        spares_refl inv split: option.splits body.splits)
next
  case None
  show ?thesis
  proof (cases "ui_path (sv_ui_dir sv) (hq_path rq)")
    case (Some x)
    with None inv show ?thesis by (simp add: router_with_mesh_def retE_def spares_refl split: prod.split)
  next
    case no_ui: None
    have "request_target (http_request.truncate rq) \<noteq> Some j"
    proof (cases "cdc_test_router (hq_path rq)")
      case (Some k)
      from cdc_test_apart(1) [OF Some] show ?thesis
        by (simp add: request_target_def http_request.truncate_def)
    qed (use rq(2) in \<open>simp add: gateway_target_def\<close>)
    with None no_ui sv rq(1) inv show ?thesis
      by (simp add: router_with_mesh_def replying_state spares_app)
  qed
qed

end

context running_gateway
begin

lemma spares_poll:
  assumes sv: "\<forall>B \<in> set (sv_brokers sv). rb_cdc_engine B = Some G"
    and j: "activity_target sv (Poll i now) \<noteq> Some j" and inv: "invar (cs_store (rn_cdc st))"
  shows "spares j (rn_cdc st) (rn_cdc (poll_broker Q sv i now st))"
proof (cases "i < length (sv_brokers sv) \<and> i < length (rn_brokers st)")
  case True
  let ?B = "sv_brokers sv ! i"
  let ?s = "\<lparr>ig_cdc = rn_cdc st, ig_snapshot = fst (rn_brokers st ! i), ig_sent = snd (rn_brokers st ! i)\<rparr>"
  let ?s' = "poll (pc_hashing Q) (pc_walks Q) (pc_net Q) (pc_broker_http Q) ?B now ?s"
  have B: "rb_cdc_engine ?B \<in> {None, Some G}" using sv True by simp
  have org: "mb_org_id (rb_mapping ?B) \<noteq> j" using j True by simp
  have "invar (cs_store (ig_cdc ?s))" using inv by simp
  from poll_due [OF this B refl, of "pc_hashing Q" "pc_walks Q" "pc_net Q" "pc_broker_http Q" now]
  obtain cs where cs: "cs_store (ig_cdc ?s') = cs_store (rn_cdc st)" "cs_calls (ig_cdc ?s') = cs_calls (rn_cdc st) @ cs"
    "sent_due {(mb_org_id (rb_mapping ?B), mb_app_id (rb_mapping ?B))} (\<alpha> (cs_store (rn_cdc st))) cs"
    by auto
  from cs(3) org have "\<forall>c \<in> set cs. \<not> in_name_of j c"
    using call_due_name by (fastforce simp: sent_due_def)
  with cs inv True show ?thesis by (simp add: poll_broker_def Let_def spares_def)
qed (use inv in \<open>auto simp: poll_broker_def spares_refl\<close>)

lemma spares_run:
  assumes sv: "gw_tenant_mgr (sv_gateway sv) = M" "mesh_crates_ok (gw_mesh_crates (sv_gateway sv))" "sv_engine sv = G"
      "\<forall>B \<in> set (sv_brokers sv). rb_cdc_engine B = Some G"
    and xs: "\<forall>x \<in> set xs. activity_ok x \<and> activity_target sv x \<noteq> Some j" and inv: "invar (cs_store (rn_cdc st))"
  shows "spares j (rn_cdc st) (rn_cdc (run_gateway Q sv xs st))"
  using xs inv
proof (induction xs arbitrary: st)
  case (Cons x xs)
  have "spares j (rn_cdc st) (rn_cdc (gateway_step Q sv x st))"
    using Cons.prems sv by (cases x) (auto intro: spares_request spares_poll)
  moreover from this have "invar (cs_store (rn_cdc (gateway_step Q sv x st)))" by (simp add: spares_def)
  ultimately show ?case using Cons by (auto intro: spares_trans)
qed (simp add: spares_refl)

end

lemma running_gatewayI:
  fixes B :: "('f, 'p) stores backend"
  assumes "storage_contract B \<alpha> invar" and "eng_tenant_mgr G = with_backend B P en"
  shows "running_gateway (with_backend B P en) \<alpha> invar G"
  using assms
  by (simp add: running_gateway_def api_service_def enrollment_service_def tenant_service_def cdc_service_def
      cdc_service_axioms_def with_backend_def)

text \<open>The gateway on each of the two backends.\<close>

abbreviation opened_redb :: "'w serde \<Rightarrow> ('f, 'x, 'w) redb \<Rightarrow> ('f, 'p) stores backend" where
  "opened_redb S E \<equiv> backend_on st_redb (\<lambda>f t. t\<lparr>st_redb := f\<rparr>) (redb_backend S E)"

abbreviation opened_pg :: "'v serde \<Rightarrow> ('p, 'v) postgres \<Rightarrow> ('f, 'p) stores backend" where
  "opened_pg S E \<equiv> backend_on st_pg (\<lambda>p t. t\<lparr>st_pg := p\<rparr>) (postgres_backend S E)"

interpretation redb_process: running_gateway
  "with_backend (opened_redb S E) P en" "\<lambda>t. redb_abs S (V (st_redb t))" "\<lambda>t. redb_inv S E V X (st_redb t)"
  "\<lparr>eng_tenant_mgr = with_backend (opened_redb S E) P en, eng_feature_nats = fn, eng_feature_webhook = fw,
    eng_nats_sink = ns\<rparr>" for S E V X P en fn fw ns
  by (rule running_gatewayI [OF opened_redb_contract]) simp

interpretation pg_process: running_gateway
  "with_backend (opened_pg S E) P en" "\<lambda>t. pg_abs S (V (st_pg t))" "\<lambda>t. pg_inv S E V (st_pg t)"
  "\<lparr>eng_tenant_mgr = with_backend (opened_pg S E) P en, eng_feature_nats = fn, eng_feature_webhook = fw,
    eng_nats_sink = ns\<rparr>" for S E V P en fn fw ns
  by (rule running_gatewayI [OF opened_pg_contract]) simp

lemma serve_runs:
  assumes run: "serve Q config t = (Inr (sv, sns), t')" and ok: "storage_ok (pc_storage Q) V X VP (cfg_storage config) t"
  shows "running_gateway (gw_tenant_mgr (sv_gateway sv)) (stored (pc_storage Q) V VP (cfg_storage config))
      (storage_ok (pc_storage Q) V X VP (cfg_storage config)) (sv_engine sv)"
    and "storage_ok (pc_storage Q) V X VP (cfg_storage config) t'"
    and "stored (pc_storage Q) V VP (cfg_storage config) t' = stored (pc_storage Q) V VP (cfg_storage config) t"
proof -
  obtain B P en where B: "storage_open (pc_storage Q) (cfg_storage config) t = (Inr B, t')"
    "gw_tenant_mgr (sv_gateway sv) = with_backend B P en"
    "eng_tenant_mgr (sv_engine sv) = gw_tenant_mgr (sv_gateway sv)"
    by (rule serve_cases [OF run])
  note opened = storage_open_result [OF B(1) ok]
  from opened(2,3) show "storage_ok (pc_storage Q) V X VP (cfg_storage config) t'"
    "stored (pc_storage Q) V VP (cfg_storage config) t' = stored (pc_storage Q) V VP (cfg_storage config) t" .
  from running_gatewayI [OF opened(1), of "sv_engine sv" P en] B(2,3)
  show "running_gateway (gw_tenant_mgr (sv_gateway sv)) (stored (pc_storage Q) V VP (cfg_storage config))
      (storage_ok (pc_storage Q) V X VP (cfg_storage config)) (sv_engine sv)" by simp
qed

section \<open>The gateway from its start on\<close>


section \<open>The gateway of the examples\<close>

definition ref_process ::
  "(bytes, bytes, unit, unit, mem_db, mem_db, stored, stored tables, stored, nat, unit) process_crates" where
  "ref_process =
     \<lparr>pc_features = \<lparr>feat_aws_kms = False, feat_vault = False\<rparr>, pc_feature_nats = False, pc_feature_webhook = True,
      pc_feature_loadtest = True, pc_feature_mesh_broker_client = True, pc_storage = ref_crates_on_disk,
      pc_crypto = ref_crates, pc_net = flaky_net, pc_hashing = ref_hashing, pc_walks = ref_walks,
      pc_broker_http = ref_broker_http 200,
      pc_gateway = \<lparr>gw_mesh_crates = ref_mesh, gw_enroll_crates = ref_enroll_crates,
        gw_root_certificate = gw_root_certificate ref_gateway, gw_as_u64 = (\<lambda>_. None), gw_feature_oidc = True,
        gw_version = ''0.1'', gw_metrics = [],
        gw_tenant_mgr = with_backend (opened_redb mem_serde mem_engine) plaintext_provider False,
        gw_admin_token = None, gw_mesh = Map.empty\<rparr>,
      pc_serve_dir = (\<lambda>dir index m path. (200, [])), pc_listen = (\<lambda>_. Inr ())\<rparr>"

definition ref_process_config :: gateway_config where
  "ref_process_config = ref_config\<lparr>cfg_mesh_brokers := [rb_mapping ref_broker]\<rparr>"

definition ref_stores :: "(mem_db, stored tables) stores" where
  "ref_stores = \<lparr>st_redb = ref_db, st_pg = no_rows\<rparr>"

definition ref_gateway_request ::
  "http_method \<Rightarrow> string list \<Rightarrow> string option \<Rightarrow> unit test_event_payload option \<Rightarrow> unit gateway_request" where
  "ref_gateway_request m path auth payload =
     \<lparr>hq_method = m, hq_path = path, hq_authorization = auth,
      hq_query = \<lparr>aq_app_id = None, aq_limit = None\<rparr>, hq_body = NoBody, gq_payload = payload\<rparr>"

definition ref_payload :: "unit test_event_payload" where
  "ref_payload = \<lparr>te_app_id = ''ops'', te_document_id = ''d'', te_actor_id = None, te_patches = None\<rparr>"

definition ref_request_env :: "unit request_env" where
  "ref_request_env =
     \<lparr>re_api = ref_api_env, re_enroll = ref_enroll_env, re_test = \<lparr>ct_next_u64 = 258, ct_now = 5\<rparr>\<rparr>"

definition ref_activities :: "(unit, unit) activity list" where
  "ref_activities =
     [Poll 0 7,
      Request ref_request_env (ref_gateway_request POST [''orgs'', ''acme'', ''cdc'', ''test''] None (Some ref_payload)),
      Request ref_request_env (ref_gateway_request DELETE [''orgs'', ''acme''] (Some ''Bearer secret'') None),
      Poll 0 9]"

lemma ref_serve: "\<exists>sv sns. serve ref_process ref_process_config ref_stores = (Inr (sv, sns), ref_stores)"
  by (simp add: serve_def start_brokers_def tenant_manager_new_def new_manager_def new_engine_def mem_open backend_on_def
      build_key_provider_def ref_config_def ref_crates_def from_hex_def ref_process_def ref_process_config_def
      ref_stores_def flaky_net_def Redb.list_orgs_def mem_run ref_org_def with_cdc_def new_ingest_manager_def
      register_remote_broker_def new_remote_broker_def)

lemma ref_storage_ok:
  "storage_ok (pc_storage ref_process) mem_tables mem_tables (\<lambda>p. p) (cfg_storage ref_process_config) ref_stores"
  using ref_db_inv mem_files.redb_files_laws_axioms
  by (simp add: storage_ok_def ref_process_def ref_process_config_def ref_config_def ref_crates_on_disk_def ref_stores_def)


section \<open>What the admin token protects\<close>

lemma app_unauthorized:
  assumes "gw_admin_token W = Some tok" and "hq_authorization rq \<noteq> Some (''Bearer '' @ tok)"
    and "\<nexists>k c. route (hq_method rq) (hq_path rq) = Some (EnrollAt k c)"
  shows "snd (app W v ve rq s) = s"
proof (cases "route (hq_method rq) (hq_path rq)")
  case None
  then show ?thesis
    using assms(1,2)
    by (auto simp: app_cases unrouted_def require_admin_token_cases method_not_allowed_def no_route_def failE_def)
next
  case (Some ep)
  show ?thesis
  proof (cases "admin_routes (hq_method rq) (hq_path rq) = Some ep")
    case True
    with Some assms(1,2) show ?thesis by (auto simp: app_cases require_admin_token_cases)
  next
    case False
    have "snd (handle_public W ve rq ep s) = s"
      using assms(3) Some by (cases ep) (simp_all add: handle_public_def no_route_def failE_def retE_def)
    with Some False show ?thesis by (simp add: app_cases)
  qed
qed

text \<open>
  C10: what a client without the admin token can do. With a token configured, a request that does not carry it
  changes nothing in the store and sends nothing, with two exceptions: an enrollment, which has its own
  checks, and, in a build with the feature \<open>loadtest\<close>, the test endpoint, which is outside the middleware:
  it does the same whatever the \<open>Authorization\<close> header is, and what it can do is publish to the sinks of the
  organization in its path, never write the store.
\<close>

theorem without_admin_token:
  assumes "serve Q config t = (Inr (sv, sns), t')" and "cfg_admin_token config = Some tok"
    and "hq_authorization rq \<noteq> Some (''Bearer '' @ tok)" and "router_with_mesh Q sv mesh v rq s = (r, s')"
  shows "s' = s \<or> (\<exists>k c. route (hq_method rq) (hq_path rq) = Some (EnrollAt k c)) \<or>
    (pc_feature_loadtest Q \<and> (\<exists>k. hq_path rq = [''orgs'', k, ''cdc'', ''test'']) \<and> cs_store s' = cs_store s \<and>
     (\<forall>a. router_with_mesh Q sv mesh v (rq\<lparr>hq_authorization := a\<rparr>) s = (r, s')))"
proof (cases "if pc_feature_loadtest Q then cdc_test_router (hq_path rq) else None")
  case (Some k)
  then have k: "pc_feature_loadtest Q" "cdc_test_router (hq_path rq) = Some k" by (simp_all split: if_splits)
  then have "cs_store (snd (router_with_mesh Q sv mesh v rq s)) = cs_store s"
    by (simp add: router_with_mesh_def replying_state rejected_def method_not_allowed_def failE_def
        split: option.split body.split)
  moreover have "router_with_mesh Q sv mesh v (rq\<lparr>hq_authorization := a\<rparr>) s = router_with_mesh Q sv mesh v rq s" for a
    using k by (simp add: router_with_mesh_def split: option.split)
  ultimately show ?thesis using k assms(4) by (auto simp: cdc_test_router_Some)
next
  case None
  have tok: "gw_admin_token ((sv_gateway sv)\<lparr>gw_mesh := mesh\<rparr>) = Some tok"
    by (rule serve_cases [OF assms(1)]) (simp add: assms(2))
  show ?thesis
  proof (cases "ui_path (sv_ui_dir sv) (hq_path rq)")
    case (Some x)
    with None assms(4) show ?thesis by (auto simp: router_with_mesh_def retE_def split: prod.splits)
  next
    case no_ui: None
    have "snd (on_store (app ((sv_gateway sv)\<lparr>gw_mesh := mesh\<rparr>) (re_api v) (re_enroll v) (http_request.truncate rq)) s) = s"
      if "\<nexists>k c. route (hq_method rq) (hq_path rq) = Some (EnrollAt k c)"
      using app_unauthorized [OF tok, of "http_request.truncate rq" "re_api v" "re_enroll v" "cs_store s"] that assms(3)
      by (simp add: http_request.truncate_def on_store_unchanged)
    moreover have "s' = snd (on_store (app ((sv_gateway sv)\<lparr>gw_mesh := mesh\<rparr>) (re_api v) (re_enroll v)
        (http_request.truncate rq)) s)"
      using arg_cong [OF assms(4), of snd] None no_ui by (simp add: router_with_mesh_def replying_state)
    ultimately show ?thesis by blast
  qed
qed

theorem without_admin_token_witness:
  "\<exists>sv sns t'. serve ref_process ref_process_config ref_stores = (Inr (sv, sns), t') \<and>
     snd (router_with_mesh ref_process sv Map.empty ref_request_env
       (ref_gateway_request DELETE [''orgs'', ''acme''] (Some ''Bearer wrong'') None) \<lparr>cs_store = t', cs_net = 0, cs_calls = []\<rparr>) =
     \<lparr>cs_store = t', cs_net = 0, cs_calls = []\<rparr>"
proof -
  obtain sv sns where run: "serve ref_process ref_process_config ref_stores = (Inr (sv, sns), ref_stores)"
    using ref_serve by blast
  let ?rq = "ref_gateway_request DELETE [''orgs'', ''acme''] (Some ''Bearer wrong'') None"
  let ?s = "\<lparr>cs_store = ref_stores, cs_net = 0, cs_calls = []\<rparr>"
  obtain r s' where step: "router_with_mesh ref_process sv Map.empty ref_request_env ?rq ?s = (r, s')" by fastforce
  have tok: "cfg_admin_token ref_process_config = Some ''secret''" by (simp add: ref_process_config_def ref_config_def)
  have auth: "hq_authorization ?rq \<noteq> Some (''Bearer '' @ ''secret'')" by (simp add: ref_gateway_request_def)
  have "s' = ?s"
    using without_admin_token [OF run tok auth step] by (auto simp: ref_gateway_request_def routers)
  with run step show ?thesis by auto
qed

section \<open>What the API shows of a remote broker\<close>

lemma live_mesh_snoc:
  "live_mesh (bs @ [(B, sn)]) =
     register (mb_org_id (rb_mapping B)) (mb_app_id (rb_mapping B)) (broker_view sn) (live_mesh bs)"
  by (simp add: live_mesh_def)

lemma live_mesh_lookup:
  fixes bs :: "(('s, 'n) remote_broker \<times> 'j snapshot) list"
  defines "at \<equiv> \<lambda>(B :: ('s, 'n) remote_broker, sn :: 'j snapshot). (mb_org_id (rb_mapping B), mb_app_id (rb_mapping B))"
  shows "live_mesh bs kc =
    (let xs = filter (\<lambda>x. at x = kc) bs in if xs = [] then None else Some (broker_view (snd (last xs))))"
proof (induction bs rule: rev_induct)
  case Nil
  then show ?case by (simp add: live_mesh_def)
next
  case (snoc x bs)
  obtain B sn where x: "x = (B, sn)" by fastforce
  show ?case
    using snoc unfolding x live_mesh_snoc by (auto simp: register_def at_def Let_def)
qed

end
