(* ===== verification/Tasks_Properties.thy ===== *)
theory Tasks_Properties
  imports Enroll_Tasks Process
begin

text \<open>
  Requests and enrollments that run at the same time, on a manager made from any configuration: what holds under every
  interleaving of their calls to the store, and what does not.
\<close>

section \<open>Every interleaving\<close>

lemma manager_service:
  assumes "tenant_manager_new F C D config t = (Inr M, t')" and "storage_ok D V X VP (cfg_storage config) t"
  shows "tenant_service M (stored D V VP (cfg_storage config)) (storage_ok D V X VP (cfg_storage config))"
    and "storage_ok D V X VP (cfg_storage config) t'"
    and "stored D V VP (cfg_storage config) t' = stored D V VP (cfg_storage config) t"
proof -
  obtain B P en where B: "storage_open D (cfg_storage config) t = (Inr B, t')" "M = with_backend B P en"
    by (rule tenant_manager_new_Inr [OF assms(1)])
  note opened = storage_open_result [OF B(1) assms(2)]
  from opened(1) B(2) show "tenant_service M (stored D V VP (cfg_storage config)) (storage_ok D V X VP (cfg_storage config))"
    by (simp add: tenant_service_def with_backend_def)
  from opened(2,3) show "storage_ok D V X VP (cfg_storage config) t'"
    "stored D V VP (cfg_storage config) t' = stored D V VP (cfg_storage config) t" .
qed


text \<open>
  C4: a revocation that has been stored is final under concurrency. If a token is revoked, or gone, before a set of
  requests and enrollments starts, and none of them draws its identifier for a new token, then in every interleaving
  it stays so, and no request to consume it succeeds.
\<close>

theorem revocation_final:
  assumes "storage_ok D V X VP (cfg_storage config) t" and "mesh_crates_ok K"
    and "tenant_manager_new F C D config t = (Inr M, t0)"
    and "revoked_or_gone k c (stored D V VP (cfg_storage config) t)"
    and "\<forall>x \<in> set jobs. job_ok x \<and> \<not> job_makes K k c x"
    and "turn\<^sup>*\<^sup>* (t0, map (job_task K H M) jobs) (t1, ts)"
  shows "revoked_or_gone k c (stored D V VP (cfg_storage config) t1) \<and> length ts = length jobs \<and>
    (\<forall>i < length jobs. job_consumes k c (jobs ! i) \<longrightarrow> (\<forall>x. ts ! i \<noteq> Done (Inr x)))"
proof -
  note M = manager_service [OF assms(3,1)]
  from tenant_service.turns_revoked [OF M(1) assms(2,5) M(2) _ assms(6)] M(3) assms(4) show ?thesis by simp
qed

text \<open>
  C19: the counter of a token never passes its limit, in whatever order the calls of concurrent requests take turns. (It is
  the counter that is bounded: overlapping requests may write the same value, so that it is not the number of
  admissions.)
\<close>

theorem concurrent_counters:
  assumes "storage_ok D V X VP (cfg_storage config) t" and "mesh_crates_ok K"
    and "tenant_manager_new F C D config t = (Inr M, t0)"
    and "counters_bounded (stored D V VP (cfg_storage config) t)" and "\<forall>x \<in> set jobs. job_ok x"
    and "turn\<^sup>*\<^sup>* (t0, map (job_task K H M) jobs) (t1, ts)"
  shows "counters_bounded (stored D V VP (cfg_storage config) t1)"
proof -
  note M = manager_service [OF assms(3,1)]
  from tenant_service.turns_counters [OF M(1) assms(2,5) M(2) _ assms(6)] M(3) assms(4) show ?thesis by simp
qed



section \<open>Examples\<close>

text \<open>The example database with another token in the place of its own.\<close>

definition db_with :: "enrollment_token \<Rightarrow> mem_db" where
  "db_with t = ref_db(TOKENS_TABLE := [(''acme'' @ nul # ''peat_ab'', StToken t)])"

lemma db_with_inv:
  assumes "tok_org_id t = ''acme''" and "tok_token_id t = ''peat_ab''"
  shows "mem_inv (db_with t)"
proof -
  have "Redb.update_token mem_serde mem_engine t ref_db = (Inr (), db_with t)"
    using assms by (simp add: Redb.update_token_def Redb.create_token_def mem_run db_with_def)
  then have "be_update_token (tm_store ref_manager) t ref_db = (Inr (), db_with t)"
    by (simp add: with_backend_def redb_backend_def)
  from wr_ok [OF tm.update_token _ this] assms ref_db_inv show ?thesis by simp
qed

definition stores_with :: "enrollment_token \<Rightarrow> (mem_db, stored tables) stores" where
  "stores_with t = \<lparr>st_redb = db_with t, st_pg = no_rows\<rparr>"

abbreviation ref_D :: "(mem_db, mem_db, stored, stored tables, stored) storage_crates" where
  "ref_D \<equiv> pc_storage ref_process"

abbreviation ref_storage_config :: storage_config where
  "ref_storage_config \<equiv> cfg_storage ref_process_config"

lemma ref_manager_new:
  "\<exists>M. tenant_manager_new (pc_features ref_process) (pc_crypto ref_process) ref_D ref_process_config (stores_with t) =
     (Inr M, stores_with t)"
  by (simp add: tenant_manager_new_def new_manager_def mem_open backend_on_def build_key_provider_def ref_config_def
      ref_crates_def from_hex_def ref_process_def ref_process_config_def stores_with_def db_with_def Redb.list_orgs_def
      mem_run ref_org_def)

lemma stores_with_ok:
  "tok_org_id t = ''acme'' \<Longrightarrow> tok_token_id t = ''peat_ab'' \<Longrightarrow>
     storage_ok ref_D mem_tables mem_tables (\<lambda>p. p) ref_storage_config (stores_with t)"
  using db_with_inv [of t] mem_files.redb_files_laws_axioms
  by (simp add: storage_ok_def ref_process_def ref_process_config_def ref_config_def ref_crates_on_disk_def stores_with_def)

lemma stores_with_token:
  "a_tokens (stored ref_D mem_tables (\<lambda>p. p) ref_storage_config (stores_with t)) kc =
     (if kc = (''acme'', ''peat_ab'') then Some t else None)"
proof (cases kc)
  case (Pair j c)
  have "j @ nul # c = ''acme'' @ nul # ''peat_ab'' \<longleftrightarrow> j = ''acme'' \<and> c = ''peat_ab''" if "nul_free j"
    using that by (simp add: nul_key_inject del: append_Cons append_Nil)
  then show ?thesis
    by (auto simp: Pair stored_def ref_process_def ref_process_config_def ref_config_def ref_crates_on_disk_def
      stores_with_def redb_abs_def tab_def pair_ok_def pair_key_def mem_tables_def db_with_def mem_serde_def)
qed

definition ref_jobs :: "unit job list" where
  "ref_jobs = [Manage (ConsumeToken 5 ''acme'' ''ops'' ''peat_ab''), Admit ref_enroll_env ''acme'' ''ops'' None ref_body,
     Manage (ConsumeToken 9 ''acme'' ''ops'' ''peat_ab'')]"


theorem revocation_final_witness:
  "\<exists>M t1 ts. run_schedule [0, 2, 1, 0] (stores_with (ref_token\<lparr>tok_revoked := True\<rparr>), map (job_task ref_mesh ref_enroll_crates M) ref_jobs) =
       (t1, ts) \<and> revoked_or_gone ''acme'' ''peat_ab'' (stored ref_D mem_tables (\<lambda>p. p) ref_storage_config t1) \<and>
     ts ! 0 \<noteq> Done (Inr (Inl ())) \<and> ts ! 2 \<noteq> Done (Inr (Inl ()))"
proof -
  let ?t = "stores_with (ref_token\<lparr>tok_revoked := True\<rparr>)"
  obtain M where M: "tenant_manager_new (pc_features ref_process) (pc_crypto ref_process) ref_D ref_process_config ?t = (Inr M, ?t)"
    using ref_manager_new by blast
  obtain t1 ts where run: "run_schedule [0, 2, 1, 0] (?t, map (job_task ref_mesh ref_enroll_crates M) ref_jobs) = (t1, ts)" by fastforce
  have ok: "\<forall>x \<in> set ref_jobs. job_ok x \<and> \<not> job_makes ref_mesh ''acme'' ''peat_ab'' x"
    by (simp add: ref_jobs_def)
  have turns: "turn\<^sup>*\<^sup>* (?t, map (job_task ref_mesh ref_enroll_crates M) ref_jobs) (t1, ts)"
    using run_schedule_turns [of _ "[0, 2, 1, 0]"] run by metis
  have store: "storage_ok ref_D mem_tables mem_tables (\<lambda>p. p) ref_storage_config ?t"
    "revoked_or_gone ''acme'' ''peat_ab'' (stored ref_D mem_tables (\<lambda>p. p) ref_storage_config ?t)"
    by (simp_all add: stores_with_ok ref_token_def revoked_or_gone_def stores_with_token)
  note final = revocation_final [OF store(1) ref_mesh_ok M store(2) ok turns]
  then have "ts ! 0 \<noteq> Done (Inr (Inl ()))" "ts ! 2 \<noteq> Done (Inr (Inl ()))"
    by (auto simp: ref_jobs_def All_less_Suc numeral_3_eq_3 numeral_2_eq_2)
  with final run show ?thesis by blast
qed

theorem concurrent_counters_witness:
  "\<exists>M t1 ts. run_schedule [0, 2, 1, 0, 1, 2] (stores_with ref_token, map (job_task ref_mesh ref_enroll_crates M) ref_jobs) = (t1, ts) \<and>
     counters_bounded (stored ref_D mem_tables (\<lambda>p. p) ref_storage_config t1)"
proof -
  obtain M where M: "tenant_manager_new (pc_features ref_process) (pc_crypto ref_process) ref_D ref_process_config
      (stores_with ref_token) = (Inr M, stores_with ref_token)"
    using ref_manager_new by blast
  obtain t1 ts where run: "run_schedule [0, 2, 1, 0, 1, 2] (stores_with ref_token, map (job_task ref_mesh ref_enroll_crates M) ref_jobs) = (t1, ts)"
    by fastforce
  have turns: "turn\<^sup>*\<^sup>* (stores_with ref_token, map (job_task ref_mesh ref_enroll_crates M) ref_jobs) (t1, ts)"
    using run_schedule_turns [of _ "[0, 2, 1, 0, 1, 2]"] run by metis
  have store: "storage_ok ref_D mem_tables mem_tables (\<lambda>p. p) ref_storage_config (stores_with ref_token)"
    "counters_bounded (stored ref_D mem_tables (\<lambda>p. p) ref_storage_config (stores_with ref_token))"
    "\<forall>x \<in> set ref_jobs. job_ok x"
    by (simp_all add: stores_with_ok ref_token_def counters_bounded_def stores_with_token ref_jobs_def)
  from concurrent_counters [OF store(1) ref_mesh_ok M store(2,3) turns] run show ?thesis by blast
qed


section \<open>What concurrency breaks\<close>


lemma mem_delete_acme: "Redb.delete_org mem_engine ''acme'' ref_db = (Inr True, mem_empty)"
proof -
  have "Redb.delete_org mem_engine ''acme'' ref_db =
      (Inr True, ref_db(ORGS_TABLE := [], FORMATIONS_TABLE := [], TOKENS_TABLE := [], GENESIS_TABLE := []))"
    by (simp add: Redb.delete_org_def scoped_tables_def mem_run starts_with_def fun_upd_twist fun_eq_iff)
  also have "ref_db(ORGS_TABLE := [], FORMATIONS_TABLE := [], TOKENS_TABLE := [], GENESIS_TABLE := []) = mem_empty"
    by (simp add: ref_db_def mem_empty_def fun_eq_iff)
  finally show ?thesis .
qed



text \<open>The example database with an organization that allows one enrollment in an hour.\<close>

definition limited_org :: organization where
  "limited_org = ref_org\<lparr>org_quotas := default_quotas\<lparr>max_enrollments_per_hour := 1\<rparr>\<rparr>"

definition limited_db :: mem_db where
  "limited_db = ref_db(ORGS_TABLE := [(''acme'', StOrg limited_org)])"

lemma limited_db_inv: "mem_inv limited_db"
proof -
  have "Redb.update_org mem_serde mem_engine limited_org ref_db = (Inr (), limited_db)"
    by (simp add: Redb.update_org_def Redb.create_org_def mem_run limited_db_def limited_org_def ref_org_def)
  then have "be_update_org (tm_store ref_manager) limited_org ref_db = (Inr (), limited_db)"
    by (simp add: with_backend_def redb_backend_def)
  from wr_ok [OF tm.update_org _ this] ref_db_inv show ?thesis by (simp add: limited_org_def ref_org_def)
qed

definition second_env :: "unit enroll_env" where
  "second_env = ref_enroll_env\<lparr>ee_now_audit := 5000001\<rparr>"

lemmas enroll_task_run =
  enroll_task_def await_def get_org_task_def get_formation_task_def count_recent_enrollments_task_def get_org_then_def
  get_formation_then_def call_def attempt_def decide_task_def settle_task_def append_audit_task_def
  try_issue_certificate_task_def Redb.get_org_def Redb.get_formation_def Redb.list_audit_def Redb.append_audit_def
  build_audit_def audit_key_def ref_formation_def default_quotas_def ref_enroll_env_def ref_mesh_def generate_id_def


end
