(* ===== verification/Load_Report.thy ===== *)
theory Load_Report
  imports Models Complex_Main "HOL-Library.Multiset"
begin

text \<open>
  The report of a load test (\<open>src/loadtest.rs\<close>): percentiles and the aggregation of the samples. Floating-point
  numbers are a parameter: the operations the code uses, and, in the locale \<open>f64_laws\<close>, that they are monotone,
  as correctly rounded operations are. The sum of the latencies is a \<open>u64\<close> and wraps. The order in which a hash
  map is walked is a parameter too.
\<close>

section \<open>The data\<close>

record request_sample =
  sa_endpoint :: string
  sa_status :: nat
  sa_latency_us :: u64
  sa_timestamp_ms :: u64

record endpoint_stats =
  es_endpoint :: string
  es_count :: nat
  es_errors :: nat
  es_p50_us :: u64
  es_p95_us :: u64
  es_p99_us :: u64
  es_max_us :: u64
  es_mean_us :: u64

record 'r load_test_report =
  lr_scenario :: string
  lr_concurrency :: nat
  lr_duration_secs :: u64
  lr_total_requests :: nat
  lr_successful :: nat
  lr_failed :: nat
  lr_throughput_rps :: 'r
  lr_p50_us :: u64
  lr_p95_us :: u64
  lr_p99_us :: u64
  lr_max_us :: u64
  lr_mean_us :: u64
  lr_error_breakdown :: "nat \<rightharpoonup> nat"
  lr_endpoints :: "endpoint_stats list"
  lr_samples :: "request_sample list"

text \<open>\<open>as f64\<close> of an integer, the operations, \<open>round\<close>, \<open>as usize\<close> (which saturates) and \<open>>\<close>.\<close>

record 'r f64 =
  f_of :: "nat \<Rightarrow> 'r"
  f_sub :: "'r \<Rightarrow> 'r \<Rightarrow> 'r"
  f_mul :: "'r \<Rightarrow> 'r \<Rightarrow> 'r"
  f_div :: "'r \<Rightarrow> 'r \<Rightarrow> 'r"
  f_round :: "'r \<Rightarrow> 'r"
  f_to_usize :: "'r \<Rightarrow> nat"
  f_gt :: "'r \<Rightarrow> 'r \<Rightarrow> bool"

section \<open>Percentiles\<close>

definition percentile :: "'r f64 \<Rightarrow> u64 list \<Rightarrow> 'r \<Rightarrow> u64" where
  "percentile F ls p =
     (if ls = [] then 0
      else
        let idx = f_to_usize F (f_round F
              (f_mul F (f_div F p (f_of F 100)) (f_sub F (f_of F (length ls)) (f_of F 1))))
        in ls ! min idx (length ls - 1))"

definition mean_of :: "u64 list \<Rightarrow> u64" where
  "mean_of ls = (if ls = [] then 0 else sum_list ls div of_nat (length ls))"

definition last_or_0 :: "u64 list \<Rightarrow> u64" where
  "last_or_0 ls = (if ls = [] then 0 else last ls)"

section \<open>Aggregation\<close>

text \<open>\<open>map.entry(k).or_default()\<close>, changed by a function.\<close>

definition entry_or :: "'b \<Rightarrow> ('b \<Rightarrow> 'b) \<Rightarrow> 'a \<Rightarrow> ('a \<rightharpoonup> 'b) \<Rightarrow> ('a \<rightharpoonup> 'b)" where
  "entry_or d f k m = m(k \<mapsto> f (case m k of None \<Rightarrow> d | Some x \<Rightarrow> x))"

definition error_breakdown_of :: "request_sample list \<Rightarrow> (nat \<rightharpoonup> nat)" where
  "error_breakdown_of samples =
     foldl (\<lambda>m s. if sa_status s \<ge> 400 then entry_or 0 (\<lambda>n. n + 1) (sa_status s) m else m) Map.empty samples"

definition by_endpoint_of :: "request_sample list \<Rightarrow> (string \<rightharpoonup> request_sample list)" where
  "by_endpoint_of samples = foldl (\<lambda>m s. entry_or [] (\<lambda>xs. xs @ [s]) (sa_endpoint s) m) Map.empty samples"

definition endpoint_stats_of :: "'r f64 \<Rightarrow> string \<Rightarrow> request_sample list \<Rightarrow> endpoint_stats" where
  "endpoint_stats_of F ep ep_samples =
     (let lats = sort (map sa_latency_us ep_samples) in
      \<lparr>es_endpoint = ep, es_count = length ep_samples,
       es_errors = length (filter (\<lambda>s. sa_status s \<ge> 400 \<or> sa_status s = 0) ep_samples),
       es_p50_us = percentile F lats (f_of F 50), es_p95_us = percentile F lats (f_of F 95),
       es_p99_us = percentile F lats (f_of F 99), es_max_us = last_or_0 lats, es_mean_us = mean_of lats\<rparr>)"

text \<open>\<open>walk\<close> lists the keys of the hash map in the order it is walked.\<close>

definition endpoints_of ::
  "'r f64 \<Rightarrow> ((string \<rightharpoonup> request_sample list) \<Rightarrow> string list) \<Rightarrow> request_sample list \<Rightarrow> endpoint_stats list" where
  "endpoints_of F walk samples =
     (let by_endpoint = by_endpoint_of samples in
      sort_key (\<lambda>e. - int (es_count e))
        (map (\<lambda>ep. endpoint_stats_of F ep (the (by_endpoint ep))) (walk by_endpoint)))"

definition actual_duration :: "'r f64 \<Rightarrow> request_sample list \<Rightarrow> u64 \<Rightarrow> 'r" where
  "actual_duration F samples duration_secs =
     (if length samples \<ge> 2 then
        let min_ts = Min (set (map sa_timestamp_ms samples)); max_ts = Max (set (map sa_timestamp_ms samples));
            dur = f_div F (f_of F (unat (max_ts - min_ts))) (f_of F 1000)
        in if f_gt F dur (f_of F 0) then dur else f_of F (unat duration_secs)
      else f_of F (unat duration_secs))"

definition aggregate ::
  "'r f64 \<Rightarrow> ((string \<rightharpoonup> request_sample list) \<Rightarrow> string list) \<Rightarrow> request_sample list \<Rightarrow> string \<Rightarrow> nat \<Rightarrow> u64
     \<Rightarrow> 'r load_test_report" where
  "aggregate F walk samples scenario concurrency duration_secs =
     (let total_requests = length samples;
          successful = length (filter (\<lambda>s. sa_status s < 400) samples);
          all_latencies = sort (map sa_latency_us samples)
      in \<lparr>lr_scenario = scenario, lr_concurrency = concurrency, lr_duration_secs = duration_secs,
          lr_total_requests = total_requests, lr_successful = successful, lr_failed = total_requests - successful,
          lr_throughput_rps = f_div F (f_of F total_requests) (actual_duration F samples duration_secs),
          lr_p50_us = percentile F all_latencies (f_of F 50), lr_p95_us = percentile F all_latencies (f_of F 95),
          lr_p99_us = percentile F all_latencies (f_of F 99), lr_max_us = last_or_0 all_latencies,
          lr_mean_us = mean_of all_latencies, lr_error_breakdown = error_breakdown_of samples,
          lr_endpoints = endpoints_of F walk samples, lr_samples = samples\<rparr>)"

section \<open>The accounts\<close>

lemma error_breakdown_snoc:
  "error_breakdown_of (xs @ [s]) =
     (if sa_status s \<ge> 400 then entry_or 0 (\<lambda>n. n + 1) (sa_status s) (error_breakdown_of xs) else error_breakdown_of xs)"
  by (simp add: error_breakdown_of_def)

lemma by_endpoint_snoc:
  "by_endpoint_of (xs @ [s]) = entry_or [] (\<lambda>xs. xs @ [s]) (sa_endpoint s) (by_endpoint_of xs)"
  by (simp add: by_endpoint_of_def)

lemma error_breakdown_count:
  "error_breakdown_of samples st =
     (let n = length (filter (\<lambda>s. sa_status s = st) samples) in if 400 \<le> st \<and> 0 < n then Some n else None)"
proof (induction samples rule: rev_induct)
  case Nil
  then show ?case by (simp add: error_breakdown_of_def)
next
  case (snoc s xs)
  then show ?case by (auto simp: error_breakdown_snoc entry_or_def Let_def)
qed

lemma by_endpoint_filter:
  "by_endpoint_of samples ep =
     (let xs = filter (\<lambda>s. sa_endpoint s = ep) samples in if xs = [] then None else Some xs)"
proof (induction samples rule: rev_induct)
  case Nil
  then show ?case by (simp add: by_endpoint_of_def)
next
  case (snoc s xs)
  then show ?case by (auto simp: by_endpoint_snoc entry_or_def Let_def)
qed

lemma dom_by_endpoint: "dom (by_endpoint_of samples) = sa_endpoint ` set samples"
  by (force simp: dom_def by_endpoint_filter Let_def filter_empty_conv)

text \<open>A partition of a list by a key accounts for each of its elements once.\<close>

lemma sum_partition:
  assumes "distinct ks" and "f ` set xs \<subseteq> set ks"
  shows "(\<Sum>k \<leftarrow> ks. length (filter P (filter (\<lambda>x. f x = k) xs))) = length (filter P xs)"
  using assms(2)
proof (induction xs)
  case (Cons x xs)
  have "(\<Sum>k \<leftarrow> ks. if f x = k then 1 else (0 :: nat)) = 1"
    using assms(1) Cons.prems by (simp add: sum_list_distinct_conv_sum_set sum.If_cases Int_def)
  moreover have "(\<Sum>k \<leftarrow> ks. length (filter P (filter (\<lambda>y. f y = k) (x # xs)))) =
      (\<Sum>k \<leftarrow> ks. length (filter P (filter (\<lambda>y. f y = k) xs)) + (if P x then if f x = k then 1 else 0 else 0))"
    by (intro arg_cong [where f = sum_list] map_cong) auto
  ultimately show ?case using Cons by (auto simp: sum_list_addf)
qed simp

lemma sum_list_sort_key: "sum_list (map (h :: 'a \<Rightarrow> nat) (sort_key g xs)) = sum_list (map h xs)"
  by (metis mset_map mset_sort sum_mset_sum_list)

definition walks_all :: "((string \<rightharpoonup> request_sample list) \<Rightarrow> string list) \<Rightarrow> bool" where
  "walks_all walk \<longleftrightarrow> (\<forall>m. finite (dom m) \<longrightarrow> distinct (walk m) \<and> set (walk m) = dom m)"

lemma endpoints_sum:
  assumes "walks_all walk"
    and "\<And>ep xs. h (endpoint_stats_of F ep xs) = length (filter P xs)"
  shows "(\<Sum>e \<leftarrow> endpoints_of F walk samples. h e) = length (filter P samples)"
proof -
  let ?m = "by_endpoint_of samples"
  have w: "distinct (walk ?m)" "set (walk ?m) = sa_endpoint ` set samples"
    using assms(1) by (simp_all add: walks_all_def dom_by_endpoint)
  have "(\<Sum>e \<leftarrow> endpoints_of F walk samples. h e) =
      (\<Sum>ep \<leftarrow> walk ?m. length (filter P (the (?m ep))))"
    by (simp add: endpoints_of_def Let_def sum_list_sort_key assms(2) comp_def)
  also have "\<dots> = (\<Sum>ep \<leftarrow> walk ?m. length (filter P (filter (\<lambda>s. sa_endpoint s = ep) samples)))"
    using w(2) by (intro arg_cong [where f = sum_list] map_cong) (auto simp: by_endpoint_filter Let_def filter_empty_conv)
  also have "\<dots> = length (filter P samples)"
    using w by (intro sum_partition) auto
  finally show ?thesis .
qed

lemma endpoints_listed:
  assumes "walks_all walk"
  shows "set (map es_endpoint (endpoints_of F walk samples)) = sa_endpoint ` set samples"
    "sorted_wrt (\<lambda>x y. es_count y \<le> es_count x) (endpoints_of F walk samples)"
proof -
  let ?m = "by_endpoint_of samples"
  have "set (walk ?m) = sa_endpoint ` set samples"
    using assms by (simp add: walks_all_def dom_by_endpoint)
  then show "set (map es_endpoint (endpoints_of F walk samples)) = sa_endpoint ` set samples"
    by (simp add: endpoints_of_def Let_def endpoint_stats_of_def image_image)
  have "sorted (map (\<lambda>e. - int (es_count e)) (endpoints_of F walk samples))"
    by (simp add: endpoints_of_def Let_def)
  then show "sorted_wrt (\<lambda>x y. es_count y \<le> es_count x) (endpoints_of F walk samples)"
    by (simp add: sorted_map)
qed

text \<open>
  The report accounts for every sample once. Successes and failures add up to the number of
  samples; the breakdown has exactly the error statuses that occur, each with the number of its samples; the
  endpoints are the ones that occur, the busiest first, and their counts add up to the total and their errors to the
  failures and the samples with status 0 (which the totals count as successes).
\<close>

theorem report_accounts:
  assumes "walks_all walk" and "R = aggregate F walk samples scenario concurrency secs"
  shows "lr_total_requests R = length samples \<and> lr_successful R + lr_failed R = lr_total_requests R \<and>
    lr_failed R = length (filter (\<lambda>s. sa_status s \<ge> 400) samples) \<and>
    (\<forall>st n. lr_error_breakdown R st = Some n \<longleftrightarrow> 400 \<le> st \<and> 0 < n \<and> n = length (filter (\<lambda>s. sa_status s = st) samples)) \<and>
    set (map es_endpoint (lr_endpoints R)) = sa_endpoint ` set samples \<and>
    sorted_wrt (\<lambda>x y. es_count y \<le> es_count x) (lr_endpoints R) \<and>
    (\<Sum>e \<leftarrow> lr_endpoints R. es_count e) = lr_total_requests R \<and>
    (\<Sum>e \<leftarrow> lr_endpoints R. es_errors e) = lr_failed R + length (filter (\<lambda>s. sa_status s = 0) samples)"
proof -
  have split: "length (filter (\<lambda>s. sa_status s < 400) samples) + length (filter (\<lambda>s. sa_status s \<ge> 400) samples) = length samples"
    using sum_length_filter_compl [of "\<lambda>s. sa_status s < 400" samples] by (simp add: not_less)
  have errors: "length (filter (\<lambda>s. sa_status s \<ge> 400 \<or> sa_status s = 0) samples) =
      length (filter (\<lambda>s. sa_status s \<ge> 400) samples) + length (filter (\<lambda>s. sa_status s = 0) samples)"
    by (induction samples) auto
  have "(\<Sum>e \<leftarrow> lr_endpoints R. es_count e) = length (filter (\<lambda>_. True) samples)"
    unfolding assms(2) by (simp add: aggregate_def Let_def) (rule endpoints_sum [OF assms(1), where P = "\<lambda>_. True", simplified], simp add: endpoint_stats_of_def Let_def)
  moreover have "(\<Sum>e \<leftarrow> lr_endpoints R. es_errors e) = length (filter (\<lambda>s. sa_status s \<ge> 400 \<or> sa_status s = 0) samples)"
    unfolding assms(2) by (simp add: aggregate_def Let_def) (rule endpoints_sum [OF assms(1)], simp add: endpoint_stats_of_def Let_def)
  ultimately show ?thesis
    using split errors endpoints_listed [OF assms(1), of F samples]
    by (auto simp: assms(2) aggregate_def Let_def error_breakdown_count)
qed

section \<open>The percentiles\<close>

lemma min_last: "ls \<noteq> [] \<Longrightarrow> min i (length ls - 1) < length ls"
  by (simp add: min_less_iff_disj)

locale f64_laws =
  fixes F :: "'r f64" and le :: "'r \<Rightarrow> 'r \<Rightarrow> bool"
  assumes of_mono: "m \<le> n \<Longrightarrow> le (f_of F m) (f_of F n)"
    and sub_one: "1 \<le> n \<Longrightarrow> le (f_of F 0) (f_sub F (f_of F n) (f_of F 1))"
    and div_mono: "0 < n \<Longrightarrow> le x y \<Longrightarrow> le (f_div F x (f_of F n)) (f_div F y (f_of F n))"
    and mul_mono: "le (f_of F 0) z \<Longrightarrow> le x y \<Longrightarrow> le (f_mul F x z) (f_mul F y z)"
    and round_mono: "le x y \<Longrightarrow> le (f_round F x) (f_round F y)"
    and to_usize_mono: "le x y \<Longrightarrow> f_to_usize F x \<le> f_to_usize F y"
begin

lemma percentile_mono:
  assumes "sorted ls" and "m \<le> n"
  shows "percentile F ls (f_of F m) \<le> percentile F ls (f_of F n)"
proof (cases "ls = []")
  case False
  let ?i = "\<lambda>p. f_to_usize F (f_round F (f_mul F (f_div F (f_of F p) (f_of F 100))
      (f_sub F (f_of F (length ls)) (f_of F 1))))"
  have "le (f_of F 0) (f_sub F (f_of F (length ls)) (f_of F 1))"
    using False by (intro sub_one) (simp add: Suc_leI)
  with assms(2) have "?i m \<le> ?i n"
    by (intro to_usize_mono round_mono mul_mono div_mono of_mono) simp_all
  then have "min (?i m) (length ls - 1) \<le> min (?i n) (length ls - 1)" by simp
  moreover have "min (?i n) (length ls - 1) < length ls" by (rule min_last [OF False])
  ultimately show ?thesis
    using assms(1) False by (simp add: percentile_def Let_def sorted_nth_mono)
qed (simp add: percentile_def)

end

lemma percentile_in: "ls \<noteq> [] \<Longrightarrow> percentile F ls p \<in> set ls"
  unfolding percentile_def Let_def by (simp only: if_False) (rule nth_mem, rule min_last)

lemma sorted_le_last: "sorted ls \<Longrightarrow> x \<in> set ls \<Longrightarrow> x \<le> last ls"
  by (induction ls) auto

lemma unat_sum_list:
  "(\<Sum>x \<leftarrow> ls. unat (x :: u64)) < 2 ^ 64 \<Longrightarrow> unat (sum_list ls) = (\<Sum>x \<leftarrow> ls. unat x)"
proof (induction ls)
  case (Cons x ls)
  then have "unat (sum_list ls) = (\<Sum>x \<leftarrow> ls. unat x)" by simp
  with Cons.prems show ?case by (simp add: unat_word_ariths(1))
qed simp

lemma mean_le:
  assumes "(\<Sum>x \<leftarrow> ls. unat (x :: u64)) < 2 ^ 64" and "length ls < 2 ^ 64" and "\<And>x. x \<in> set ls \<Longrightarrow> x \<le> u"
  shows "mean_of ls \<le> u"
proof (cases "ls = []")
  case False
  have "(\<Sum>x \<leftarrow> ls. unat x) \<le> (\<Sum>x \<leftarrow> ls. unat u)"
    using assms(3) by (intro sum_list_mono) (simp add: word_le_nat_alt)
  then have "(\<Sum>x \<leftarrow> ls. unat x) \<le> length ls * unat u" by (simp add: sum_list_triv)
  then have "(\<Sum>x \<leftarrow> ls. unat x) div length ls \<le> unat u"
    using False by (metis div_le_mono length_greater_0_conv nonzero_mult_div_cancel_left not_gr_zero)
  moreover have "unat (of_nat (length ls) :: u64) = length ls"
    using assms(2) by (simp add: unat_of_nat)
  ultimately show ?thesis
    using False unat_sum_list [OF assms(1)] by (simp add: mean_of_def word_le_nat_alt unat_div)
qed (simp add: mean_of_def)

text \<open>
  The latencies of a report are what they are called. With floating-point operations that are
  monotone, the three percentiles are latencies of samples, in order, between the smallest and the largest; and the mean is
  at most the largest latency as long as the sum of the latencies fits the 64 bits it is taken in.
\<close>

theorem report_latencies:
  assumes "f64_laws F le" and "samples \<noteq> []" and "R = aggregate F walk samples scenario concurrency secs"
  shows "{lr_p50_us R, lr_p95_us R, lr_p99_us R, lr_max_us R} \<subseteq> sa_latency_us ` set samples \<and>
    lr_p50_us R \<le> lr_p95_us R \<and> lr_p95_us R \<le> lr_p99_us R \<and> lr_p99_us R \<le> lr_max_us R \<and>
    (\<forall>s \<in> set samples. sa_latency_us s \<le> lr_max_us R) \<and>
    ((\<Sum>s \<leftarrow> samples. unat (sa_latency_us s)) < 2 ^ 64 \<and> length samples < 2 ^ 64 \<longrightarrow> lr_mean_us R \<le> lr_max_us R)"
proof -
  let ?ls = "sort (map sa_latency_us samples)"
  have ls: "?ls \<noteq> []" "set ?ls = sa_latency_us ` set samples" "sorted ?ls"
    using assms(2) by (simp_all add: set_empty [symmetric] del: set_empty)
  have max: "x \<le> last ?ls" if "x \<in> set ?ls" for x
    using sorted_le_last [OF ls(3) that] .
  have "(\<Sum>x \<leftarrow> ?ls. unat x) = (\<Sum>s \<leftarrow> samples. unat (sa_latency_us s))"
    using sum_list_sort_key [of unat "\<lambda>x. x" "map sa_latency_us samples"] by (simp add: comp_def)
  then have mean: "mean_of ?ls \<le> last ?ls" if "(\<Sum>s \<leftarrow> samples. unat (sa_latency_us s)) < 2 ^ 64" "length samples < 2 ^ 64"
    using that max by (intro mean_le) simp_all
  have last: "last ?ls \<in> set ?ls" by (rule last_in_set [OF ls(1)])
  show ?thesis
    unfolding assms(3) aggregate_def Let_def last_or_0_def
    using percentile_in [OF ls(1), of F] f64_laws.percentile_mono [OF assms(1) ls(3)] max mean last ls(1,2)
    by (auto simp del: set_sort sorted_sort)
qed

section \<open>Exact arithmetic\<close>

text \<open>The real numbers, \<open>round\<close> half away from zero, and a 64-bit \<open>usize\<close>.\<close>

definition exact :: "real f64" where
  "exact =
     \<lparr>f_of = real, f_sub = (-), f_mul = (*), f_div = (/),
      f_round = (\<lambda>x. if 0 \<le> x then of_int \<lfloor>x + 1 / 2\<rfloor> else of_int \<lceil>x - 1 / 2\<rceil>),
      f_to_usize = (\<lambda>x. min (nat \<lfloor>x\<rfloor>) (2 ^ 64 - 1)), f_gt = (>)\<rparr>"

interpretation exact: f64_laws exact "(\<le>)"
proof unfold_locales
  fix x y :: real
  assume "x \<le> y"
  then show "f_round exact x \<le> f_round exact y"
    by (auto simp: exact_def floor_mono ceiling_mono) linarith+
  show "f_to_usize exact x \<le> f_to_usize exact y"
    using floor_mono [OF \<open>x \<le> y\<close>] by (simp add: exact_def min.coboundedI1 nat_mono)
qed (simp_all add: exact_def divide_right_mono mult_right_mono)

section \<open>A report\<close>

definition ref_samples :: "request_sample list" where
  "ref_samples =
     map (\<lambda>(ep, st, us, ms). \<lparr>sa_endpoint = ep, sa_status = st, sa_latency_us = us, sa_timestamp_ms = ms\<rparr>)
       [(''GET /orgs'', 200, 30, 1), (''POST /orgs'', 400, 10, 2), (''GET /orgs'', 404, 20, 5)]"

lemma sorted_walk: "walks_all (\<lambda>m. sorted_list_of_set (dom m))"
  by (simp add: walks_all_def)

theorem report_accounts_witness:
  "lr_failed (aggregate exact (\<lambda>m. sorted_list_of_set (dom m)) ref_samples ''mixed'' 2 1) = 2 \<and>
   (\<Sum>e \<leftarrow> lr_endpoints (aggregate exact (\<lambda>m. sorted_list_of_set (dom m)) ref_samples ''mixed'' 2 1). es_errors e) = 2"
  using report_accounts [OF sorted_walk refl, of exact ref_samples "''mixed''" 2 1]
  by (simp add: ref_samples_def)

theorem report_latencies_witness:
  "lr_p50_us (aggregate exact (\<lambda>m. sorted_list_of_set (dom m)) ref_samples ''mixed'' 2 1) \<le>
   lr_p99_us (aggregate exact (\<lambda>m. sorted_list_of_set (dom m)) ref_samples ''mixed'' 2 1) \<and>
   lr_mean_us (aggregate exact (\<lambda>m. sorted_list_of_set (dom m)) ref_samples ''mixed'' 2 1) \<le>
   lr_max_us (aggregate exact (\<lambda>m. sorted_list_of_set (dom m)) ref_samples ''mixed'' 2 1)"
proof -
  have "ref_samples \<noteq> []" "(\<Sum>s \<leftarrow> ref_samples. unat (sa_latency_us s)) < 2 ^ 64" "length ref_samples < 2 ^ 64"
    by (simp_all add: ref_samples_def)
  with report_latencies [OF exact.f64_laws_axioms this(1) refl, of "\<lambda>m. sorted_list_of_set (dom m)" "''mixed''" 2 1]
  show ?thesis by (auto intro: order_trans)
qed

end
