(* ===== verification/Loadtest.thy ===== *)
theory Loadtest
  imports Load_Report Process
begin

text \<open>
  The load test (\<open>src/loadtest.rs\<close>): the test server, the operations, the workers and the orchestrator. A worker
  talks to the server through a client, which is a parameter: it answers a request with an error, or with the status and the
  text fields of the JSON body. A worker is a small state machine with one request per step, so that any
  interleaving of the workers and of the stop signal is a list of events.
\<close>

section \<open>Names\<close>

fun show_nat :: "nat \<Rightarrow> string" where
  "show_nat n = (if n < 10 then [char_of (48 + n)] else show_nat (n div 10) @ [char_of (48 + n mod 10)])"

declare show_nat.simps [simp del]

section \<open>Operations\<close>

datatype operation =
    CreateOrg | GetOrg' | ListOrgs' | CreateFormation | GetFormation' | ListFormations' | DeleteFormation
  | CreateToken | ListTokens' | CreateSink | ListSinks' | ToggleSink | HealthCheck

record worker_state =
  ws_worker_id :: nat
  ws_org_id :: string
  ws_app_ids :: "string list"
  ws_token_ids :: "string list"
  ws_sink_ids :: "string list"
  ws_formation_counter :: nat

definition new_worker_state :: "nat \<Rightarrow> string \<Rightarrow> worker_state" where
  "new_worker_state worker_id org_id =
     \<lparr>ws_worker_id = worker_id, ws_org_id = org_id, ws_app_ids = [], ws_token_ids = [], ws_sink_ids = [],
      ws_formation_counter = 0\<rparr>"

definition next_app_id :: "worker_state \<Rightarrow> string \<times> worker_state" where
  "next_app_id state =
     (let n = ws_formation_counter state + 1 in
      (''w'' @ show_nat (ws_worker_id state) @ ''-app-'' @ show_nat n, state\<lparr>ws_formation_counter := n\<rparr>))"

text \<open>The client: a request is answered with the status and the text fields of the body, or not at all.\<close>

type_synonym response = "nat \<times> (string \<Rightarrow> string option)"
type_synonym 't client = "http_request \<Rightarrow> ('t, err, response) op"

definition request :: "http_method \<Rightarrow> string list \<Rightarrow> body \<Rightarrow> http_request" where
  "request m path b =
     \<lparr>hq_method = m, hq_path = path, hq_authorization = None,
      hq_query = \<lparr>aq_app_id = None, aq_limit = None\<rparr>, hq_body = b\<rparr>"

text \<open>
  \<open>send().await.ok()?\<close>: without a response the operation ends with the state it has then; with one, the rest
  goes on from its status and body.
\<close>

definition sending ::
  "'t client \<Rightarrow> http_request \<Rightarrow> string \<Rightarrow> worker_state \<Rightarrow> (response \<Rightarrow> worker_state) \<Rightarrow> 't
     \<Rightarrow> ((string \<times> nat) option \<times> worker_state) \<times> 't" where
  "sending client rq name state k t =
     (case client rq t of
        (Inl _, t') \<Rightarrow> ((None, state), t')
      | (Inr resp, t') \<Rightarrow> ((Some (name, fst resp), k resp), t'))"

definition execute_op ::
  "'t client \<Rightarrow> worker_state \<Rightarrow> operation \<Rightarrow> 't \<Rightarrow> ((string \<times> nat) option \<times> worker_state) \<times> 't" where
  "execute_op client state op t =
     (let org = ws_org_id state; same = (\<lambda>_. state) in
      case op of
        CreateOrg \<Rightarrow>
          sending client (request POST [''orgs''] (BCreateOrg org org)) ''POST /orgs'' state same t
      | GetOrg' \<Rightarrow> sending client (request GET [''orgs'', org] NoBody) ''GET /orgs/:id'' state same t
      | ListOrgs' \<Rightarrow> sending client (request GET [''orgs''] NoBody) ''GET /orgs'' state same t
      | CreateFormation \<Rightarrow>
          (case next_app_id state of
             (app_id, state1) \<Rightarrow>
               sending client (request POST [''orgs'', org, ''formations''] (BCreateFormation app_id None))
                 ''POST /orgs/:id/formations'' state1
                 (\<lambda>resp. if fst resp < 400 then state1\<lparr>ws_app_ids := ws_app_ids state1 @ [app_id]\<rparr> else state1) t)
      | GetFormation' \<Rightarrow>
          if ws_app_ids state = [] then ((None, state), t)
          else
            let app_id = ws_app_ids state ! (ws_formation_counter state mod length (ws_app_ids state)) in
            sending client (request GET [''orgs'', org, ''formations'', app_id] NoBody)
              ''GET /orgs/:id/formations/:id'' state same t
      | ListFormations' \<Rightarrow>
          sending client (request GET [''orgs'', org, ''formations''] NoBody) ''GET /orgs/:id/formations'' state same t
      | DeleteFormation \<Rightarrow>
          if ws_app_ids state = [] then ((None, state), t)
          else
            let state1 = state\<lparr>ws_app_ids := butlast (ws_app_ids state)\<rparr> in
            sending client (request DELETE [''orgs'', org, ''formations'', last (ws_app_ids state)] NoBody)
              ''DELETE /orgs/:id/formations/:id'' state1 (\<lambda>_. state1) t
      | CreateToken \<Rightarrow>
          if ws_app_ids state = [] then ((None, state), t)
          else
            let label = ''w'' @ show_nat (ws_worker_id state) @ ''-tok-'' @ show_nat (length (ws_token_ids state)) in
            sending client (request POST [''orgs'', org, ''tokens'']
                (BCreateToken \<lparr>tr_app_id = ws_app_ids state ! 0, tr_label = label, tr_max_uses = None,
                  tr_expires_at = None\<rparr>))
              ''POST /orgs/:id/tokens'' state
              (\<lambda>(st, field). if st < 400 then
                 (case field ''token_id'' of
                    Some tid \<Rightarrow> state\<lparr>ws_token_ids := ws_token_ids state @ [tid]\<rparr> | None \<Rightarrow> state) else state) t
      | ListTokens' \<Rightarrow>
          if ws_app_ids state = [] then ((None, state), t)
          else sending client (request GET [''orgs'', org, ''formations'', ws_app_ids state ! 0, ''tokens''] NoBody)
                 ''GET /orgs/:id/formations/:id/tokens'' state same t
      | CreateSink \<Rightarrow>
          let prefix = ''peat.'' @ org @ ''.w'' @ show_nat (ws_worker_id state) @ ''.'' @ show_nat (length (ws_sink_ids state)) in
          sending client (request POST [''orgs'', org, ''sinks''] (BCreateSink (Nats prefix)))
            ''POST /orgs/:id/sinks'' state
            (\<lambda>(st, field). if st < 400 then
               (case field ''sink_id'' of
                  Some sid \<Rightarrow> state\<lparr>ws_sink_ids := ws_sink_ids state @ [sid]\<rparr> | None \<Rightarrow> state) else state) t
      | ListSinks' \<Rightarrow>
          sending client (request GET [''orgs'', org, ''sinks''] NoBody) ''GET /orgs/:id/sinks'' state same t
      | ToggleSink \<Rightarrow>
          (case ws_sink_ids state of
             [] \<Rightarrow> ((None, state), t)
           | sink_id # _ \<Rightarrow>
               sending client (request PATCH [''orgs'', org, ''sinks'', sink_id] (BToggle False))
                 ''PATCH /orgs/:id/sinks/:id'' state same t)
      | HealthCheck \<Rightarrow> sending client (request GET [''health''] NoBody) ''GET /health'' state same t)"

section \<open>Scenarios\<close>

text \<open>An operation that needs a formation; without one the scenario creates it.\<close>

definition or_create :: "worker_state \<Rightarrow> operation \<Rightarrow> operation" where
  "or_create state op = (if ws_app_ids state = [] then CreateFormation else op)"

definition pick_mixed_op :: "u8 \<Rightarrow> worker_state \<Rightarrow> operation" where
  "pick_mixed_op roll state =
     (let r = roll mod 100 in
      if r \<le> 14 then ListOrgs'
      else if r \<le> 29 then or_create state GetFormation'
      else if r \<le> 44 then CreateFormation
      else if r \<le> 54 then or_create state ListFormations'
      else if r \<le> 64 then or_create state CreateToken
      else if r \<le> 74 then CreateSink
      else if r \<le> 84 then or_create state DeleteFormation
      else if r \<le> 94 then ListSinks'
      else HealthCheck)"

definition pick_read_heavy_op :: "u8 \<Rightarrow> worker_state \<Rightarrow> operation" where
  "pick_read_heavy_op roll state =
     (let r = roll mod 100 in
      if r \<le> 19 then ListOrgs'
      else if r \<le> 39 then or_create state GetFormation'
      else if r \<le> 59 then or_create state ListFormations'
      else if r \<le> 69 then GetOrg'
      else if r \<le> 79 then ListSinks'
      else if r \<le> 89 then CreateFormation
      else if r \<le> 94 then or_create state CreateToken
      else HealthCheck)"

definition pick_op :: "string \<Rightarrow> u8 \<Rightarrow> worker_state \<Rightarrow> operation" where
  "pick_op scenario counter state =
     (if scenario = ''burst'' then CreateFormation
      else if scenario = ''read-heavy'' then pick_read_heavy_op counter state
      else pick_mixed_op counter state)"

section \<open>Workers\<close>

datatype phase = Setup nat | Looping | Finished

record worker =
  wk_state :: worker_state
  wk_scenario :: string
  wk_phase :: phase
  wk_counter :: u8

definition worker_start :: "nat \<Rightarrow> string \<Rightarrow> string \<Rightarrow> worker" where
  "worker_start worker_id org_id scenario =
     \<lparr>wk_state = new_worker_state worker_id org_id, wk_scenario = scenario, wk_phase = Setup 0,
      wk_counter = of_nat worker_id * 37\<rparr>"

definition raised_quotas :: org_quotas where
  "raised_quotas =
     \<lparr>max_formations = 100000, max_peers_per_formation = 100, max_documents_per_formation = 10000,
      max_cdc_sinks = 100000, max_enrollments_per_hour = default_max_enrollments_per_hour\<rparr>"

text \<open>The five requests of the setup; their answers are not recorded.\<close>

definition setup_step :: "'t client \<Rightarrow> nat \<Rightarrow> worker_state \<Rightarrow> 't \<Rightarrow> worker_state \<times> 't" where
  "setup_step client i state t =
     (if i = 1 then
        (state, snd (client (request PATCH [''orgs'', ws_org_id state] (BUpdateOrg None (Some raised_quotas))) t))
      else
        let op = (if i = 0 then CreateOrg else if i \<le> 3 then CreateFormation else CreateSink) in
        (case execute_op client state op t of ((_, state'), t') \<Rightarrow> (state', t')))"

text \<open>
  One step of a worker: a request of its setup, or a pass through its loop, which reads the stop flag first. \<open>us\<close>
  and \<open>ms\<close> are what the clocks show when the answer is there.
\<close>

definition worker_step ::
  "'t client \<Rightarrow> bool \<Rightarrow> u64 \<Rightarrow> u64 \<Rightarrow> worker \<Rightarrow> 't \<Rightarrow> (request_sample option \<times> worker) \<times> 't" where
  "worker_step client stop us ms w t =
     (case wk_phase w of
        Setup i \<Rightarrow>
          (case setup_step client i (wk_state w) t of
             (state', t') \<Rightarrow>
               ((None, w\<lparr>wk_state := state', wk_phase := (if i < 4 then Setup (i + 1) else Looping)\<rparr>), t'))
      | Looping \<Rightarrow>
          if stop then ((None, w\<lparr>wk_phase := Finished\<rparr>), t)
          else
            (case execute_op client (wk_state w) (pick_op (wk_scenario w) (wk_counter w) (wk_state w)) t of
               ((answer, state'), t') \<Rightarrow>
                 ((map_option (\<lambda>(endpoint, status).
                     \<lparr>sa_endpoint = endpoint, sa_status = status, sa_latency_us = us, sa_timestamp_ms = ms\<rparr>) answer,
                   w\<lparr>wk_state := state', wk_counter := wk_counter w + 7\<rparr>), t'))
      | Finished \<Rightarrow> ((None, w), t))"

section \<open>The orchestrator\<close>

record 't pool =
  pl_workers :: "worker list"
  pl_stop :: bool
  pl_samples :: "request_sample list"
  pl_server :: 't

datatype event = Step nat u64 u64 | Stop

fun pool_step :: "'t client \<Rightarrow> event \<Rightarrow> 't pool \<Rightarrow> 't pool" where
  "pool_step client Stop p = p\<lparr>pl_stop := True\<rparr>"
| "pool_step client (Step i us ms) p =
     (if i < length (pl_workers p) then
        (case worker_step client (pl_stop p) us ms (pl_workers p ! i) (pl_server p) of
           ((sample, w), t) \<Rightarrow>
             p\<lparr>pl_workers := (pl_workers p)[i := w], pl_server := t,
               pl_samples := pl_samples p @ (case sample of Some x \<Rightarrow> [x] | None \<Rightarrow> [])\<rparr>)
      else p)"

definition run_pool :: "'t client \<Rightarrow> event list \<Rightarrow> 't pool \<Rightarrow> 't pool" where
  "run_pool client es p = foldl (\<lambda>p e. pool_step client e p) p es"

definition all_finished :: "'t pool \<Rightarrow> bool" where
  "all_finished p \<longleftrightarrow> list_all (\<lambda>w. wk_phase w = Finished) (pl_workers p)"

definition org_ids_of :: "string \<Rightarrow> nat \<Rightarrow> nat \<Rightarrow> string list" where
  "org_ids_of scenario concurrency orgs =
     (if scenario = ''multi-org'' then map (\<lambda>i. ''org-'' @ show_nat i) [0..<orgs]
      else map (\<lambda>i. ''worker-org-'' @ show_nat i) [0..<concurrency])"

definition spawn_worker :: "string \<Rightarrow> string list \<Rightarrow> nat \<Rightarrow> err + worker" where
  "spawn_worker scenario org_ids i =
     (if scenario = ''multi-org'' then
        if length org_ids = 0 then Inl (Panic ''remainder with a divisor of zero'')
        else Inr (worker_start i (org_ids ! (i mod length org_ids)) ''mixed'')
      else Inr (worker_start i (org_ids ! i) scenario))"

text \<open>The server of the test: redb in a temporary directory, no key, no admin token.\<close>

definition test_server_config :: "string \<Rightarrow> gateway_config" where
  "test_server_config dir =
     \<lparr>cfg_bind_addr = ''127.0.0.1:0'', cfg_storage = RedbConfig (dir @ ''/loadtest.redb''),
      cfg_cdc = \<lparr>cfg_nats_url = None, cfg_kafka_brokers = None\<rparr>, cfg_ui_dir = None, cfg_kek = None,
      cfg_kms_key_arn = None, cfg_admin_token = None, cfg_vault_addr = None, cfg_vault_token = None,
      cfg_vault_transit_key = None, cfg_mesh_brokers = [], cfg_mesh_poll_interval_ms = 5000\<rparr>"

definition spawn_test_server ::
  "('k, 'g, 'j, 'n, 'f, 'x, 'w, 'p, 'v, 'o, 'b) process_crates \<Rightarrow> err + string
     \<Rightarrow> (('f, 'p) stores, err, ('k, 'g, 'j, ('f, 'p) stores, 'n) gateway) op" where
  "spawn_test_server Q tempdir =
     bindE (liftE tempdir) (\<lambda>dir.
     bindE (tenant_manager_new (pc_features Q) (pc_crypto Q) (pc_storage Q) (test_server_config dir)) (\<lambda>tenant_mgr.
     seqE (liftE (pc_listen Q ''127.0.0.1:0''))
       (retE ((pc_gateway Q)\<lparr>gw_tenant_mgr := tenant_mgr, gw_admin_token := None, gw_mesh := Map.empty\<rparr>))))"

text \<open>
  The client and the server together: the environments of the calls and what becomes of each request on its
  way are given for the \<open>n\<close>-th request. A request may get lost before or after it is served. Of a body the workers
  read two fields.
\<close>

datatype fate = Answered | Unsent | Unanswered

record 's server =
  sr_store :: 's
  sr_served :: nat

fun text_fields :: "reply \<Rightarrow> string \<Rightarrow> string option" where
  "text_fields (RToken tok) = [''token_id'' \<mapsto> tok_token_id tok]"
| "text_fields (RSink sink) = [''sink_id'' \<mapsto> sink_sink_id sink]"
| "text_fields _ = Map.empty"

definition response_of :: "api_error + nat \<times> reply \<Rightarrow> response" where
  "response_of r = (case r of Inl e \<Rightarrow> (fst e, Map.empty) | Inr (st, reply) \<Rightarrow> (st, text_fields reply))"

definition http_client ::
  "('k, 'g, 'j, 's, 'n) gateway \<Rightarrow> (nat \<Rightarrow> 'n api_env \<times> 'n enroll_env) \<Rightarrow> (nat \<Rightarrow> fate) \<Rightarrow> 's server client" where
  "http_client W envs fates rq t =
     (let n = sr_served t; t1 = t\<lparr>sr_served := n + 1\<rparr> in
      case fates n of
        Unsent \<Rightarrow> (Inl (Io ''request''), t1)
      | f \<Rightarrow>
          (case app W (fst (envs n)) (snd (envs n)) rq (sr_store t) of
             (r, s') \<Rightarrow>
               (if f = Unanswered then Inl (Io ''request'') else Inr (response_of r), t1\<lparr>sr_store := s'\<rparr>)))"

text \<open>
  A run: \<open>None\<close> stands for a schedule after which some worker is still running, so that the code is still waiting
  for it.
\<close>

definition loadtest_run ::
  "'r f64 \<Rightarrow> ((string \<rightharpoonup> request_sample list) \<Rightarrow> string list) \<Rightarrow> (string \<Rightarrow> 'r load_test_report \<Rightarrow> err + unit)
     \<Rightarrow> ('k, 'g, 'j, 'n, 'f, 'x, 'w, 'p, 'v, 'o, 'b) process_crates \<Rightarrow> err + string
     \<Rightarrow> (nat \<Rightarrow> 'n api_env \<times> 'n enroll_env) \<Rightarrow> (nat \<Rightarrow> fate) \<Rightarrow> event list
     \<Rightarrow> nat \<Rightarrow> u64 \<Rightarrow> string \<Rightarrow> nat \<Rightarrow> string option \<Rightarrow> (('f, 'p) stores, err, 'r load_test_report option) op" where
  "loadtest_run F walk write_json Q tempdir envs fates events concurrency duration_secs scenario orgs output =
     bindE (spawn_test_server Q tempdir) (\<lambda>W.
     bindE (liftE (traverse (spawn_worker scenario (org_ids_of scenario concurrency orgs)) [0..<concurrency])) (\<lambda>workers s.
       let p = run_pool (http_client W envs fates) events
                 \<lparr>pl_workers = workers, pl_stop = False, pl_samples = [], pl_server = \<lparr>sr_store = s, sr_served = 0\<rparr>\<rparr>
       in if all_finished p then
            let report = aggregate F walk (pl_samples p) scenario concurrency duration_secs in
            (case output of
               None \<Rightarrow> Inr (Some report)
             | Some path \<Rightarrow> mapR (\<lambda>_. Some report) (write_json path report), sr_store (pl_server p))
          else (Inr None, sr_store (pl_server p))))"

section \<open>The workers at the start\<close>

lemma spawn_worker_Inr:
  assumes "spawn_worker scenario ids i = Inr w"
  obtains k scen where "w = worker_start i k scen" "k = ids ! (if scenario = ''multi-org'' then i mod length ids else i)"
  using assms by (auto simp: spawn_worker_def split: if_splits)

lemma spawned:
  assumes "traverse (spawn_worker scenario ids) [0..<n] = Inr ws"
  shows "length ws = n"
    and "i < n \<Longrightarrow> \<exists>scen. ws ! i = worker_start i (ids ! (if scenario = ''multi-org'' then i mod length ids else i)) scen"
proof -
  have *: "list_all2 (\<lambda>i w. spawn_worker scenario ids i = Inr w) [0..<n] ws"
    using assms by (simp add: traverse_Inr)
  then show "length ws = n" by (simp add: list_all2_lengthD [symmetric])
  assume "i < n"
  with * have "spawn_worker scenario ids i = Inr (ws ! i)" by (auto simp: list_all2_conv_all_nth)
  then show "\<exists>scen. ws ! i = worker_start i (ids ! (if scenario = ''multi-org'' then i mod length ids else i)) scen"
    by (rule spawn_worker_Inr) blast
qed

section \<open>When the workers stop\<close>

lemma run_pool_simps [simp]:
  "run_pool client [] p = p" "run_pool client (e # es) p = run_pool client es (pool_step client e p)"
  "run_pool client (es @ es') p = run_pool client es' (run_pool client es p)"
  by (simp_all add: run_pool_def)

text \<open>How many more steps a worker takes once the stop flag is set.\<close>

fun steps_left :: "phase \<Rightarrow> nat" where
  "steps_left (Setup i) = (if i < 4 then 6 - i else 2)"
| "steps_left Looping = 1"
| "steps_left Finished = 0"

lemma steps_left_0: "steps_left ph = 0 \<longleftrightarrow> ph = Finished"
  by (cases ph) auto

lemma steps_left_bound: "steps_left ph \<le> 6"
  by (cases ph) auto

lemma worker_step_phase:
  "wk_phase (snd (fst (worker_step client stop us ms w t))) =
     (case wk_phase w of
        Setup i \<Rightarrow> if i < 4 then Setup (i + 1) else Looping
      | Looping \<Rightarrow> if stop then Finished else Looping
      | Finished \<Rightarrow> Finished)"
  by (simp add: worker_step_def split: phase.split prod.split)

lemma worker_step_stopped:
  "steps_left (wk_phase (snd (fst (worker_step client True us ms w t)))) = steps_left (wk_phase w) - 1"
  "fst (fst (worker_step client True us ms w t)) = None"
  by (auto simp: worker_step_phase worker_step_def split: phase.split prod.split)

fun steps_of :: "nat \<Rightarrow> event list \<Rightarrow> nat" where
  "steps_of i [] = 0"
| "steps_of i (Step j us ms # es) = (if i = j then 1 else 0) + steps_of i es"
| "steps_of i (Stop # es) = steps_of i es"

lemma run_pool_length [simp]: "length (pl_workers (run_pool client es p)) = length (pl_workers p)"
proof (induction es arbitrary: p)
  case (Cons e es)
  then show ?case by (cases e) (simp_all split: prod.split)
qed simp

lemma stopped_run:
  assumes "pl_stop p"
  shows "pl_samples (run_pool client es p) = pl_samples p \<and>
    (\<forall>i < length (pl_workers p). steps_left (wk_phase (pl_workers (run_pool client es p) ! i)) =
       steps_left (wk_phase (pl_workers p ! i)) - steps_of i es)"
  using assms
proof (induction es arbitrary: p)
  case (Cons e es)
  show ?case
  proof (cases e)
    case (Step j us ms)
    show ?thesis
    proof (cases "j < length (pl_workers p)")
      case True
      obtain sample w t where run: "worker_step client True us ms (pl_workers p ! j) (pl_server p) = ((sample, w), t)"
        by (metis surj_pair)
      with worker_step_stopped [of client us ms "pl_workers p ! j" "pl_server p"]
      have w: "sample = None" "steps_left (wk_phase w) = steps_left (wk_phase (pl_workers p ! j)) - 1" by simp_all
      let ?q = "p\<lparr>pl_workers := (pl_workers p)[j := w], pl_server := t, pl_samples := pl_samples p @ []\<rparr>"
      have "pool_step client e p = ?q" using Step True run Cons.prems w(1) by simp
      with Cons.IH [of ?q] Cons.prems w(2) True Step show ?thesis by (auto simp: nth_list_update)
    qed (use Cons Step in auto)
  next
    case Stop
    with Cons.IH [of "p\<lparr>pl_stop := True\<rparr>"] show ?thesis by simp
  qed
qed simp

lemma stopped_finishes:
  assumes "pl_stop p" and "\<forall>i < length (pl_workers p). 6 \<le> steps_of i es"
  shows "all_finished (run_pool client es p)"
proof -
  have "wk_phase (pl_workers (run_pool client es p) ! i) = Finished" if "i < length (pl_workers p)" for i
  proof -
    have "steps_left (wk_phase (pl_workers p ! i)) \<le> steps_of i es"
      using steps_left_bound assms(2) that order_trans by blast
    with stopped_run [OF assms(1), of client es] that show ?thesis
      by (simp add: steps_left_0 [symmetric])
  qed
  then show ?thesis by (simp add: all_finished_def list_all_length)
qed

lemma unstopped_runs:
  assumes "\<not> pl_stop p" and "Stop \<notin> set es" and "\<forall>w \<in> set (pl_workers p). wk_phase w \<noteq> Finished"
  shows "\<forall>w \<in> set (pl_workers (run_pool client es p)). wk_phase w \<noteq> Finished"
  using assms
proof (induction es arbitrary: p)
  case (Cons e es)
  then obtain i us ms where e: "e = Step i us ms" by (cases e) auto
  show ?case
  proof (cases "i < length (pl_workers p)")
    case True
    let ?r = "worker_step client False us ms (pl_workers p ! i) (pl_server p)"
    have "wk_phase (snd (fst ?r)) \<noteq> Finished"
      using Cons.prems(3) True by (auto simp: worker_step_phase split: phase.split)
    then have "\<forall>w \<in> set (pl_workers (pool_step client e p)). wk_phase w \<noteq> Finished"
      using Cons.prems True e
      by (auto split: prod.split dest!: set_update_subset_insert [THEN subsetD])
    moreover have "\<not> pl_stop (pool_step client e p)" using Cons.prems e by (simp split: prod.split)
    ultimately show ?thesis using Cons.IH Cons.prems(2) by simp
  qed (use Cons e in simp)
qed simp

lemma loadtest_run_fst:
  assumes "spawn_test_server Q tempdir s = (Inr W, s1)"
    and "traverse (spawn_worker scenario (org_ids_of scenario concurrency orgs)) [0..<concurrency] = Inr workers"
  shows "fst (loadtest_run F walk write Q tempdir envs fates es concurrency secs scenario orgs output s) =
    (let p = run_pool (http_client W envs fates) es
       \<lparr>pl_workers = workers, pl_stop = False, pl_samples = [], pl_server = \<lparr>sr_store = s1, sr_served = 0\<rparr>\<rparr>;
       report = aggregate F walk (pl_samples p) scenario concurrency secs in
     if all_finished p then
       (case output of None \<Rightarrow> Inr (Some report) | Some path \<Rightarrow> mapR (\<lambda>_. Some report) (write path report))
     else Inr None)"
  by (simp add: loadtest_run_def bindE_def liftE_def assms Let_def)


section \<open>What a worker can touch\<close>

definition own_request :: "string \<Rightarrow> http_request \<Rightarrow> bool" where
  "own_request k rq \<longleftrightarrow> http_ok rq \<and> request_target rq \<in> {None, Some k}"

lemma own_requests:
  "own_request k (request POST [''orgs''] (BCreateOrg k n))" "own_request k (request GET [''orgs''] b)"
  "own_request k (request GET [''orgs'', k] b)" "own_request k (request PATCH [''orgs'', k] (BUpdateOrg x q))"
  "own_request k (request POST [''orgs'', k, ''formations''] b)" "own_request k (request GET [''orgs'', k, ''formations''] b)"
  "own_request k (request GET [''orgs'', k, ''formations'', c] b)"
  "own_request k (request DELETE [''orgs'', k, ''formations'', c] b)"
  "own_request k (request POST [''orgs'', k, ''tokens''] b)"
  "own_request k (request GET [''orgs'', k, ''formations'', c, ''tokens''] b)"
  "own_request k (request POST [''orgs'', k, ''sinks''] b)" "own_request k (request GET [''orgs'', k, ''sinks''] b)"
  "own_request k (request PATCH [''orgs'', k, ''sinks'', c] b)" "own_request k (request GET [''health''] b)"
  by (simp_all add: own_request_def request_def request_target_def http_ok_def routers)

text \<open>The server after an operation is as it was, or as one request for the worker's organization left it.\<close>

definition one_request :: "'t client \<Rightarrow> string \<Rightarrow> 't \<Rightarrow> 't \<Rightarrow> bool" where
  "one_request client k t t' \<longleftrightarrow> t' = t \<or> (\<exists>rq. own_request k rq \<and> t' = snd (client rq t))"

lemma sending_touch:
  assumes "own_request k rq"
  shows "one_request client k t (snd (sending client rq name state f t))"
  using assms by (auto simp: one_request_def sending_def split: prod.splits sum.splits)

lemma sending_org:
  assumes "ws_org_id state = k" and "\<And>resp. ws_org_id (f resp) = k"
  shows "ws_org_id (snd (fst (sending client rq name state f t))) = k"
  using assms by (simp add: sending_def split: prod.split sum.split)

lemma execute_op_touch: "one_request client (ws_org_id state) t (snd (execute_op client state op t))"
  by (cases op)
     (auto simp: execute_op_def Let_def next_app_id_def one_request_def [where t' = t] own_requests
       intro!: sending_touch split: list.split)

lemma execute_op_org: "ws_org_id (snd (fst (execute_op client state op t))) = ws_org_id state"
  by (cases op)
     (auto simp: execute_op_def Let_def next_app_id_def intro!: sending_org split: list.split option.split)

lemma setup_step_touch:
  "one_request client (ws_org_id state) t (snd (setup_step client i state t)) \<and>
   ws_org_id (fst (setup_step client i state t)) = ws_org_id state"
proof (cases "i = 1")
  case True
  have "one_request client (ws_org_id state) t
      (snd (client (request PATCH [''orgs'', ws_org_id state] (BUpdateOrg None (Some raised_quotas))) t))"
    unfolding one_request_def by (intro disjI2 exI conjI, rule own_requests(4), rule refl)
  with True show ?thesis by (simp add: setup_step_def)
next
  case False
  then show ?thesis
    using execute_op_touch [of client state t] execute_op_org [of client state]
    by (simp add: setup_step_def Let_def case_prod_unfold)
qed

lemma worker_step_touch:
  "one_request client (ws_org_id (wk_state w)) t (snd (worker_step client stop us ms w t)) \<and>
   ws_org_id (wk_state (snd (fst (worker_step client stop us ms w t)))) = ws_org_id (wk_state w)"
  using setup_step_touch [of client "wk_state w" t]
    execute_op_touch [of client "wk_state w" t] execute_op_org [of client "wk_state w"]
  by (auto simp: worker_step_def case_prod_unfold one_request_def [where t' = t] split: phase.split)

text \<open>The events that step a worker of an organization.\<close>

fun steps_org :: "worker list \<Rightarrow> string \<Rightarrow> event \<Rightarrow> bool" where
  "steps_org ws j (Step i us ms) \<longleftrightarrow> i < length ws \<and> ws_org_id (wk_state (ws ! i)) = j"
| "steps_org ws j Stop \<longleftrightarrow> False"

lemma pool_step_orgs:
  "map (\<lambda>w. ws_org_id (wk_state w)) (pl_workers (pool_step client e p)) = map (\<lambda>w. ws_org_id (wk_state w)) (pl_workers p)"
  by (cases e) (auto simp: case_prod_unfold map_update list_update_same_conv worker_step_touch)

lemma steps_org_orgs:
  assumes "map (\<lambda>w. ws_org_id (wk_state w)) ws = map (\<lambda>w. ws_org_id (wk_state w)) ws'"
  shows "steps_org ws j e = steps_org ws' j e"
proof (cases e)
  case (Step i us ms)
  have "ws_org_id (wk_state (ws ! i)) = ws_org_id (wk_state (ws' ! i))" if "i < length ws"
    using assms that by (metis length_map nth_map)
  with Step map_eq_imp_length_eq [OF assms] show ?thesis by auto
qed simp

context api_service
begin

text \<open>The server keeps the invariant and the data of \<open>j\<close>.\<close>

definition server_same :: "string \<Rightarrow> 's server \<Rightarrow> 's server \<Rightarrow> bool" where
  "server_same j t t' \<longleftrightarrow> invar (sr_store t') \<and> org_view j (\<alpha> (sr_store t')) = org_view j (\<alpha> (sr_store t))"

lemma http_client_same:
  assumes W: "gw_tenant_mgr W = M" "mesh_crates_ok (gw_mesh_crates W)" and inv: "invar (sr_store t)"
    and rq: "http_ok rq" "request_target rq \<noteq> Some j"
  shows "server_same j t (snd (http_client W envs fates rq t))"
proof -
  let ?n = "sr_served t"
  obtain r s where run: "app W (fst (envs ?n)) (snd (envs ?n)) rq (sr_store t) = (r, s)" by fastforce
  with app_calm [OF W rq(1), of "fst (envs ?n)" "snd (envs ?n)"] inv
  have "invar s" "may_touch (request_target rq) (\<alpha> (sr_store t)) (\<alpha> s)" unfolding calm_def by blast+
  moreover from this(2) rq(2) have "org_view j (\<alpha> s) = org_view j (\<alpha> (sr_store t))"
    by (auto simp: may_touch_def others_same_def split: option.splits)
  ultimately show ?thesis
    using run inv by (simp add: http_client_def Let_def server_same_def split: fate.split)
qed

lemma one_request_same:
  assumes "gw_tenant_mgr W = M" "mesh_crates_ok (gw_mesh_crates W)" "invar (sr_store t)"
    and "one_request (http_client W envs fates) k t t'" and "k \<noteq> j"
  shows "server_same j t t'"
  using assms(4)
proof (unfold one_request_def, elim disjE exE conjE)
  fix rq
  assume "own_request k rq" "t' = snd (http_client W envs fates rq t)"
  with http_client_same [OF assms(1-3), of rq j] assms(5) show ?thesis by (auto simp: own_request_def)
qed (use assms(3) in \<open>simp add: server_same_def\<close>)

lemma run_pool_same:
  assumes W: "gw_tenant_mgr W = M" "mesh_crates_ok (gw_mesh_crates W)" and "invar (sr_store (pl_server p))"
    and "\<forall>e \<in> set es. \<not> steps_org (pl_workers p) j e"
  shows "server_same j (pl_server p) (pl_server (run_pool (http_client W envs fates) es p))"
  using assms(3,4)
proof (induction es arbitrary: p)
  case (Cons e es)
  let ?c = "http_client W envs fates"
  let ?q = "pool_step ?c e p"
  have q: "server_same j (pl_server p) (pl_server ?q)"
  proof (cases e)
    case (Step i us ms)
    show ?thesis
    proof (cases "i < length (pl_workers p)")
      case True
      with Cons.prems(2) Step have "ws_org_id (wk_state (pl_workers p ! i)) \<noteq> j" by auto
      with one_request_same [OF W Cons.prems(1)] worker_step_touch [of ?c "pl_workers p ! i" "pl_server p"]
      have "server_same j (pl_server p) (snd (worker_step ?c (pl_stop p) us ms (pl_workers p ! i) (pl_server p)))" by blast
      with True Step show ?thesis by (simp add: case_prod_unfold)
    qed (use Cons.prems(1) Step in \<open>simp add: server_same_def\<close>)
  qed (use Cons.prems(1) in \<open>simp add: server_same_def\<close>)
  moreover have "\<forall>e \<in> set es. \<not> steps_org (pl_workers ?q) j e"
    using Cons.prems(2) by (simp add: steps_org_orgs [OF pool_step_orgs])
  ultimately show ?case using Cons.IH [of ?q] by (auto simp: server_same_def)
qed (simp add: server_same_def)

end

section \<open>What the scenarios leave out\<close>

text \<open>No scenario lists tokens or toggles a sink, and a test over several organizations needs at least one.\<close>

lemma unpicked_operations: "pick_op scenario counter state \<notin> {ListTokens', ToggleSink}"
  by (simp add: pick_op_def pick_mixed_op_def pick_read_heavy_op_def or_create_def Let_def)

lemma no_orgs_panics:
  "0 < concurrency \<Longrightarrow>
     traverse (spawn_worker ''multi-org'' (org_ids_of ''multi-org'' concurrency 0)) [0..<concurrency] =
     Inl (Panic ''remainder with a divisor of zero'')"
  by (simp add: upt_rec [of 0] org_ids_of_def spawn_worker_def)

end
