(* ===== verification/Loadtest_Properties.thy ===== *)
theory Loadtest_Properties
  imports Loadtest
begin

text \<open>
  The workers of the load test against the gateway: each stays within its organization, and the formations a
  worker believes to exist do exist. The second rests on the interface \<open>forming_client\<close>: a client whose server
  keeps the formations no request removes, and has those whose creation it confirmed.
\<close>

section \<open>Names\<close>

lemma digit_of: "n < 10 \<Longrightarrow> of_char (char_of (48 + n) :: char) = 48 + (n :: nat)"
  by (simp add: of_char_of)

lemma is_digit_of: "(n :: nat) < 10 \<Longrightarrow> is_ascii_digit (char_of (48 + n))"
  by (simp add: is_ascii_digit_def less_eq_char_def digit_of)

lemma digits_value_append:
  "digits_value a (xs @ ys) = Option.bind (digits_value a xs) (\<lambda>v. digits_value v ys)"
  by (induction xs arbitrary: a) simp_all

lemma digits_value_show: "digits_value 0 (show_nat n) = Some n"
proof (induction n rule: show_nat.induct)
  case (1 n)
  then show ?case
    by (cases "n < 10") (simp_all add: show_nat.simps [of n] digits_value_append is_digit_of digit_of)
qed

lemma show_nat_inject: "show_nat m = show_nat n \<longleftrightarrow> m = n"
  by (metis digits_value_show option.inject)

lemma show_nat_digits: "list_all is_ascii_digit (show_nat n)"
proof (induction n rule: show_nat.induct)
  case (1 n)
  then show ?case by (cases "n < 10") (simp_all add: show_nat.simps [of n] is_digit_of)
qed

definition app_name :: "nat \<Rightarrow> nat \<Rightarrow> string" where
  "app_name i n = ''w'' @ show_nat i @ ''-app-'' @ show_nat n"

lemma app_name_inject: "app_name i m = app_name j n \<longleftrightarrow> i = j \<and> m = n"
proof
  assume *: "app_name i m = app_name j n"
  have t: "takeWhile is_ascii_digit (show_nat i @ CHR ''-'' # xs) = show_nat i" for i xs
    using show_nat_digits [of i] by (subst takeWhile_append2) (auto simp: list_all_iff is_ascii_digit_def)
  from * have "show_nat i @ CHR ''-'' # ''app-'' @ show_nat m = show_nat j @ CHR ''-'' # ''app-'' @ show_nat n"
    by (simp add: app_name_def)
  moreover from this have "show_nat i = show_nat j" by (metis t)
  ultimately show "i = j \<and> m = n" by (simp add: show_nat_inject)
qed simp

section \<open>Formations that a request leaves alone\<close>

definition forms_kept :: "(string \<times> string) set \<Rightarrow> abs_store \<Rightarrow> abs_store \<Rightarrow> bool" where
  "forms_kept D a a' \<longleftrightarrow> dom (a_formations a) - D \<subseteq> dom (a_formations a')"

lemma forms_kept_preorder [simp]: "reflp (forms_kept D)" "transp (forms_kept D)"
  by (auto simp: forms_kept_def reflp_def transp_def)

lemma forms_kept_upd [simp]:
  "forms_kept D a a" "forms_kept D a (a\<lparr>a_orgs := x1\<rparr>)" "forms_kept D a (a\<lparr>a_formations := (a_formations a)(kc \<mapsto> f)\<rparr>)"
  "kc \<in> D \<Longrightarrow> forms_kept D a (a\<lparr>a_formations := (a_formations a)(kc := None)\<rparr>)"
  "forms_kept D a (a\<lparr>a_tokens := x3\<rparr>)" "forms_kept D a (a\<lparr>a_sinks := x4\<rparr>)" "forms_kept D a (a\<lparr>a_genesis := x5\<rparr>)"
  by (auto simp: forms_kept_def)

context api_service
begin

lemma forms_storage:
  "nul_free (org_org_id x) \<Longrightarrow> keeps (forms_kept D) (be_create_org (tm_store M) x)"
  "nul_free (org_org_id x) \<Longrightarrow> keeps (forms_kept D) (be_update_org (tm_store M) x)"
  "nul_free k \<Longrightarrow> nul_free (form_app_id f) \<Longrightarrow> keeps (forms_kept D) (be_create_formation (tm_store M) k f)"
  "(k, c) \<in> D \<Longrightarrow> keeps (forms_kept D) (be_delete_formation (tm_store M) k c)"
  "nul_free k \<Longrightarrow> nul_free c \<Longrightarrow> keeps (forms_kept D) (be_store_genesis (tm_store M) k c g)"
  "keeps (forms_kept D) (be_delete_genesis (tm_store M) k c)"
  "nul_free (tok_org_id t) \<Longrightarrow> nul_free (tok_token_id t) \<Longrightarrow> keeps (forms_kept D) (be_create_token (tm_store M) t)"
  "nul_free (sink_org_id n) \<Longrightarrow> nul_free (sink_sink_id n) \<Longrightarrow> keeps (forms_kept D) (be_create_sink (tm_store M) n)"
  "nul_free (sink_org_id n) \<Longrightarrow> nul_free (sink_sink_id n) \<Longrightarrow> keeps (forms_kept D) (be_update_sink (tm_store M) n)"
  by (rule keeps_wr, rule storage_writes, auto)+

lemma forms_methods:
  "keeps (forms_kept D) (Tenant.create_org M now k name)"
  "keeps (forms_kept D) (Tenant.create_formation K M en r k c pol)"
  "(k, c) \<in> D \<Longrightarrow> keeps (forms_kept D) (Tenant.delete_formation M k c)"
  "mesh_crates_ok K \<Longrightarrow> keeps (forms_kept D) (Tenant.create_token K M b now k c l mu ex)"
  "mesh_crates_ok K \<Longrightarrow> keeps (forms_kept D) (Tenant.create_sink K M b now k st)"
  "keeps (forms_kept D) (Tenant.toggle_sink M k c' enabled)"
proof -
  show "keeps (forms_kept D) (Tenant.create_org M now k name)"
    unfolding Tenant.create_org_def Let_def
    by (intro keeps_seq keeps_bind keeps_pure)
      (auto simp: liftE_eq validate_identifier_iff intro!: keeps_seq forms_storage(1) intro: identifier_nul_free)
  show "keeps (forms_kept D) (Tenant.create_formation K M en r k c pol)"
    unfolding Tenant.create_formation_def Let_def
    by (intro keeps_seq keeps_bind keeps_pure)
      (auto simp: liftE_eq readE_eq validate_identifier_iff get_org_Inr identifier_nul_free
        intro!: keeps_seq keeps_bind forms_storage(3,5))
  show "keeps (forms_kept D) (Tenant.delete_formation M k c)" if "(k, c) \<in> D"
    unfolding Tenant.delete_formation_def
    by (rule keeps_bind [OF _ forms_storage(4) [OF that]]) (auto intro: keeps_ignore forms_storage(6))
  show "keeps (forms_kept D) (Tenant.create_token K M b now k c l mu ex)" if "mesh_crates_ok K"
    unfolding Tenant.create_token_def Let_def
    using token_id_nul_free [OF that, of b]
    by (intro keeps_seq keeps_bind keeps_pure forms_storage(7)) (auto simp: readE_eq dest: get_org_Inr)
  show "keeps (forms_kept D) (Tenant.create_sink K M b now k st)" if "mesh_crates_ok K"
    unfolding Tenant.create_sink_def Let_def
    by (intro keeps_seq keeps_bind keeps_pure)
      (auto simp: readE_eq get_org_Inr hex_nul_free [OF that] intro!: keeps_seq forms_storage(8))
  show "keeps (forms_kept D) (Tenant.toggle_sink M k c' enabled)"
    unfolding Tenant.toggle_sink_def Let_def
    by (intro keeps_seq keeps_bind keeps_pure forms_storage(9)) (auto simp: readE_eq get_sink_Inr)
qed

lemma forms_update_org: "keeps (forms_kept D) (Tenant.update_org M k name q)"
  unfolding Tenant.update_org_def Let_def
proof (intro keeps_bind keeps_pure)
  fix s org s'
  assume "invar s" "readE (Tenant.get_org M k) s = (Inr org, s')"
  then have "org_org_id org = k" "nul_free k" by (auto simp: readE_eq get_org_Inr)
  then show "keeps (forms_kept D) (seqE (be_update_org (tm_store M) (case q of
        None \<Rightarrow> case name of None \<Rightarrow> org | Some n \<Rightarrow> org\<lparr>org_display_name := n\<rparr>
      | Some y \<Rightarrow> (case name of None \<Rightarrow> org | Some n \<Rightarrow> org\<lparr>org_display_name := n\<rparr>)\<lparr>org_quotas := y\<rparr>))
      (retE (case q of
        None \<Rightarrow> case name of None \<Rightarrow> org | Some n \<Rightarrow> org\<lparr>org_display_name := n\<rparr>
      | Some y \<Rightarrow> (case name of None \<Rightarrow> org | Some n \<Rightarrow> org\<lparr>org_display_name := n\<rparr>)\<lparr>org_quotas := y\<rparr>)))"
    by (intro keeps_seq keeps_pure forms_storage(2)) (simp_all split: option.split)
qed simp_all

end

text \<open>The endpoints the workers use, and the formations a request to one of them removes.\<close>

fun worker_endpoint :: "endpoint \<Rightarrow> bool" where
  "worker_endpoint CreateOrgAt = True"
| "worker_endpoint ListOrgs = True"
| "worker_endpoint (GetOrg k) = True"
| "worker_endpoint (UpdateOrgAt k) = True"
| "worker_endpoint (CreateFormationAt k) = True"
| "worker_endpoint (ListFormations k) = True"
| "worker_endpoint (GetFormation k c) = True"
| "worker_endpoint (DeleteFormationAt k c) = True"
| "worker_endpoint (CreateTokenAt k) = True"
| "worker_endpoint (ListTokens k c) = True"
| "worker_endpoint (CreateSinkAt k) = True"
| "worker_endpoint (ListSinks k) = True"
| "worker_endpoint (ToggleSinkAt k c) = True"
| "worker_endpoint Health = True"
| "worker_endpoint _ = False"

fun removes :: "endpoint \<Rightarrow> (string \<times> string) set" where
  "removes (DeleteFormationAt k c) = {(k, c)}"
| "removes _ = {}"

definition worker_request :: "(string \<times> string) set \<Rightarrow> http_request \<Rightarrow> bool" where
  "worker_request D rq \<longleftrightarrow>
     (\<exists>ep. route (hq_method rq) (hq_path rq) = Some ep \<and> worker_endpoint ep \<and> D = removes ep)"

lemma worker_requests:
  "worker_request {} (request POST [''orgs''] b)" "worker_request {} (request GET [''orgs''] b)"
  "worker_request {} (request GET [''orgs'', k] b)" "worker_request {} (request PATCH [''orgs'', k] b)"
  "worker_request {} (request POST [''orgs'', k, ''formations''] b)"
  "worker_request {} (request GET [''orgs'', k, ''formations''] b)"
  "worker_request {} (request GET [''orgs'', k, ''formations'', c] b)"
  "worker_request {(k, c)} (request DELETE [''orgs'', k, ''formations'', c] b)"
  "worker_request {} (request POST [''orgs'', k, ''tokens''] b)"
  "worker_request {} (request GET [''orgs'', k, ''formations'', c, ''tokens''] b)"
  "worker_request {} (request POST [''orgs'', k, ''sinks''] b)" "worker_request {} (request GET [''orgs'', k, ''sinks''] b)"
  "worker_request {} (request PATCH [''orgs'', k, ''sinks'', c] b)" "worker_request {} (request GET [''health''] b)"
  by (simp_all add: worker_request_def request_def routers)

context api_service
begin

definition keeps_forms :: "(string \<times> string) set \<Rightarrow> ('s, api_error, 'a) op \<Rightarrow> bool" where
  "keeps_forms D f \<longleftrightarrow> (\<forall>s r s'. invar s \<longrightarrow> f s = (r, s') \<longrightarrow> invar s' \<and> forms_kept D (\<alpha> s) (\<alpha> s'))"

lemma keeps_forms_pure [simp]:
  "keeps_forms D (ok_json f h (readE g))" "keeps_forms D (rejected b)" "keeps_forms D (retE x)"
  by (auto simp: keeps_forms_def op_iffs ok_json_def rejected_def split: body.splits)

lemma keeps_forms_json:
  assumes "keeps (forms_kept D) m"
  shows "keeps_forms D (ok_json f g m)" "keeps_forms D (created_json f g m)"
  using assms by (auto simp: keeps_forms_def ok_json_def created_json_def op_iffs dest: keepsD)

lemma keeps_forms_admin: "keeps_forms D m \<Longrightarrow> keeps_forms D (require_admin_token expected auth m)"
  by (auto simp: keeps_forms_def require_admin_token_cases split: if_splits)

lemma handle_admin_forms:
  assumes "gw_tenant_mgr W = M" and "mesh_crates_ok (gw_mesh_crates W)" and "worker_endpoint ep" "ep \<noteq> Health"
  shows "keeps_forms (removes ep) (handle_admin W v q b ep)"
  using assms
  by (cases ep)
     (simp_all add: api_handlers keeps_forms_json [OF forms_methods(1)] keeps_forms_json [OF forms_methods(2)]
       keeps_forms_json [OF forms_methods(3)] keeps_forms_json [OF forms_methods(4)]
       keeps_forms_json [OF forms_methods(5)] keeps_forms_json [OF forms_methods(6)]
       keeps_forms_json [OF forms_update_org] split: body.split)

lemma app_forms:
  assumes W: "gw_tenant_mgr W = M" "mesh_crates_ok (gw_mesh_crates W)" and rq: "worker_request D rq"
  shows "keeps_forms D (app W v ve rq)"
proof -
  from rq obtain ep where ep: "route (hq_method rq) (hq_path rq) = Some ep" "worker_endpoint ep" "D = removes ep"
    by (auto simp: worker_request_def)
  show ?thesis
  proof (cases "ep = Health")
    case True
    with ep show ?thesis
      by (auto simp: app_cases handle_public_def no_route_def keeps_forms_def require_admin_token_cases op_iffs)
  next
    case False
    then have "\<not> is_public ep" using ep(2) by (cases ep) simp_all
    with keeps_forms_admin [OF handle_admin_forms [OF W ep(2) False]] ep route_not_public show ?thesis
      by (simp add: app_cases)
  qed
qed

lemma app_creates_formation:
  assumes W: "gw_tenant_mgr W = M" and inv: "invar s"
    and run: "app W v ve (request POST [''orgs'', k, ''formations''] (BCreateFormation c pol)) s = (Inr x, s')"
  shows "(k, c) \<in> dom (a_formations (\<alpha> s'))"
proof -
  have "admin_routes POST [''orgs'', k, ''formations''] = Some (CreateFormationAt k)" by (simp add: routers)
  with run W obtain r pol' where r: "Inr x = map_err bad_request (mapR (\<lambda>f. (201, RFormation f)) r)"
    "Tenant.create_formation (gw_mesh_crates W) M (ae_entropy v) (ae_seal v) k c pol' s = (r, s')"
    by (auto simp: app_def request_def require_admin_token_cases api_create_formation_def created_json_def op_iffs
        split: if_splits)
  then obtain f where "r = Inr f" by (cases r) simp_all
  with create_formation_Inr [OF inv] r(2) show ?thesis by fastforce
qed

end

section \<open>The formations a worker believes to exist\<close>

text \<open>
  They are named after the worker and a counter, in the order of their creation, and they exist.
\<close>

definition tracked :: "(string \<times> string) set \<Rightarrow> worker_state \<Rightarrow> bool" where
  "tracked F state \<longleftrightarrow>
     (\<exists>ns. ws_app_ids state = map (app_name (ws_worker_id state)) ns \<and> sorted_wrt (<) ns \<and>
        (\<forall>n \<in> set ns. n \<le> ws_formation_counter state \<and> (ws_org_id state, app_name (ws_worker_id state) n) \<in> F))"

definition same_names :: "worker_state \<Rightarrow> worker_state \<Rightarrow> bool" where
  "same_names st st' \<longleftrightarrow> ws_worker_id st' = ws_worker_id st \<and> ws_org_id st' = ws_org_id st \<and>
     ws_app_ids st' = ws_app_ids st \<and> ws_formation_counter st' = ws_formation_counter st"

definition own_forms :: "worker_state \<Rightarrow> (string \<times> string) set" where
  "own_forms state = {(ws_org_id state, app_name (ws_worker_id state) n) | n. True}"

lemma tracked_mono: "tracked F st \<Longrightarrow> F \<inter> own_forms st \<subseteq> F' \<Longrightarrow> same_names st st' \<Longrightarrow> tracked F' st'"
  unfolding tracked_def same_names_def own_forms_def by (elim exE, intro exI) auto

lemma tracked_push:
  assumes "tracked F st" and "(ws_org_id st, app_name (ws_worker_id st) (ws_formation_counter st + 1)) \<in> F"
  shows "tracked F (st\<lparr>ws_formation_counter := ws_formation_counter st + 1,
    ws_app_ids := ws_app_ids st @ [app_name (ws_worker_id st) (ws_formation_counter st + 1)]\<rparr>)"
proof -
  from assms(1) obtain ns where "ws_app_ids st = map (app_name (ws_worker_id st)) ns" "sorted_wrt (<) ns"
    "\<forall>n \<in> set ns. n \<le> ws_formation_counter st \<and> (ws_org_id st, app_name (ws_worker_id st) n) \<in> F"
    by (auto simp: tracked_def)
  with assms(2) show ?thesis
    unfolding tracked_def
    by (intro exI [of _ "ns @ [ws_formation_counter st + 1]"]) (auto simp: sorted_wrt_append le_SucI)
qed

lemma tracked_skip: "tracked F st \<Longrightarrow> tracked F (st\<lparr>ws_formation_counter := ws_formation_counter st + 1\<rparr>)"
  unfolding tracked_def by (elim exE, intro exI) auto

lemma tracked_pop:
  assumes "tracked F st" and "ws_app_ids st \<noteq> []"
  shows "tracked (F - {(ws_org_id st, last (ws_app_ids st))}) (st\<lparr>ws_app_ids := butlast (ws_app_ids st)\<rparr>)"
proof -
  from assms obtain ms m where ns: "ws_app_ids st = map (app_name (ws_worker_id st)) (ms @ [m])" "sorted_wrt (<) (ms @ [m])"
    "\<forall>n \<in> set (ms @ [m]). n \<le> ws_formation_counter st \<and> (ws_org_id st, app_name (ws_worker_id st) n) \<in> F"
    unfolding tracked_def by (metis map_is_Nil_conv rev_exhaust)
  then have "\<forall>n \<in> set ms. app_name (ws_worker_id st) n \<noteq> last (ws_app_ids st)"
    by (auto simp: sorted_wrt_append app_name_inject)
  with ns show ?thesis
    unfolding tracked_def by (intro exI [of _ ms]) (auto simp: sorted_wrt_append)
qed

lemma last_own: "tracked F st \<Longrightarrow> ws_app_ids st \<noteq> [] \<Longrightarrow> (ws_org_id st, last (ws_app_ids st)) \<in> own_forms st"
  by (auto simp: tracked_def own_forms_def last_map)

locale forming_client =
  fixes client :: "'t client" and forms :: "'t \<Rightarrow> (string \<times> string) set" and ok :: "'t \<Rightarrow> bool"
  assumes keeps: "ok t \<Longrightarrow> worker_request D rq \<Longrightarrow> client rq t = (r, t') \<Longrightarrow> ok t' \<and> forms t - D \<subseteq> forms t'"
    and creates: "ok t \<Longrightarrow>
      client (request POST [''orgs'', k, ''formations''] (BCreateFormation c None)) t = (Inr resp, t') \<Longrightarrow>
      fst resp < 400 \<Longrightarrow> (k, c) \<in> forms t'"
begin

text \<open>What a step of a worker keeps: its bookkeeping is right, and it removes formations of its own only.\<close>

definition step_ok :: "worker_state \<Rightarrow> 't \<Rightarrow> worker_state \<Rightarrow> 't \<Rightarrow> bool" where
  "step_ok st t st' t' \<longleftrightarrow> ok t' \<and> tracked (forms t') st' \<and> ws_worker_id st' = ws_worker_id st \<and>
     ws_org_id st' = ws_org_id st \<and> forms t - own_forms st \<subseteq> forms t'"

lemma step_ok_refl: "ok t \<Longrightarrow> tracked (forms t) st \<Longrightarrow> step_ok st t st t"
  by (auto simp: step_ok_def)

lemma sending_plain:
  assumes ok: "ok t" and tr: "tracked (forms t) st" and rq: "worker_request {} rq"
    and k: "\<And>resp. same_names st (k resp)" and run: "sending client rq name st k t = ((ans, st'), t')"
  shows "step_ok st t st' t'"
proof -
  obtain r where r: "client rq t = (r, t')" and st': "same_names st st'"
    using run k by (auto simp: sending_def same_names_def split: prod.splits sum.splits)
  from keeps [OF ok rq r] have "ok t'" "forms t \<subseteq> forms t'" by auto
  with tr st' show ?thesis
    by (auto simp: step_ok_def same_names_def intro: tracked_mono)
qed

lemma create_formation_step:
  assumes ok: "ok t" and tr: "tracked (forms t) st" and run: "execute_op client st CreateFormation t = ((ans, st'), t')"
  shows "step_ok st t st' t'"
proof -
  let ?c = "app_name (ws_worker_id st) (ws_formation_counter st + 1)"
  let ?rq = "request POST [''orgs'', ws_org_id st, ''formations''] (BCreateFormation ?c None)"
  let ?st1 = "st\<lparr>ws_formation_counter := ws_formation_counter st + 1\<rparr>"
  obtain r where r: "client ?rq t = (r, t')"
    and st': "st' = ?st1 \<or> (\<exists>resp. r = Inr resp \<and> fst resp < 400 \<and> st' = ?st1\<lparr>ws_app_ids := ws_app_ids st @ [?c]\<rparr>)"
    using run
    by (auto simp: execute_op_def Let_def next_app_id_def sending_def app_name_def split: prod.splits sum.splits if_splits)
  from keeps [OF ok worker_requests(5) r] have t': "ok t'" "forms t \<subseteq> forms t'" by auto
  then have tr': "tracked (forms t') st" using tr by (auto intro: tracked_mono simp: same_names_def)
  have "tracked (forms t') st'"
    using st'
  proof (elim disjE exE conjE)
    fix resp
    assume "r = Inr resp" "fst resp < 400" "st' = ?st1\<lparr>ws_app_ids := ws_app_ids st @ [?c]\<rparr>"
    with tracked_push [OF tr'] creates [OF ok] r show ?thesis by (simp only:)
  qed (use tracked_skip [OF tr'] in simp)
  with t' st' show ?thesis by (auto simp: step_ok_def)
qed

lemma delete_formation_step:
  assumes ok: "ok t" and tr: "tracked (forms t) st" and run: "execute_op client st DeleteFormation t = ((ans, st'), t')"
  shows "step_ok st t st' t'"
proof (cases "ws_app_ids st = []")
  case False
  let ?st1 = "st\<lparr>ws_app_ids := butlast (ws_app_ids st)\<rparr>"
  let ?c = "last (ws_app_ids st)"
  obtain r where r: "client (request DELETE [''orgs'', ws_org_id st, ''formations'', ?c] NoBody) t = (r, t')"
    and st': "st' = ?st1"
    using run False by (auto simp: execute_op_def Let_def sending_def split: prod.splits sum.splits)
  from keeps [OF ok worker_requests(8) r] have t': "ok t'" "forms t - {(ws_org_id st, ?c)} \<subseteq> forms t'" by auto
  with tracked_pop [OF tr False] have "tracked (forms t') ?st1"
    by (auto intro: tracked_mono simp: same_names_def)
  with t' st' last_own [OF tr False] show ?thesis by (auto simp: step_ok_def)
qed (use run tr ok in \<open>simp add: execute_op_def step_ok_refl\<close>)

lemma execute_op_step:
  assumes ok: "ok t" and tr: "tracked (forms t) st" and run: "execute_op client st op t = ((ans, st'), t')"
  shows "step_ok st t st' t'"
proof (cases "op = CreateFormation \<or> op = DeleteFormation")
  case True
  with create_formation_step [OF ok tr] delete_formation_step [OF ok tr] run show ?thesis by blast
next
  case False
  with run step_ok_refl [OF ok tr] show ?thesis
    by (cases op)
       (auto simp: execute_op_def Let_def same_names_def worker_requests
         split: if_splits list.splits option.split elim!: sending_plain [OF ok tr, rotated 2])
qed

end

context forming_client
begin

lemma setup_step_ok:
  assumes ok: "ok t" and tr: "tracked (forms t) st" and run: "setup_step client i st t = (st', t')"
  shows "step_ok st t st' t'"
proof (cases "i = 1")
  case True
  let ?rq = "request PATCH [''orgs'', ws_org_id st] (BUpdateOrg None (Some raised_quotas))"
  obtain r where r: "client ?rq t = (r, t')" and st': "st' = st"
    using run True by (cases "client ?rq t") (simp add: setup_step_def)
  from keeps [OF ok worker_requests(4) r] tr st' show ?thesis
    by (auto simp: step_ok_def same_names_def intro: tracked_mono)
next
  case False
  with run obtain op ans where "execute_op client st op t = ((ans, st'), t')"
    by (auto simp: setup_step_def Let_def split: prod.splits)
  then show ?thesis by (rule execute_op_step [OF ok tr])
qed

lemma worker_step_ok:
  assumes ok: "ok t" and tr: "tracked (forms t) (wk_state w)" and run: "worker_step client stop us ms w t = ((x, w'), t')"
  shows "step_ok (wk_state w) t (wk_state w') t'"
proof (cases "wk_phase w")
  case (Setup i)
  obtain st' u where s: "setup_step client i (wk_state w) t = (st', u)" by fastforce
  with run Setup setup_step_ok [OF ok tr s] show ?thesis by (auto simp: worker_step_def)
next
  case Looping
  obtain ans st' u where e: "execute_op client (wk_state w) (pick_op (wk_scenario w) (wk_counter w) (wk_state w)) t = ((ans, st'), u)"
    by (metis surj_pair)
  with run Looping execute_op_step [OF ok tr e] step_ok_refl [OF ok tr] show ?thesis
    by (auto simp: worker_step_def split: if_splits)
next
  case Finished
  with run step_ok_refl [OF ok tr] show ?thesis by (auto simp: worker_step_def)
qed

text \<open>Every worker of the pool has its own number, and its bookkeeping is right.\<close>

definition pool_ok :: "'t pool \<Rightarrow> bool" where
  "pool_ok p \<longleftrightarrow> ok (pl_server p) \<and>
     (\<forall>i < length (pl_workers p). ws_worker_id (wk_state (pl_workers p ! i)) = i \<and>
        tracked (forms (pl_server p)) (wk_state (pl_workers p ! i)))"

lemma pool_step_ok:
  assumes "pool_ok p"
  shows "pool_ok (pool_step client e p)"
proof (cases e)
  case (Step i us ms)
  show ?thesis
  proof (cases "i < length (pl_workers p)")
    case True
    let ?w = "pl_workers p ! i"
    obtain x w' t' where run: "worker_step client (pl_stop p) us ms ?w (pl_server p) = ((x, w'), t')"
      by (metis surj_pair)
    have p: "ok (pl_server p)" "ws_worker_id (wk_state (pl_workers p ! j)) = j"
        "tracked (forms (pl_server p)) (wk_state (pl_workers p ! j))" if "j < length (pl_workers p)" for j
      using assms that by (auto simp: pool_ok_def)
    note w' = worker_step_ok [OF p(1) [OF True] p(3) [OF True] run, unfolded step_ok_def]
    have "tracked (forms t') (wk_state (pl_workers p ! j))" if j: "j < length (pl_workers p)" "j \<noteq> i" for j
    proof (rule tracked_mono [OF p(3) [OF j(1)]])
      have "own_forms (wk_state (pl_workers p ! j)) \<inter> own_forms (wk_state ?w) = {}"
        using p(2) [OF j(1)] p(2) [OF True] j(2) by (auto simp: own_forms_def app_name_inject)
      with w' show "forms (pl_server p) \<inter> own_forms (wk_state (pl_workers p ! j)) \<subseteq> forms t'" by blast
    qed (simp add: same_names_def)
    then show ?thesis
      using Step True run w' p(2) by (auto simp: pool_ok_def nth_list_update)
  qed (use assms Step in simp)
qed (use assms in \<open>simp add: pool_ok_def\<close>)

lemma run_pool_ok: "pool_ok p \<Longrightarrow> pool_ok (run_pool client es p)"
  by (induction es arbitrary: p) (simp_all add: pool_step_ok)

lemma run_pool_tracked:
  assumes "ok (pl_server p)" and "i < length (pl_workers p)"
    and "\<And>l. l < length (pl_workers p) \<Longrightarrow> ws_worker_id (wk_state (pl_workers p ! l)) = l \<and>
      tracked (forms (pl_server p)) (wk_state (pl_workers p ! l))"
  shows "tracked (forms (pl_server (run_pool client es p))) (wk_state (pl_workers (run_pool client es p) ! i))"
proof -
  have "pool_ok p" using assms by (simp add: pool_ok_def)
  from run_pool_ok [OF this] assms(2) show ?thesis by (simp add: pool_ok_def)
qed

end

lemma app_status:
  assumes "app W v ve rq s = (Inl e, s')"
  shows "400 \<le> fst e"
  using app_answers [of W v ve rq s] assms by (auto simp: answers_well_def error_statuses_def)

context api_service
begin

lemma http_forming_client_ok:
  assumes W: "gw_tenant_mgr W = M" "mesh_crates_ok (gw_mesh_crates W)"
  shows "forming_client (http_client W envs fates) (\<lambda>t. dom (a_formations (\<alpha> (sr_store t)))) (\<lambda>t. invar (sr_store t))"
proof
  fix t t' :: "'s server" and D rq r
  assume "invar (sr_store t)" "worker_request D rq" "http_client W envs fates rq t = (r, t')"
  with app_forms [OF W, of D rq "fst (envs (sr_served t))" "snd (envs (sr_served t))"]
  show "invar (sr_store t') \<and> dom (a_formations (\<alpha> (sr_store t))) - D \<subseteq> dom (a_formations (\<alpha> (sr_store t')))"
    by (fastforce simp: http_client_def Let_def keeps_forms_def forms_kept_def split: fate.splits prod.splits)
next
  fix t t' :: "'s server" and k c resp
  let ?rq = "request POST [''orgs'', k, ''formations''] (BCreateFormation c None)"
  let ?n = "sr_served t"
  assume inv: "invar (sr_store t)" and run: "http_client W envs fates ?rq t = (Inr resp, t')" and st: "fst resp < 400"
  obtain r s' where a: "app W (fst (envs ?n)) (snd (envs ?n)) ?rq (sr_store t) = (r, s')" by fastforce
  with run have r: "resp = response_of r" "sr_store t' = s'"
    by (auto simp: http_client_def Let_def split: fate.splits)
  obtain x where "r = Inr x"
    using app_status [of W] a r(1) st by (cases r) (fastforce simp: response_of_def)+
  with app_creates_formation [OF W(1) inv] a r(2)
  show "(k, c) \<in> dom (a_formations (\<alpha> (sr_store t')))" by blast
qed

end

lemma forming_client_guard:
  assumes "G \<Longrightarrow> forming_client client forms ok"
  shows "forming_client client forms (\<lambda>t. G \<and> ok t)"
  using assms unfolding forming_client_def by blast

text \<open>The client of the test server is such a client, on the redb backend the test uses.\<close>

lemma redb_test_client:
  "forming_client (http_client (W\<lparr>gw_tenant_mgr := with_backend (opened_redb S E) P en\<rparr>) envs fates)
     (\<lambda>t. dom (a_formations (redb_abs S (V (st_redb (sr_store t))))))
     (\<lambda>t. mesh_crates_ok (gw_mesh_crates W) \<and> redb_inv S E V X (st_redb (sr_store t)))"
proof (rule forming_client_guard)
  assume "mesh_crates_ok (gw_mesh_crates W)"
  then show "forming_client (http_client (W\<lparr>gw_tenant_mgr := with_backend (opened_redb S E) P en\<rparr>) envs fates)
     (\<lambda>t. dom (a_formations (redb_abs S (V (st_redb (sr_store t)))))) (\<lambda>t. redb_inv S E V X (st_redb (sr_store t)))"
    by (intro redb_process.http_forming_client_ok) simp_all
qed

interpretation test_client: forming_client
  "http_client (W\<lparr>gw_tenant_mgr := with_backend (opened_redb S E) P en\<rparr>) envs fates"
  "\<lambda>t. dom (a_formations (redb_abs S (V (st_redb (sr_store t)))))"
  "\<lambda>t. mesh_crates_ok (gw_mesh_crates W) \<and> redb_inv S E V X (st_redb (sr_store t))" for W S E P en envs fates V X
  by (rule redb_test_client)

lemma spawn_test_server_redb:
  assumes run: "spawn_test_server Q tempdir t = (Inr W, t')"
    and files: "redb_files_laws (sc_files (pc_storage Q)) V X"
    and inv: "redb_inv (sc_redb_serde (pc_storage Q)) (sc_redb (pc_storage Q)) V X (st_redb t)"
  obtains P en where "W = (pc_gateway Q)\<lparr>gw_admin_token := None, gw_mesh := Map.empty,
      gw_tenant_mgr := with_backend (opened_redb (sc_redb_serde (pc_storage Q)) (sc_redb (pc_storage Q))) P en\<rparr>"
    "redb_inv (sc_redb_serde (pc_storage Q)) (sc_redb (pc_storage Q)) V X (st_redb t')"
proof -
  from run obtain dir M where M: "tenant_manager_new (pc_features Q) (pc_crypto Q) (pc_storage Q) (test_server_config dir) t = (Inr M, t')"
    and W: "W = (pc_gateway Q)\<lparr>gw_tenant_mgr := M, gw_admin_token := None, gw_mesh := Map.empty\<rparr>"
    by (auto simp: spawn_test_server_def op_iffs)
  obtain B P en where B: "storage_open (pc_storage Q) (cfg_storage (test_server_config dir)) t = (Inr B, t')"
    "M = with_backend B P en"
    by (rule tenant_manager_new_Inr [OF M])
  have c: "cfg_storage (test_server_config dir) = RedbConfig (dir @ ''/loadtest.redb'')" by (simp add: test_server_config_def)
  have "storage_ok (pc_storage Q) V X VP (RedbConfig (dir @ ''/loadtest.redb'')) t" for VP
    using files inv by (simp add: storage_ok_def)
  then have "redb_inv (sc_redb_serde (pc_storage Q)) (sc_redb (pc_storage Q)) V X (st_redb t')"
    using storage_open_result(2) [OF B(1)] c by (fastforce simp: storage_ok_def)
  moreover have "B = opened_redb (sc_redb_serde (pc_storage Q)) (sc_redb (pc_storage Q))"
    by (rule storage_open_cases [OF B(1)]) (simp_all add: c)
  ultimately show ?thesis using that [of P en] B(2) W by (cases "pc_gateway Q") simp
qed

lemma run_pool_orgs:
  "map (\<lambda>w. ws_org_id (wk_state w)) (pl_workers (run_pool client es p)) = map (\<lambda>w. ws_org_id (wk_state w)) (pl_workers p)"
  by (induction es arbitrary: p) (simp_all add: pool_step_orgs)

lemma steps_of_pos: "Step i us ms \<in> set es \<Longrightarrow> 0 < steps_of i es"
  by (induction i es rule: steps_of.induct) auto

lemma unstepped_org: "\<exists>k. \<forall>e. \<not> steps_org ws k e"
proof -
  obtain k where "k \<notin> set (map (\<lambda>w. ws_org_id (wk_state w)) ws)"
    using ex_new_if_finite [OF infinite_UNIV_listI finite_set] by blast
  then have "\<not> steps_org ws k e" for e by (cases e) auto
  then show ?thesis by blast
qed

text \<open>
  The workers of a load test that gives each its own organization do not disturb each other. Whatever the
  test has done so far and whatever becomes of the requests on their way: as long as worker \<open>i\<close> takes no step, everything stored
  for its organization stays as it is, while the others go on.
\<close>

theorem workers_alone:
  assumes "spawn_test_server Q tempdir t = (Inr W, s1)"
    and "redb_files_laws (sc_files (pc_storage Q)) V X"
    and "redb_inv (sc_redb_serde (pc_storage Q)) (sc_redb (pc_storage Q)) V X (st_redb t)"
    and "mesh_crates_ok (gw_mesh_crates (pc_gateway Q))" and "scenario \<noteq> ''multi-org''"
    and "traverse (spawn_worker scenario (org_ids_of scenario concurrency orgs)) [0..<concurrency] = Inr workers"
    and p: "p = run_pool (http_client W envs fates) es
      \<lparr>pl_workers = workers, pl_stop = False, pl_samples = [], pl_server = \<lparr>sr_store = s1, sr_served = 0\<rparr>\<rparr>"
    and q: "q = run_pool (http_client W envs fates) es' p" and i: "i < concurrency" "steps_of i es' = 0"
  shows "org_view (''worker-org-'' @ show_nat i)
      (redb_abs (sc_redb_serde (pc_storage Q)) (V (st_redb (sr_store (pl_server q))))) =
    org_view (''worker-org-'' @ show_nat i)
      (redb_abs (sc_redb_serde (pc_storage Q)) (V (st_redb (sr_store (pl_server p)))))"
proof -
  let ?S = "sc_redb_serde (pc_storage Q)" and ?E = "sc_redb (pc_storage Q)" and ?j = "''worker-org-'' @ show_nat i"
  let ?c = "http_client W envs fates" and ?p0 = "\<lparr>pl_workers = workers, pl_stop = False, pl_samples = [], pl_server = \<lparr>sr_store = s1, sr_served = 0\<rparr>\<rparr>"
  obtain P en where W: "W = (pc_gateway Q)\<lparr>gw_admin_token := None, gw_mesh := Map.empty,
      gw_tenant_mgr := with_backend (opened_redb ?S ?E) P en\<rparr>" and inv: "redb_inv ?S ?E V X (st_redb s1)"
    by (rule spawn_test_server_redb [OF assms(1-3)])
  have W': "gw_tenant_mgr W = with_backend (opened_redb ?S ?E) P en" "mesh_crates_ok (gw_mesh_crates W)"
    using W assms(4) by simp_all
  have ws: "ws_org_id (wk_state (workers ! l)) = ''worker-org-'' @ show_nat l" if "l < concurrency" for l
    using spawned(2) [OF assms(6) that] that assms(5)
    by (auto simp: org_ids_of_def worker_start_def new_worker_state_def)
  obtain k where k: "\<forall>e \<in> set es. \<not> steps_org workers k e" using unstepped_org by blast
  have "redb_inv ?S ?E V X (st_redb (sr_store (pl_server p)))"
    using redb_process.run_pool_same [OF W', where p = ?p0 and es = es and j = k] inv k
    unfolding p redb_process.server_same_def by simp
  moreover have "\<not> steps_org (pl_workers p) ?j e" if "e \<in> set es'" for e
  proof -
    have "\<not> steps_org workers ?j e"
    proof (cases e)
      case (Step l us ms)
      with that i(2) steps_of_pos have "l \<noteq> i" by fastforce
      with Step ws spawned(1) [OF assms(6)] show ?thesis by (auto simp: show_nat_inject)
    qed simp
    with steps_org_orgs [OF run_pool_orgs, of ?c es ?p0] show ?thesis by (simp add: p)
  qed
  ultimately show ?thesis
    using redb_process.run_pool_same [OF W', where p = p and es = es' and j = ?j]
    unfolding q redb_process.server_same_def by blast
qed

text \<open>
  C15: a worker's picture of the server is right. At every moment of a load test, in every scenario and
  whatever requests were lost before or after they were served, the formations a worker keeps in its list exist in
  its organization: no lookup or token it asks for can fail because the formation is missing.
\<close>

theorem tracked_formations_exist:
  assumes "spawn_test_server Q tempdir t = (Inr W, s1)"
    and "redb_files_laws (sc_files (pc_storage Q)) V X"
    and "redb_inv (sc_redb_serde (pc_storage Q)) (sc_redb (pc_storage Q)) V X (st_redb t)"
    and "mesh_crates_ok (gw_mesh_crates (pc_gateway Q))"
    and "traverse (spawn_worker scenario (org_ids_of scenario concurrency orgs)) [0..<concurrency] = Inr workers"
    and p: "p = run_pool (http_client W envs fates) es
      \<lparr>pl_workers = workers, pl_stop = False, pl_samples = [], pl_server = \<lparr>sr_store = s1, sr_served = 0\<rparr>\<rparr>"
    and "i < concurrency" and "c \<in> set (ws_app_ids (wk_state (pl_workers p ! i)))"
  shows "\<exists>f. a_formations (redb_abs (sc_redb_serde (pc_storage Q)) (V (st_redb (sr_store (pl_server p)))))
    (ws_org_id (wk_state (pl_workers p ! i)), c) = Some f"
proof -
  let ?S = "sc_redb_serde (pc_storage Q)" and ?E = "sc_redb (pc_storage Q)"
  let ?p0 = "\<lparr>pl_workers = workers, pl_stop = False, pl_samples = [], pl_server = \<lparr>sr_store = s1, sr_served = 0\<rparr>\<rparr>"
  let ?W = "(pc_gateway Q)\<lparr>gw_admin_token := None, gw_mesh := Map.empty\<rparr>"
  obtain P en where W: "W = ?W\<lparr>gw_tenant_mgr := with_backend (opened_redb ?S ?E) P en\<rparr>"
    and inv: "redb_inv ?S ?E V X (st_redb s1)"
    by (rule spawn_test_server_redb [OF assms(1-3)])
  have start: "ws_worker_id (wk_state (workers ! l)) = l \<and> tracked F (wk_state (workers ! l))" if "l < concurrency" for l F
    using spawned(2) [OF assms(5) that] by (auto simp: worker_start_def new_worker_state_def tracked_def)
  have n: "length workers = concurrency" by (rule spawned(1) [OF assms(5)])
  have "tracked (dom (a_formations (redb_abs ?S (V (st_redb (sr_store (pl_server p))))))) (wk_state (pl_workers p ! i))"
    unfolding p W
    by (rule test_client.run_pool_tracked [where X = X and V = V]) (use start inv assms(4,7) n in simp_all)
  with assms(8) show ?thesis by (auto simp: tracked_def)
qed

section \<open>Examples\<close>

text \<open>
  Two workers on a server that has the organization of the first already; its first two requests get lost, its third
  creates a formation.
\<close>

definition load_org :: organization where
  "load_org = \<lparr>org_org_id = ''worker-org-0'', org_display_name = ''w'', org_quotas = default_quotas, org_created_at = 1\<rparr>"

definition load_db :: mem_db where
  "load_db = mem_empty(ORGS_TABLE := [(''worker-org-0'', StOrg load_org)])"

definition load_stores :: "(mem_db, stored tables) stores" where
  "load_stores = \<lparr>st_redb = load_db, st_pg = no_rows\<rparr>"

definition load_envs :: "nat \<Rightarrow> unit api_env \<times> unit enroll_env" where
  "load_envs n = (ref_api_env, ref_enroll_env)"

definition load_fates :: "nat \<Rightarrow> fate" where
  "load_fates n = (if n < 2 then Unsent else Answered)"

definition load_server :: "(bytes, bytes, unit, (mem_db, stored tables) stores, unit) gateway" where
  "load_server = (pc_gateway ref_process)\<lparr>gw_tenant_mgr := with_backend (opened_redb mem_serde mem_engine) plaintext_provider False,
     gw_admin_token := None, gw_mesh := Map.empty\<rparr>"

definition load_workers :: "worker list" where
  "load_workers = [worker_start 0 ''worker-org-0'' ''mixed'', worker_start 1 ''worker-org-1'' ''mixed'']"

lemma load_db_inv: "mem_inv load_db"
proof -
  have "nul_free ''worker-org-0''" by (simp add: nul_free_def nul_def char_of_def)
  then have "redb_rows mem_serde (mem_tables load_db)"
    by (simp add: redb_rows_def orgs_ok_def rows_ok_def mem_tables_def load_db_def mem_empty_def mem_serde_def load_org_def)
  then show ?thesis
    using mem.redb_engine_axioms mem_codec.serde_codec_axioms by (simp add: redb_inv_def)
qed

lemma load_spawn: "spawn_test_server ref_process (Inr ''/tmp'') load_stores = (Inr load_server, load_stores)"
  by (simp add: spawn_test_server_def load_server_def tenant_manager_new_def new_manager_def mem_open backend_on_def
      build_key_provider_def test_server_config_def ref_process_def load_stores_def Redb.list_orgs_def mem_run
      load_db_def load_org_def)

lemma show_small: "show_nat 0 = ''0''" "show_nat (Suc 0) = ''1''"
  by code_simp+

lemma load_spawned:
  "traverse (spawn_worker ''mixed'' (org_ids_of ''mixed'' 2 3)) [0..<2] = Inr load_workers"
  by (simp add: load_workers_def org_ids_of_def spawn_worker_def show_small upt_rec numeral_2_eq_2)

lemma load_laws:
  "redb_files_laws (sc_files (pc_storage ref_process)) mem_tables mem_tables"
  "redb_inv (sc_redb_serde (pc_storage ref_process)) (sc_redb (pc_storage ref_process)) mem_tables mem_tables (st_redb load_stores)"
  "mesh_crates_ok (gw_mesh_crates (pc_gateway ref_process))"
  using mem_files.redb_files_laws_axioms load_db_inv
  by (simp_all add: ref_process_def ref_crates_on_disk_def load_stores_def ref_mesh_ok)


definition load_pool :: "event list \<Rightarrow> (mem_db, stored tables) stores server pool" where
  "load_pool es = run_pool (http_client load_server load_envs load_fates) es
     \<lparr>pl_workers = load_workers, pl_stop = False, pl_samples = [], pl_server = \<lparr>sr_store = load_stores, sr_served = 0\<rparr>\<rparr>"

theorem workers_alone_witness:
  "org_view ''worker-org-0'' (redb_abs mem_serde (mem_tables (st_redb (sr_store (pl_server (load_pool
     [Step 0 1 1, Step 0 1 1, Step 0 1 1, Step 1 1 1, Step 1 1 1])))))) =
   org_view ''worker-org-0'' (redb_abs mem_serde (mem_tables (st_redb (sr_store (pl_server (load_pool
     [Step 0 1 1, Step 0 1 1, Step 0 1 1]))))))"
proof -
  have i: "(0 :: nat) < 2" "steps_of 0 [Step 1 1 1, Step 1 1 1] = 0" "''mixed'' \<noteq> ''multi-org''" by simp_all
  have S: "sc_redb_serde (pc_storage ref_process) = mem_serde" by (simp add: ref_process_def ref_crates_on_disk_def)
  from workers_alone [OF load_spawn load_laws i(3) load_spawned refl refl i(1,2),
      of load_envs load_fates "[Step 0 1 1, Step 0 1 1, Step 0 1 1]"]
  show ?thesis unfolding S by (simp add: load_pool_def show_small del: pool_step.simps)
qed

lemma load_pool_tracks:
  "ws_app_ids (wk_state (pl_workers (load_pool [Step 0 1 1, Step 0 1 1, Step 0 1 1]) ! 0)) = [''w0-app-1'']"
  "ws_org_id (wk_state (pl_workers (load_pool [Step 0 1 1, Step 0 1 1, Step 0 1 1]) ! 0)) = ''worker-org-0''"
proof -
  let ?rq = "request POST [''orgs'', ''worker-org-0'', ''formations''] (BCreateFormation ''w0-app-1'' None)"
  have "\<exists>f s'. app load_server ref_api_env ref_enroll_env ?rq load_stores = (Inr (201, f), s')"
    by (simp add: app_def request_def routers api_create_formation_def created_json_def require_admin_token_def
        load_server_def load_stores_def load_db_def load_org_def ref_process_def ref_api_env_def backend_on_def on_part_def
        Tenant.create_formation_def Tenant.get_org_def Redb.get_org_def
        Redb.list_formations_def Redb.get_formation_def Redb.create_formation_def
        Redb.store_genesis_def mem_run default_quotas_def ref_mesh_def
        starts_with_def validate_identifier_def index_def identifier_byte_def
        is_ascii_alphanumeric_def is_ascii_alphabetic_def is_ascii_digit_def less_eq_char_def of_char_def
        MAX_IDENTIFIER_LEN_def word_le_nat_alt)
  then obtain f s' where a: "app load_server ref_api_env ref_enroll_env ?rq load_stores = (Inr (201, f), s')" by blast
  show "ws_app_ids (wk_state (pl_workers (load_pool [Step 0 1 1, Step 0 1 1, Step 0 1 1]) ! 0)) = [''w0-app-1'']"
    "ws_org_id (wk_state (pl_workers (load_pool [Step 0 1 1, Step 0 1 1, Step 0 1 1]) ! 0)) = ''worker-org-0''"
    by (simp_all add: load_pool_def load_workers_def worker_step_def worker_start_def setup_step_def execute_op_def
        sending_def http_client_def load_fates_def load_envs_def next_app_id_def new_worker_state_def show_small a
        response_of_def Let_def)
qed

theorem tracked_formations_exist_witness:
  "\<exists>f. a_formations (redb_abs mem_serde (mem_tables (st_redb (sr_store (pl_server
     (load_pool [Step 0 1 1, Step 0 1 1, Step 0 1 1])))))) (''worker-org-0'', ''w0-app-1'') = Some f"
proof -
  have S: "sc_redb_serde (pc_storage ref_process) = mem_serde" by (simp add: ref_process_def ref_crates_on_disk_def)
  have i: "(0 :: nat) < 2" by simp
  have c: "''w0-app-1'' \<in> set (ws_app_ids (wk_state (pl_workers (load_pool [Step 0 1 1, Step 0 1 1, Step 0 1 1]) ! 0)))"
    by (simp add: load_pool_tracks)
  from tracked_formations_exist [OF load_spawn load_laws load_spawned load_pool_def i c]
  show ?thesis unfolding S load_pool_tracks .
qed

end
