(* ===== verification/Command.thy ===== *)
theory Command
  imports Loadtest_Properties
begin

text \<open>
  The commands of the binary (\<open>src/main.rs\<close>, the entry points of \<open>src/cli.rs\<close>): the configuration is read from the environment,
  then the command runs, \<open>serve\<close> when none is given.
\<close>

section \<open>The commands\<close>

datatype command =
    Serve
  | MigrateKeys bool                                        \<comment> \<open>\<open>--dry-run\<close>\<close>
  | LoadTest nat u64 string nat "string option"              \<comment> \<open>concurrency, duration, scenario, orgs, output\<close>

definition migrate_keys_command ::
  "('k, 'g, 'j, 'n, 'f, 'x, 'w, 'p, 'v, 'o, 'b) process_crates \<Rightarrow> (nat \<Rightarrow> 'n seal_env \<times> 'n call_env)
     \<Rightarrow> gateway_config \<Rightarrow> bool \<Rightarrow> (('f, 'p) stores, err, migration_stats) op" where
  "migrate_keys_command Q seals config dry_run =
     bindE (liftE (build_key_provider (pc_features Q) (pc_crypto Q) config)) (\<lambda>(_, encrypt_enabled).
       if \<not> encrypt_enabled then failE (NoKeyProvider ''migrate-keys'')
       else bindE (storage_open (pc_storage Q) (cfg_storage config)) (\<lambda>store.
         migrate_keys (pc_features Q) (pc_crypto Q) config store dry_run seals))"

text \<open>What the load test takes from outside: arithmetic, the walk of a hash map, the report file and the run of its tasks.\<close>

record ('n, 'r) test_run =
  tr_f64 :: "'r f64"
  tr_walk :: "(string \<rightharpoonup> request_sample list) \<Rightarrow> string list"
  tr_write_json :: "string \<Rightarrow> 'r load_test_report \<Rightarrow> err + unit"
  tr_tempdir :: "err + string"
  tr_envs :: "nat \<Rightarrow> 'n api_env \<times> 'n enroll_env"
  tr_fates :: "nat \<Rightarrow> fate"
  tr_events :: "event list"

definition load_test ::
  "('k, 'g, 'j, 'n, 'f, 'x, 'w, 'p, 'v, 'o, 'b) process_crates \<Rightarrow> ('n, 'r) test_run \<Rightarrow> nat \<Rightarrow> u64 \<Rightarrow> string \<Rightarrow> nat
     \<Rightarrow> string option \<Rightarrow> (('f, 'p) stores, err, 'r load_test_report option) op" where
  "load_test Q T concurrency duration_secs scenario orgs output =
     loadtest_run (tr_f64 T) (tr_walk T) (tr_write_json T) Q (tr_tempdir T) (tr_envs T) (tr_fates T) (tr_events T)
       concurrency duration_secs scenario orgs output"

datatype ('k, 'g, 'j, 's, 'n, 'r) outcome =
    Running "('k, 'g, 'j, 's, 'n) service" "'j snapshot list"
  | Migrated migration_stats
  | Tested "'r load_test_report option"

text \<open>The load test is a command of builds with the feature \<open>loadtest\<close> only.\<close>

definition main ::
  "('k, 'g, 'j, 'n, 'f, 'x, 'w, 'p, 'v, 'o, 'b) process_crates \<Rightarrow> (nat \<Rightarrow> 'n seal_env \<times> 'n call_env) \<Rightarrow> ('n, 'r) test_run
     \<Rightarrow> (string \<Rightarrow> string option) \<Rightarrow> command option
     \<Rightarrow> (('f, 'p) stores, err, ('k, 'g, 'j, ('f, 'p) stores, 'n, 'r) outcome) op" where
  "main Q seals T env command =
     bindE (liftE (from_env env)) (\<lambda>config.
       case unwrap_or command Serve of
         Serve \<Rightarrow> mapE (\<lambda>(sv, sns). Running sv sns) (serve Q config)
       | MigrateKeys dry_run \<Rightarrow> mapE Migrated (migrate_keys_command Q seals config dry_run)
       | LoadTest concurrency duration scenario orgs output \<Rightarrow>
           if pc_feature_loadtest Q then
             mapE Tested (load_test Q T concurrency duration scenario orgs output)
           else failE (FeatureMissing ''loadtest''))"

section \<open>Migrating, then serving\<close>

lemma migrate_keys_command_result:
  assumes ok: "storage_ok (pc_storage Q) V X VP (cfg_storage config) t"
    and run: "migrate_keys_command Q seals config dry t = (Inr st, t')"
  shows "storage_ok (pc_storage Q) V X VP (cfg_storage config) t' \<and> stats_add st \<and>
    (\<exists>P. build_key_provider (pc_features Q) (pc_crypto Q) config = Inr (P, True) \<and>
       sealed_in_place (cc_aead (pc_crypto Q)) P (stored (pc_storage Q) V VP (cfg_storage config) t)
         (stored (pc_storage Q) V VP (cfg_storage config) t')) \<and>
    (dry \<longrightarrow> stored (pc_storage Q) V VP (cfg_storage config) t' = stored (pc_storage Q) V VP (cfg_storage config) t) \<and>
    (\<not> dry \<longrightarrow> all_encrypted (stored (pc_storage Q) V VP (cfg_storage config) t'))"
proof -
  from run obtain P B t1 where P: "build_key_provider (pc_features Q) (pc_crypto Q) config = Inr (P, True)"
    and B: "storage_open (pc_storage Q) (cfg_storage config) t = (Inr B, t1)"
    and m: "migrate_keys (pc_features Q) (pc_crypto Q) config B dry seals t1 = (Inr st, t')"
    by (auto simp: migrate_keys_command_def op_iffs split: if_splits)
  note opened = storage_open_result [OF B ok]
  from storage_contract.migrate_keys_result [OF opened(1,2) m] P opened(3) show ?thesis by auto
qed

lemma main_cases:
  "main Q seals T env (Some (MigrateKeys dry)) t = (Inr (Migrated st), t') \<Longrightarrow>
     \<exists>config. from_env env = Inr config \<and> migrate_keys_command Q seals config dry t = (Inr st, t')"
  "main Q seals T env None t = (Inr (Running sv sns), t') \<Longrightarrow>
     \<exists>config. from_env env = Inr config \<and> serve Q config t = (Inr (sv, sns), t')"
  by (auto simp: main_def op_iffs mapR_eq_Inr eq_commute [of "Inr _" "mapR _ _"])


section \<open>An example\<close>

definition ref_env :: "string \<Rightarrow> string option" where
  "ref_env name = (if name = ''PEAT_KEK'' then Some ''kek'' else if name = ''PEAT_ADMIN_TOKEN'' then Some ''secret'' else None)"

definition ref_seals :: "nat \<Rightarrow> unit seal_env \<times> unit call_env" where
  "ref_seals n = (ref_seal_env, se_wrap ref_seal_env)"

definition ref_test_run :: "(unit, real) test_run" where
  "ref_test_run =
     \<lparr>tr_f64 = exact, tr_walk = (\<lambda>m. sorted_list_of_set (dom m)), tr_write_json = (\<lambda>_ _. Inr ()), tr_tempdir = Inr ''/tmp'',
      tr_envs = load_envs, tr_fates = load_fates, tr_events = []\<rparr>"

lemma ref_from_env: "from_env ref_env = Inr ref_config"
  by (simp add: from_env_def ref_env_def ref_config_def storage_from_env_def parse_mesh_broker_mappings_def)

lemma ref_provider: "build_key_provider (pc_features ref_process) (pc_crypto ref_process) ref_config =
    Inr (local_provider ref_aead (replicate 32 7), True)"
  by (simp add: ref_process_def build_key_provider_def ref_config_def ref_crates_def from_hex_def)

lemma ref_main_migrates:
  "\<exists>st t1. main ref_process ref_seals ref_test_run ref_env (Some (MigrateKeys False)) ref_stores =
     (Inr (Migrated st :: (bytes, bytes, unit, (mem_db, stored tables) stores, unit, real) outcome), t1) \<and>
     is_ok (be_list_orgs (opened_redb mem_serde mem_engine) t1)"
proof -
  let ?P = "local_provider ref_aead (replicate 32 7) :: unit key_provider"
  obtain w where w: "seal ref_aead ?P ref_seal_env [1, 2, 3] = Inr w"
    by (simp add: seal_def local_provider_def local_wrap_dek_def ref_aead_def ref_seal_env_def ensure_def)
  have opened: "open_envelope ref_aead ?P (se_wrap ref_seal_env) w = Inr (Some [1, 2, 3])"
    by (rule lp.open_seal [OF ref_cipher.aead_laws_axioms ref_seal_env_ok _ w])
      (simp add: ref_cipher.aead_laws_axioms ref_seal_env_def)
  have aead: "cc_aead (pc_crypto ref_process) = ref_aead" by (simp add: ref_process_def ref_crates_def)
  have store: "storage_open (pc_storage ref_process) (cfg_storage ref_config) ref_stores =
      (Inr (opened_redb mem_serde mem_engine), ref_stores)"
    by (simp add: mem_open ref_process_def ref_config_def)
  have main: "main ref_process ref_seals ref_test_run ref_env (Some (MigrateKeys False)) ref_stores =
      mapE Migrated (migrate_keys (pc_features ref_process) (pc_crypto ref_process) ref_config (opened_redb mem_serde mem_engine) False
        ref_seals) ref_stores"
    by (simp add: main_def ref_from_env liftE_def bindE_def mapE_def migrate_keys_command_def ref_provider store)
  have "\<not> is_envelope [1, 2, 3]" by (simp add: is_envelope_def)
  then show ?thesis
    unfolding main
    by (simp add: mapE_def migrate_keys_def aead ref_provider Redb.list_orgs_def Redb.list_formations_def backend_on_def
        on_part_def ref_stores_def Redb.get_genesis_def Redb.store_genesis_def migrate_record_def w opened mem_run ref_org_def
        ref_formation_def starts_with_def ref_seals_def)
qed

lemma ref_config_ok: "storage_ok (pc_storage ref_process) mem_tables mem_tables (\<lambda>p. p) (cfg_storage ref_config) ref_stores"
  using ref_storage_ok by (simp add: ref_process_config_def)

text \<open>A store that can be opened and listed lets the gateway start.\<close>

lemma ref_serve_opens:
  assumes "be_list_orgs (opened_redb mem_serde mem_engine) t = Inr orgs"
  shows "\<exists>sv sns. serve ref_process ref_config t = (Inr (sv, sns), t)"
  using assms
  by (simp add: serve_def start_brokers_def tenant_manager_new_def new_manager_def new_engine_def mem_open
      build_key_provider_def ref_config_def ref_crates_def from_hex_def ref_process_def flaky_net_def op_defs)


end
